(* ===== verification/Prelude.thy ===== *)
theory Prelude
  imports Main "HOL-Library.AList" "HOL-Library.Multiset" "HOL-Library.Monad_Syntax"
begin

text \<open>
  Shared vocabulary of the development.

  A Go \<open>map\<close> is an association list with distinct keys (\<open>gomap\<close>); ranging over the map visits the
  list in order, and since every theorem holds for every such list, it holds for every order in which
  the Go runtime may enumerate the keys.  A Go slice whose nil-ness is tested by the code is an
  option of a list (\<open>goslice\<close>), any other slice is a list.  A Go statement that may panic returns an
  option, \<open>None\<close> being the panic; loops whose body may panic are \<open>foreach\<close>.
\<close>

named_theorems gomap_simps \<open>rewrite rules for Go maps\<close>
named_theorems ok_intros \<open>preservation of the well-formedness predicates\<close>

subsection \<open>Slices and loops\<close>

type_synonym 'a goslice = "'a list option"

text \<open>The elements of a slice: ranging over a nil slice does nothing.\<close>

definition elems :: "'a goslice \<Rightarrow> 'a list" where
  "elems s = (case s of None \<Rightarrow> [] | Some xs \<Rightarrow> xs)"

lemma elems_simps [simp]: "elems None = []" "elems (Some xs) = xs"
  by (simp_all add: elems_def)

fun foreach :: "('a \<Rightarrow> 's \<Rightarrow> 's option) \<Rightarrow> 'a list \<Rightarrow> 's \<Rightarrow> 's option" where
  "foreach f [] s = Some s"
| "foreach f (x # xs) s = (case f x s of None \<Rightarrow> None | Some s' \<Rightarrow> foreach f xs s')"

lemma foreach_append:
  "foreach f (xs @ ys) s = Option.bind (foreach f xs s) (foreach f ys)"
  by (induction xs arbitrary: s) (auto split: option.splits)

lemma foreach_total:
  assumes "\<And>x s. x \<in> set xs \<Longrightarrow> f x s = Some (g x s)"
  shows "foreach f xs s = Some (fold g xs s)"
  using assms by (induction xs arbitrary: s) auto

lemma foreach_cong [fundef_cong]:
  assumes "xs = ys" "s = t" "\<And>x s. x \<in> set ys \<Longrightarrow> f x s = g x s"
  shows "foreach f xs s = foreach g ys t"
proof -
  have "(\<And>x s. x \<in> set ys \<Longrightarrow> f x s = g x s) \<Longrightarrow> foreach f ys t = foreach g ys t"
    by (induction ys arbitrary: t) (auto split: option.splits)
  with assms show ?thesis by simp
qed

lemma foreach_filter:
  "foreach (\<lambda>x s. if P x then f x s else Some s) xs s = foreach f (filter P xs) s"
  by (induction xs arbitrary: s) (auto split: option.splits)

text \<open>A loop returns when its body returns and keeps what it needs for that.\<close>

lemma foreach_returns:
  assumes "P s" "\<And>x s. x \<in> set xs \<Longrightarrow> P s \<Longrightarrow> \<exists>s'. f x s = Some s' \<and> P s'"
  shows "\<exists>t. foreach f xs s = Some t \<and> P t"
  using assms
proof (induction xs arbitrary: s)
  case (Cons x xs)
  from Cons.prems obtain s' where "f x s = Some s'" "P s'" by (meson list.set_intros(1))
  with Cons.IH [of s'] Cons.prems(2) show ?case by auto
qed auto

text \<open>A property kept by every iteration holds after the loop.\<close>

lemma foreach_invariant:
  assumes "foreach f xs s = Some t" "P s"
    and "\<And>x s s'. x \<in> set xs \<Longrightarrow> P s \<Longrightarrow> f x s = Some s' \<Longrightarrow> P s'"
  shows "P t"
  using assms
proof (induction xs arbitrary: s)
  case Nil
  then show ?case by simp
next
  case (Cons x xs)
  from Cons.prems(1) obtain s' where s': "f x s = Some s'" "foreach f xs s' = Some t"
    by (auto split: option.splits)
  have "P s'" by (rule Cons.prems(3) [of x s]) (use Cons.prems(2) s'(1) in simp_all)
  show ?case
  proof (rule Cons.IH [OF s'(2) \<open>P s'\<close>])
    fix y u u'
    assume "y \<in> set xs" "P u" "f y u = Some u'"
    then show "P u'" by (intro Cons.prems(3) [of y u u']) simp_all
  qed
qed

text \<open>A loop whose iterations commute may visit its elements in any order.\<close>

lemma foreach_commute_one:
  assumes "\<And>y s. y \<in> set ys \<Longrightarrow>
    Option.bind (f x s) (f y) = Option.bind (f y s) (f x)"
  shows "Option.bind (f x s) (foreach f ys) = Option.bind (foreach f ys s) (f x)"
  using assms
proof (induction ys arbitrary: s)
  case Nil
  show ?case by (cases "f x s") auto
next
  case (Cons y ys)
  have step: "foreach f (y # ys) = (\<lambda>s. Option.bind (f y s) (foreach f ys))"
    by (auto simp: fun_eq_iff split: option.splits bind_splits)
  have "Option.bind (f x s) (foreach f (y # ys))
      = Option.bind (Option.bind (f x s) (f y)) (foreach f ys)"
    by (simp add: step)
  also have "\<dots> = Option.bind (Option.bind (f y s) (f x)) (foreach f ys)"
    using Cons.prems by simp
  also have "\<dots> = Option.bind (f y s) (\<lambda>s'. Option.bind (foreach f ys s') (f x))"
    using Cons.IH Cons.prems by simp
  finally show ?case by (simp add: step)
qed

lemma foreach_permute:
  assumes "mset xs = mset ys"
    and "\<And>x y s. x \<in> set xs \<Longrightarrow> y \<in> set xs \<Longrightarrow>
      Option.bind (f x s) (f y) = Option.bind (f y s) (f x)"
  shows "foreach f xs s = foreach f ys s"
  using assms
proof (induction xs arbitrary: ys s)
  case Nil
  then show ?case by simp
next
  case (Cons x xs)
  from Cons.prems(1) have "x \<in> set ys"
    by (metis list.set_intros(1) set_mset_mset)
  then obtain us vs where ys: "ys = us @ x # vs" by (auto simp: in_set_conv_decomp)
  with Cons.prems(1) have m: "mset xs = mset (us @ vs)" by simp
  have IH: "\<And>s. foreach f xs s = foreach f (us @ vs) s"
    by (rule Cons.IH [OF m]) (use Cons.prems(2) in auto)
  have sub: "set us \<subseteq> set (x # xs)"
    using ys Cons.prems(1) by (metis mset_eq_setD set_append Un_upper1)
  have "foreach f (x # xs) s = Option.bind (f x s) (foreach f (us @ vs))"
    using IH by (auto split: option.splits)
  also have "\<dots> = Option.bind (Option.bind (f x s) (foreach f us)) (foreach f vs)"
    by (auto simp: foreach_append fun_eq_iff split: bind_splits)
  also have "\<dots> = Option.bind (Option.bind (foreach f us s) (f x)) (foreach f vs)"
    by (subst foreach_commute_one) (use Cons.prems(2) sub in auto)
  also have "\<dots> = foreach f ys s"
    by (auto simp: ys foreach_append split: bind_splits option.splits)
  finally show ?case .
qed

subsection \<open>Go maps\<close>

type_synonym ('k, 'v) gomap = "('k \<times> 'v) list"

definition gm_get :: "('k, 'v) gomap \<Rightarrow> 'k \<Rightarrow> 'v option" where
  "gm_get m k = map_of m k"

definition gm_put :: "'k \<Rightarrow> 'v \<Rightarrow> ('k, 'v) gomap \<Rightarrow> ('k, 'v) gomap" where
  "gm_put k v m = AList.update k v m"

definition gm_del :: "'k \<Rightarrow> ('k, 'v) gomap \<Rightarrow> ('k, 'v) gomap" where
  "gm_del k m = AList.delete k m"

definition gm_keys :: "('k, 'v) gomap \<Rightarrow> 'k list" where
  "gm_keys m = map fst m"

definition gm_ok :: "('k, 'v) gomap \<Rightarrow> bool" where
  "gm_ok m \<longleftrightarrow> distinct (map fst m)"

text \<open>Reading a missing key of a map of strings gives the empty string, also for a nil map.\<close>

definition gm_str :: "(string, string) gomap option \<Rightarrow> string \<Rightarrow> string" where
  "gm_str m k = (case m of None \<Rightarrow> [] | Some l \<Rightarrow> (case gm_get l k of None \<Rightarrow> [] | Some v \<Rightarrow> v))"

text \<open>
  What the caches rely on of a map: the interface of Go's built-in map and of \<open>sync.Map\<close>
  (\<open>Load\<close>, \<open>Store\<close>, \<open>Delete\<close>, \<open>Range\<close>).
\<close>

locale go_map =
  fixes get :: "'m \<Rightarrow> 'k \<Rightarrow> 'v option"
    and put :: "'k \<Rightarrow> 'v \<Rightarrow> 'm \<Rightarrow> 'm"
    and del :: "'k \<Rightarrow> 'm \<Rightarrow> 'm"
    and pairs :: "'m \<Rightarrow> ('k \<times> 'v) list"
    and emp :: "'m"
    and ok :: "'m \<Rightarrow> bool"
  assumes get_emp: "get emp k = None"
    and get_put: "get (put k v m) k' = (if k' = k then Some v else get m k')"
    and get_del: "get (del k m) k' = (if k' = k then None else get m k')"
    and ok_emp: "ok emp"
    and ok_put: "ok m \<Longrightarrow> ok (put k v m)"
    and ok_del: "ok m \<Longrightarrow> ok (del k m)"
    and pairs_get: "ok m \<Longrightarrow> (k, v) \<in> set (pairs m) \<longleftrightarrow> get m k = Some v"
    and pairs_distinct: "ok m \<Longrightarrow> distinct (map fst (pairs m))"
begin

lemma dom_put: "dom (get (put k v m)) = insert k (dom (get m))"
  by (auto simp: get_put dom_def)

lemma dom_del: "dom (get (del k m)) = dom (get m) - {k}"
  by (auto simp: get_del dom_def)

lemma keys_dom: "ok m \<Longrightarrow> fst ` set (pairs m) = dom (get m)"
  using pairs_get by force

lemma finite_dom: "ok m \<Longrightarrow> finite (dom (get m))"
  using keys_dom by (metis List.finite_set finite_imageI)

text \<open>The number of entries visited by a range is the number of keys.\<close>

lemma len_dom: "ok m \<Longrightarrow> length (pairs m) = card (dom (get m))"
  using keys_dom pairs_distinct by (metis distinct_card length_map list.set_map)

lemma pairs_Nil: "ok m \<Longrightarrow> pairs m = [] \<longleftrightarrow> (\<forall>k. get m k = None)"
  using keys_dom by (metis dom_eq_empty_conv image_is_empty set_empty)

text \<open>Delete undoes the insertion of a fresh key; the last of two writes to a key wins.\<close>

lemma del_put_fresh: "get m k = None \<Longrightarrow> get (del k (put k v m)) = get m"
  by (auto simp: get_put get_del)

lemma put_put: "get (put k v (put k w m)) = get (put k v m)"
  by (auto simp: get_put)

end

interpretation gm: go_map gm_get gm_put gm_del "\<lambda>m. m" "[]" gm_ok
  by unfold_locales
    (auto simp: gm_get_def gm_put_def gm_del_def gm_ok_def distinct_update distinct_delete
      update_conv' delete_conv' dest: map_of_SomeD)

lemmas gm_simps = gm.get_emp gm.get_put gm.get_del gm.ok_emp
declare gm_simps [gomap_simps, simp]
declare gm.ok_put [ok_intros, simp, intro] gm.ok_del [ok_intros, simp, intro]

lemma gm_put_ne [simp]: "gm_put k v m \<noteq> []" "[] \<noteq> gm_put k v m"
  by (cases m; auto simp: gm_put_def)+

lemma gm_put_set:
  "gm_ok m \<Longrightarrow> (k', v') \<in> set (gm_put k v m) \<longleftrightarrow> (if k' = k then v' = v else (k', v') \<in> set m)"
  using gm.pairs_get [of "gm_put k v m" k' v'] gm.pairs_get [of m k' v'] by auto

lemma gm_get_in: "gm_get m k = Some v \<Longrightarrow> (k, v) \<in> set m"
  by (auto simp: gm_get_def dest: map_of_SomeD)

lemma gm_get_Cons: "gm_get ((a, v) # m) k = (if k = a then Some v else gm_get m k)"
  by (auto simp: gm_get_def)

lemma gm_get_None_iff: "gm_get m k = None \<longleftrightarrow> k \<notin> fst ` set m"
  by (simp add: gm_get_def map_of_eq_None_iff)

lemma gm_del_empty: "gm_del k m = [] \<Longrightarrow> gm_get m k' = Some v \<Longrightarrow> k' = k"
  by (metis gm.get_del gm.get_emp option.distinct(1))

text \<open>Entry-wise predicates on maps.\<close>

lemma gm_all_put:
  assumes "gm_ok m" "\<forall>(k', v') \<in> set m. P k' v'" "P k v"
  shows "\<forall>(k', v') \<in> set (gm_put k v m). P k' v'"
  using assms by (auto simp: gm_put_set split: if_splits)

lemma gm_all_del:
  assumes "\<forall>(k', v') \<in> set m. P k' v'"
  shows "\<forall>(k', v') \<in> set (gm_del k m). P k' v'"
  using assms by (auto simp: gm_del_def AList.delete_eq)

lemma gm_str_simps [simp]:
  "gm_str None k = []" "gm_str (Some []) k = []"
  by (simp_all add: gm_str_def)

subsection \<open>Flattening nested maps\<close>

text \<open>A map of maps seen as one map on pairs of keys, in the order a nested range visits it.\<close>

definition gm_flat :: "('v \<Rightarrow> ('j, 'u) gomap) \<Rightarrow> ('k, 'v) gomap \<Rightarrow> ('k \<times> 'j, 'u) gomap" where
  "gm_flat f m = concat (map (\<lambda>(k, v). map (\<lambda>(j, u). ((k, j), u)) (f v)) m)"

lemma gm_flat_simps [simp]:
  "gm_flat f [] = []"
  "gm_flat f ((k, v) # m) = map (\<lambda>(j, u). ((k, j), u)) (f v) @ gm_flat f m"
  by (simp_all add: gm_flat_def)

lemma gm_flat_keys: "x \<in> fst ` set (gm_flat f m) \<Longrightarrow> fst x \<in> fst ` set m"
  by (induction m) force+

lemma map_of_pair_keys:
  "map_of (map (\<lambda>(j, u). ((k, j), u)) l) (k', j') = (if k' = k then map_of l j' else None)"
  by (induction l) auto

lemma gm_flat_get:
  assumes "gm_ok m"
  shows "gm_get (gm_flat f m) (k, j) = (case gm_get m k of None \<Rightarrow> None | Some v \<Rightarrow> gm_get (f v) j)"
  using assms
proof (induction m)
  case Nil
  then show ?case by simp
next
  case (Cons kv m)
  obtain a v where kv: "kv = (a, v)" by fastforce
  from Cons.prems have fresh: "a \<notin> fst ` set m" "gm_ok m" by (auto simp: gm_ok_def kv)
  show ?case
  proof (cases "k = a")
    case True
    then have "(k, j) \<notin> fst ` set (gm_flat f m)" using fresh gm_flat_keys [of "(k, j)" f m] by auto
    then have "map_of (gm_flat f m) (k, j) = None" by (simp add: map_of_eq_None_iff)
    with True show ?thesis
      by (auto simp: gm_get_def kv map_of_append map_add_def map_of_pair_keys split: option.splits)
  next
    case False
    with Cons.IH [OF fresh(2)] show ?thesis
      by (simp add: gm_get_def kv map_of_append map_add_def map_of_pair_keys split: option.splits)
  qed
qed

lemma gm_flat_ok:
  assumes "gm_ok m" "\<forall>(k, v) \<in> set m. gm_ok (f v)"
  shows "gm_ok (gm_flat f m)"
  using assms
proof (induction m)
  case Nil
  then show ?case by simp
next
  case (Cons kv m)
  obtain a v where kv: "kv = (a, v)" by fastforce
  have keys: "map fst (map (\<lambda>(j, u). ((a, j), u)) (f v)) = map (Pair a) (map fst (f v))"
    by (simp add: split_def)
  have "distinct (map fst (f v))" using Cons.prems(2) by (simp add: kv gm_ok_def)
  then have "distinct (map fst (map (\<lambda>(j, u). ((a, j), u)) (f v)))"
    by (simp only: keys) (simp add: distinct_map inj_on_def)
  moreover have "set (map fst (map (\<lambda>(j, u). ((a, j), u)) (f v))) \<inter> set (map fst (gm_flat f m)) = {}"
  proof -
    have "a \<notin> fst ` set m" using Cons.prems(1) by (simp add: kv gm_ok_def)
    then have "\<forall>x \<in> fst ` set (gm_flat f m). fst x \<noteq> a" using gm_flat_keys by metis
    then show ?thesis by auto
  qed
  moreover have "distinct (map fst (gm_flat f m))"
    using Cons by (simp add: kv gm_ok_def)
  ultimately show ?case
    unfolding kv gm_ok_def gm_flat_simps map_append distinct_append by blast
qed

lemma length_gm_flat: "length (gm_flat f m) = sum_list (map (\<lambda>(k, v). length (f v)) m)"
  by (induction m) auto

subsection \<open>Simulation\<close>

text \<open>
  A component refines its specification when each of its steps keeps the invariant and is matched,
  through the abstraction, by a step of the specification; then so does every sequence of steps.
\<close>

locale simulation =
  fixes step :: "'e \<Rightarrow> 's \<Rightarrow> 's"
    and spec :: "'e \<Rightarrow> 'a \<Rightarrow> 'a"
    and ok :: "'s \<Rightarrow> bool"
    and view :: "'s \<Rightarrow> 'a"
  assumes ok_step: "ok s \<Longrightarrow> ok (step e s)"
    and view_step: "ok s \<Longrightarrow> view (step e s) = spec e (view s)"
begin

lemma ok_run: "ok s \<Longrightarrow> ok (fold step es s)"
  by (induction es arbitrary: s) (simp_all add: ok_step)

lemma view_run: "ok s \<Longrightarrow> view (fold step es s) = fold spec es (view s)"
  by (induction es arbitrary: s) (simp_all add: ok_step view_step)

text \<open>A part of the specification's state that no step of a run touches is what it was.\<close>

lemma run_untouched:
  assumes "ok s" "\<And>e a. e \<in> set es \<Longrightarrow> part (spec e a) = part a"
  shows "part (view (fold step es s)) = part (view s)"
  using assms by (induction es arbitrary: s) (simp_all add: ok_step view_step)

end

end
