(* ===== verification/Options.thy ===== *)
theory Options
  imports GoStrings
begin

text \<open>
  The program's configuration (\<open>cmd/options\<close>) and the constants of \<open>internal/types\<close>.

  The configuration is a global variable of the program, \<open>Params\<close>; here it is the argument \<open>p\<close> of
  every function that reads it.  Durations and instants are nanoseconds.  The matcher of package
  \<open>regexp\<close> is the parameter \<open>re\<close>: \<open>re pattern text\<close> is \<open>None\<close> when the pattern does not compile.
\<close>

record NaavikArgs =
  LogLevel :: string
  LogColor :: bool
  ArgoRolloutsEnabled :: bool
  ConfigPath :: string
  WorkloadIdentityKey :: string
  MeshInjectionEnabledKey :: string
  EnvKey :: string
  ResourceIgnoreLabel :: string
  SecretSyncLabel :: string
  HostnameSuffix :: string
  EnableProfiling :: bool
  ProfilerEndpoint :: string
  ConfigResolver :: string
  StateChecker :: string
  TrafficConfigNamespace :: string
  TrafficConfigIdentityKey :: string
  AllowedClusterScope :: "string goslice"
  IgnoreAssetAliases :: "string goslice"
  EnvoyFilterVersions :: "string goslice"
  DeprecatedEnvoyFilterVersions :: "string goslice"
  DisabledFeatures :: "string goslice"
  AsyncExecutorMaxGoRoutines :: int
  WorkerConcurrency :: int
  CacheRefreshInterval :: int
  KubeConfigPath :: string
  ClusterRegistriesNamespace :: string
  DependenciesNamespace :: string
  SyncNamespace :: string

text \<open>The zero value of the struct.\<close>

definition zeroArgs :: NaavikArgs where
  "zeroArgs = \<lparr>LogLevel = [], LogColor = False, ArgoRolloutsEnabled = False, ConfigPath = [],
     WorkloadIdentityKey = [], MeshInjectionEnabledKey = [], EnvKey = [], ResourceIgnoreLabel = [],
     SecretSyncLabel = [], HostnameSuffix = [], EnableProfiling = False, ProfilerEndpoint = [],
     ConfigResolver = [], StateChecker = [], TrafficConfigNamespace = [],
     TrafficConfigIdentityKey = [], AllowedClusterScope = None, IgnoreAssetAliases = None,
     EnvoyFilterVersions = None, DeprecatedEnvoyFilterVersions = None, DisabledFeatures = None,
     AsyncExecutorMaxGoRoutines = 0, WorkerConcurrency = 0, CacheRefreshInterval = 0,
     KubeConfigPath = [], ClusterRegistriesNamespace = [], DependenciesNamespace = [],
     SyncNamespace = []\<rparr>"

definition getValueOrDefault :: "'a \<Rightarrow> 'a \<Rightarrow> 'a \<Rightarrow> 'a" where
  "getValueOrDefault zeroVal val def = (if zeroVal = val then def else val)"

definition getValueOrDefaultSlice :: "string goslice \<Rightarrow> string goslice \<Rightarrow> string goslice" where
  "getValueOrDefaultSlice val def = (case val of None \<Rightarrow> def | Some _ \<Rightarrow> val)"

definition minute :: int where "minute = 60 * 1000000000"

text \<open>The constants of \<open>cmd/options/defaults.go\<close>, gathered in one record.\<close>

definition Defaults :: NaavikArgs where
  "Defaults = \<lparr>LogLevel = ''info'', LogColor = False, ArgoRolloutsEnabled = True,
     ConfigPath = ''/etc/admiral/config.yaml'', WorkloadIdentityKey = ''alpha.istio.io/identity'',
     MeshInjectionEnabledKey = ''sidecar.istio.io/inject'', EnvKey = ''admiral.io/env'',
     ResourceIgnoreLabel = ''admiral.io/ignore'', SecretSyncLabel = ''admiral.io/sync'',
     HostnameSuffix = ''mesh'', EnableProfiling = False, ProfilerEndpoint = ''localhost:4040'',
     ConfigResolver = ''secret'', StateChecker = ''none'', TrafficConfigNamespace = ''admiral'',
     TrafficConfigIdentityKey = ''asset'', AllowedClusterScope = Some [''.*''],
     IgnoreAssetAliases = Some [], EnvoyFilterVersions = Some [''1.21''],
     DeprecatedEnvoyFilterVersions = Some [''1.13''], DisabledFeatures = Some [''''],
     AsyncExecutorMaxGoRoutines = 20000, WorkerConcurrency = 1, CacheRefreshInterval = minute,
     KubeConfigPath = [], ClusterRegistriesNamespace = ''admiral'',
     DependenciesNamespace = ''admiral'', SyncNamespace = ''admiral-sync''\<rparr>"

text \<open>
  \<open>InitializeNaavikArgs\<close>: fields the composite literal does not name (\<open>LogColor\<close>,
  \<open>ProfilerEndpoint\<close>) get their zero value, and \<open>KubeConfigPath\<close> is filled from
  \<open>args.ClusterRegistriesNamespace\<close>, as in the source.
\<close>

definition InitializeNaavikArgs :: "NaavikArgs option \<Rightarrow> NaavikArgs" where
  "InitializeNaavikArgs oargs =
     (let args = (case oargs of None \<Rightarrow> zeroArgs | Some a \<Rightarrow> a) in
      \<lparr>LogLevel = getValueOrDefault [] (LogLevel args) (LogLevel Defaults),
       LogColor = False,
       ArgoRolloutsEnabled = getValueOrDefault False (ArgoRolloutsEnabled args) (ArgoRolloutsEnabled Defaults),
       ConfigPath = getValueOrDefault [] (ConfigPath args) (ConfigPath Defaults),
       WorkloadIdentityKey = getValueOrDefault [] (WorkloadIdentityKey args) (WorkloadIdentityKey Defaults),
       MeshInjectionEnabledKey = getValueOrDefault [] (MeshInjectionEnabledKey args) (MeshInjectionEnabledKey Defaults),
       EnvKey = getValueOrDefault [] (EnvKey args) (EnvKey Defaults),
       ResourceIgnoreLabel = getValueOrDefault [] (ResourceIgnoreLabel args) (ResourceIgnoreLabel Defaults),
       SecretSyncLabel = getValueOrDefault [] (SecretSyncLabel args) (SecretSyncLabel Defaults),
       HostnameSuffix = getValueOrDefault [] (HostnameSuffix args) (HostnameSuffix Defaults),
       EnableProfiling = getValueOrDefault False (EnableProfiling args) (EnableProfiling Defaults),
       ProfilerEndpoint = [],
       ConfigResolver = getValueOrDefault [] (ConfigResolver args) (ConfigResolver Defaults),
       StateChecker = getValueOrDefault [] (StateChecker args) (StateChecker Defaults),
       TrafficConfigNamespace = getValueOrDefault [] (TrafficConfigNamespace args) (TrafficConfigNamespace Defaults),
       TrafficConfigIdentityKey = getValueOrDefault [] (TrafficConfigIdentityKey args) (TrafficConfigIdentityKey Defaults),
       AllowedClusterScope = getValueOrDefaultSlice (AllowedClusterScope args) (AllowedClusterScope Defaults),
       IgnoreAssetAliases = getValueOrDefaultSlice (IgnoreAssetAliases args) (IgnoreAssetAliases Defaults),
       EnvoyFilterVersions = getValueOrDefaultSlice (EnvoyFilterVersions args) (EnvoyFilterVersions Defaults),
       DeprecatedEnvoyFilterVersions = getValueOrDefaultSlice (DeprecatedEnvoyFilterVersions args)
         (DeprecatedEnvoyFilterVersions Defaults),
       DisabledFeatures = getValueOrDefaultSlice (DisabledFeatures args) (DisabledFeatures Defaults),
       AsyncExecutorMaxGoRoutines = getValueOrDefault 0 (AsyncExecutorMaxGoRoutines args) (AsyncExecutorMaxGoRoutines Defaults),
       WorkerConcurrency = getValueOrDefault 0 (WorkerConcurrency args) (WorkerConcurrency Defaults),
       CacheRefreshInterval = getValueOrDefault 0 (CacheRefreshInterval args) (CacheRefreshInterval Defaults),
       KubeConfigPath = getValueOrDefault [] (ClusterRegistriesNamespace args) [],
       ClusterRegistriesNamespace = getValueOrDefault [] (ClusterRegistriesNamespace args) (ClusterRegistriesNamespace Defaults),
       DependenciesNamespace = getValueOrDefault [] (DependenciesNamespace args) (DependenciesNamespace Defaults),
       SyncNamespace = getValueOrDefault [] (SyncNamespace args) (SyncNamespace Defaults)\<rparr>)"

fun IsClusterInAllowedScope_loop ::
    "(string \<Rightarrow> string \<Rightarrow> bool option) \<Rightarrow> string list \<Rightarrow> string \<Rightarrow> bool option" where
  "IsClusterInAllowedScope_loop re [] cluster = Some False"
| "IsClusterInAllowedScope_loop re (scope # scopes) cluster =
     (case re (''(?i)'' @ TrimSpace scope) cluster of
        None \<Rightarrow> None
      | Some True \<Rightarrow> Some True
      | Some False \<Rightarrow> IsClusterInAllowedScope_loop re scopes cluster)"

definition IsClusterInAllowedScope ::
    "(string \<Rightarrow> string \<Rightarrow> bool option) \<Rightarrow> NaavikArgs \<Rightarrow> string \<Rightarrow> bool option" where
  "IsClusterInAllowedScope re p cluster =
     IsClusterInAllowedScope_loop re (elems (AllowedClusterScope p)) cluster"

definition GetTrafficConfigIgnoreAssets :: "NaavikArgs \<Rightarrow> string list" where
  "GetTrafficConfigIgnoreAssets p = map ToLower (elems (IgnoreAssetAliases p))"

definition IsAssetIgnored :: "NaavikArgs \<Rightarrow> string \<Rightarrow> bool" where
  "IsAssetIgnored p asset \<longleftrightarrow> ToLower asset \<in> set (GetTrafficConfigIgnoreAssets p)"

text \<open>\<open>internal/types\<close>: feature names and the host name of an asset in an environment.\<close>

definition FeatureVirtualService :: string where "FeatureVirtualService = ''virtualservice''"
definition FeatureThrottleFilter :: string where "FeatureThrottleFilter = ''throttlefilter''"

definition IsFeatureEnabled :: "NaavikArgs \<Rightarrow> string \<Rightarrow> bool" where
  "IsFeatureEnabled p feature \<longleftrightarrow> feature \<notin> set (elems (DisabledFeatures p))"

text \<open>\<open>time.Since(StartUpTime) > Params.CacheRefreshInterval\<close>.\<close>

definition IsCacheWarmedUp :: "NaavikArgs \<Rightarrow> int \<Rightarrow> int \<Rightarrow> bool" where
  "IsCacheWarmedUp p startUpTime now \<longleftrightarrow> now - startUpTime > CacheRefreshInterval p"

definition IsTrue :: string where "IsTrue = ''true''"

definition GetHost :: "string \<Rightarrow> string \<Rightarrow> string \<Rightarrow> string" where
  "GetHost env asset suffix = ToLower (env @ ''.'' @ asset @ ''.'' @ suffix)"

datatype EventType = Add | Update | Delete

subsection \<open>Lemmas\<close>

lemma GetHost_lower [simp]: "ToLower (GetHost e a s) = GetHost e a s"
  by (simp add: GetHost_def)

lemma GetHost_cong:
  assumes "ToLower e = ToLower e'" "ToLower a = ToLower a'" "ToLower s = ToLower s'"
  shows "GetHost e a s = GetHost e' a' s'"
  using assms by (simp add: GetHost_def)

text \<open>
  Scope checking: a cluster is in scope iff one scope pattern matches it, provided all compile;
  the panic happens exactly when a pattern that does not compile is reached before a match.
\<close>

lemma IsClusterInAllowedScope_loop_Some:
  assumes "\<And>s. s \<in> set scopes \<Longrightarrow> re (''(?i)'' @ TrimSpace s) c \<noteq> None"
  shows "IsClusterInAllowedScope_loop re scopes c =
    Some (\<exists>s \<in> set scopes. re (''(?i)'' @ TrimSpace s) c = Some True)"
  using assms
proof (induction scopes)
  case Nil
  then show ?case by simp
next
  case (Cons s scopes)
  then obtain b where "re (''(?i)'' @ TrimSpace s) c = Some b" by fastforce
  with Cons show ?case by (cases b) auto
qed

lemma IsAssetIgnored_case: "ToLower a = ToLower b \<Longrightarrow> IsAssetIgnored p a = IsAssetIgnored p b"
  by (simp add: IsAssetIgnored_def)

text \<open>A non-zero argument survives initialisation, a zero one is replaced by its default.\<close>

lemma getValueOrDefault_simps [simp]:
  "getValueOrDefault z z d = d"
  "v \<noteq> z \<Longrightarrow> getValueOrDefault z v d = v"
  by (auto simp: getValueOrDefault_def)

end
