(* ===== verification/Resources.thy ===== *)
theory Resources
  imports Options
begin

text \<open>
  The Kubernetes and Admiral objects the program reads, with the fields it reads, and the accessors
  of \<open>pkg/utils\<close> (\<open>resource_utils.go\<close>, \<open>trafficconfig_utils.go\<close>, \<open>envoyfilter_utils.go\<close>).

  The object types belong to third-party packages; fields the program never reads are left out.
  A pointer that may be nil is an option, elements of slices of pointers are objects.
\<close>

type_synonym labels = "(string, string) gomap"

record ObjectMeta =
  om_Name :: string
  om_Namespace :: string
  om_Labels :: "labels option"
  om_Annotations :: "labels option"

text \<open>A \<open>Deployment\<close> or a \<open>Rollout\<close>: its own metadata and the metadata of its pod template.\<close>

record Workload =
  wl_Meta :: ObjectMeta
  wl_Template :: ObjectMeta

record Service = svc_Meta :: ObjectMeta

record Secret =
  sec_Meta :: ObjectMeta
  sec_Data :: "(string, string) gomap"

record Dependency =
  dep_Source :: string
  dep_Destinations :: "string list"

subsection \<open>TrafficConfig\<close>

record RouteTarget =
  TargetGroupSelector :: string
  TargetSelector :: string

record Route =
  rt_Name :: string
  rt_Inbound :: string
  rt_Outbound :: string
  rt_Timeout :: int
  rt_Config :: "RouteTarget goslice"
  rt_WorkloadEnvSelectors :: "string list"

record Target =
  tg_Name :: string
  tg_MeshDNS :: string

record Weight =
  we_Name :: string
  we_Weight :: int

record AppOverride =
  ao_AssetAlias :: string
  ao_Weights :: "Weight list"

record TargetGroup =
  tgr_Name :: string
  tgr_Weights :: "Weight list"
  tgr_AppOverrides :: "AppOverride goslice"

record EdgeService =
  es_Routes :: "Route list"
  es_Targets :: "Target goslice"
  es_TargetGroups :: "TargetGroup goslice"

record QuotaHeader =
  qh_Name :: string
  qh_Value :: string
  qh_Condition :: string

record Quota =
  q_Name :: string
  q_TimePeriod :: string
  q_MaxAmount :: int
  q_Path :: string
  q_Methods :: "string list"
  q_Headers :: "QuotaHeader list"

record TotalQuota =
  tq_Name :: string
  tq_WorkloadEnvSelectors :: "string list"
  tq_Quotas :: "Quota list"

record AppQuota =
  aq_Name :: string
  aq_AssociatedApps :: "string list"
  aq_WorkloadEnvSelectors :: "string list"
  aq_Quotas :: "Quota list"

record QuotaGroup =
  qg_Total :: "TotalQuota list"
  qg_App :: "AppQuota list"

record TrafficConfig =
  tc_Meta :: ObjectMeta
  tc_WorkloadEnv :: "string list"
  tc_EdgeService :: "EdgeService option"
  tc_QuotaGroup :: "QuotaGroup option"

subsection \<open>Resource utilities\<close>

text \<open>The lookup the utilities share: the label, or the annotation when the label is empty.\<close>

definition label_or_annotation :: "ObjectMeta \<Rightarrow> string \<Rightarrow> string" where
  "label_or_annotation m k =
     (let v = (if om_Labels m \<noteq> None then gm_str (om_Labels m) k else []) in
      if v = [] \<and> om_Annotations m \<noteq> None then gm_str (om_Annotations m) k else v)"

definition GetWorkloadIdentifier :: "NaavikArgs \<Rightarrow> ObjectMeta \<Rightarrow> string" where
  "GetWorkloadIdentifier p m = label_or_annotation m (WorkloadIdentityKey p)"

definition EnvDefault :: string where "EnvDefault = ''default''"

definition GetEnv :: "NaavikArgs \<Rightarrow> ObjectMeta \<Rightarrow> string \<Rightarrow> string \<Rightarrow> string" where
  "GetEnv p m name namespace =
     (let env0 = label_or_annotation m (EnvKey p);
          splitNamespace = Split (CHR ''-'') namespace;
          env1 = (if env0 = [] then (if length splitNamespace > 1 then last splitNamespace else env0)
                  else env0)
      in if env1 = [] then EnvDefault else env1)"

text \<open>A flag is on when the label or the annotation reads \<open>true\<close> in any case.\<close>

definition flag_on :: "ObjectMeta \<Rightarrow> string \<Rightarrow> bool" where
  "flag_on m k =
     (if om_Labels m \<noteq> None \<and> ToLower (gm_str (om_Labels m) k) = IsTrue then True
      else if om_Annotations m \<noteq> None \<and> ToLower (gm_str (om_Annotations m) k) = IsTrue then True
      else False)"

definition IsResourceMeshEnabled :: "NaavikArgs \<Rightarrow> ObjectMeta \<Rightarrow> bool" where
  "IsResourceMeshEnabled p m = flag_on m (MeshInjectionEnabledKey p)"

definition IsResourceIgnored :: "NaavikArgs \<Rightarrow> ObjectMeta \<Rightarrow> bool" where
  "IsResourceIgnored p m = flag_on m (ResourceIgnoreLabel p)"

definition IsSyncEnabled :: "NaavikArgs \<Rightarrow> ObjectMeta \<Rightarrow> bool" where
  "IsSyncEnabled p m = flag_on m (SecretSyncLabel p)"

text \<open>\<open>EnvoyFilterUtil().GetName\<close>.\<close>

definition EnvoyFilterName :: "string \<Rightarrow> string \<Rightarrow> string \<Rightarrow> string" where
  "EnvoyFilterName prefix filterName suffix = ToLower (prefix @ ''-'' @ filterName @ ''-'' @ suffix)"

subsection \<open>TrafficConfig utilities\<close>

definition RevisionNumberKey :: string where "RevisionNumberKey = ''revisionNumber''"
definition TransactionIDKey :: string where "TransactionIDKey = ''transactionID''"
definition TCEnvKey :: string where "TCEnvKey = ''env''"
definition IsDisabledKey :: string where "IsDisabledKey = ''isDisabled''"

text \<open>The wrapped pointer is non-nil in every call of the program; the nil checks have no counterpart.\<close>

definition TC_GetIdentity :: "NaavikArgs \<Rightarrow> TrafficConfig \<Rightarrow> string" where
  "TC_GetIdentity p tc = label_or_annotation (tc_Meta tc) (TrafficConfigIdentityKey p)"

definition TC_GetIdentityLowerCase :: "NaavikArgs \<Rightarrow> TrafficConfig \<Rightarrow> string" where
  "TC_GetIdentityLowerCase p tc = ToLower (TC_GetIdentity p tc)"

definition TC_GetRevision :: "TrafficConfig \<Rightarrow> string" where
  "TC_GetRevision tc = label_or_annotation (tc_Meta tc) RevisionNumberKey"

definition TC_GetTransactionID :: "TrafficConfig \<Rightarrow> string" where
  "TC_GetTransactionID tc = label_or_annotation (tc_Meta tc) TransactionIDKey"

definition TC_GetEnv :: "TrafficConfig \<Rightarrow> string" where
  "TC_GetEnv tc = label_or_annotation (tc_Meta tc) TCEnvKey"

text \<open>Unlike \<open>flag_on\<close>: a non-empty label decides alone, and the comparison is exact.\<close>

definition exact_flag :: "ObjectMeta \<Rightarrow> string \<Rightarrow> bool" where
  "exact_flag m k =
     (if om_Labels m \<noteq> None \<and> length (gm_str (om_Labels m) k) > 0
      then gm_str (om_Labels m) k = IsTrue
      else if om_Annotations m \<noteq> None \<and> length (gm_str (om_Annotations m) k) > 0
      then gm_str (om_Annotations m) k = IsTrue
      else False)"

definition TC_IsIgnored :: "NaavikArgs \<Rightarrow> TrafficConfig \<Rightarrow> bool" where
  "TC_IsIgnored p tc = exact_flag (tc_Meta tc) (ResourceIgnoreLabel p)"

definition TC_IsDisabled :: "TrafficConfig \<Rightarrow> bool" where
  "TC_IsDisabled tc = exact_flag (tc_Meta tc) IsDisabledKey"

subsection \<open>Lemmas\<close>

lemma label_or_annotation_eq:
  "label_or_annotation m k =
     (if gm_str (om_Labels m) k \<noteq> [] then gm_str (om_Labels m) k else gm_str (om_Annotations m) k)"
  by (auto simp: label_or_annotation_def)

lemma flag_on_iff:
  "flag_on m k \<longleftrightarrow> ToLower (gm_str (om_Labels m) k) = IsTrue
     \<or> ToLower (gm_str (om_Annotations m) k) = IsTrue"
  by (auto simp: flag_on_def IsTrue_def)

text \<open>The exact flag of a traffic config implies the lenient flag on the same key, not conversely.\<close>

lemma IsTrue_lower: "ToLower IsTrue = IsTrue"
  by code_simp

lemma exact_flag_on: "exact_flag m k \<Longrightarrow> flag_on m k"
  by (auto simp: exact_flag_def flag_on_iff IsTrue_lower split: if_splits)

text \<open>A workload always has an environment.\<close>

lemma GetEnv_nonempty: "GetEnv p m n ns \<noteq> []"
  by (simp add: GetEnv_def EnvDefault_def Let_def)

lemma GetEnv_label:
  "gm_str (om_Labels m) (EnvKey p) \<noteq> [] \<Longrightarrow> GetEnv p m n ns = gm_str (om_Labels m) (EnvKey p)"
  by (simp add: GetEnv_def label_or_annotation_eq Let_def)

lemma EnvoyFilterName_lower [simp]: "ToLower (EnvoyFilterName a b c) = EnvoyFilterName a b c"
  by (simp add: EnvoyFilterName_def)

end
