(* ===== verification/WorkloadCache.thy ===== *)
theory WorkloadCache
  imports Resources
begin

text \<open>
  The per-cluster caches of \<open>internal/cache\<close>: deployments, rollouts and services.

  Each is a \<open>sync.Map\<close> from cluster to a map from group (the workload identity, or the namespace of
  a service) to an entry holding a map from key (the environment, or the service name) to an item.
  The three files share their text up to names; the operations on that shape are \<open>cc_add\<close>,
  \<open>cc_remove\<close> and \<open>cc_find\<close>, and each file's own operations compute its cluster, group and key.
  Inner maps are references in Go, so an update in place is the write-back of the changed inner map.
\<close>

record 'w cache_item =
  ci_Item :: 'w
  ci_ClusterID :: string

record 'w cache_entry =
  ce_Key :: string
  ce_Items :: "(string, 'w cache_item) gomap"

type_synonym 'w group_map = "(string, 'w cache_entry) gomap"
type_synonym 'w cluster_map = "(string, 'w group_map) gomap"

type_synonym slot = "string \<times> string \<times> string"

subsection \<open>The operations on the nested maps\<close>

definition cc_entry :: "'w cluster_map \<Rightarrow> string \<Rightarrow> string \<Rightarrow> 'w cache_entry option" where
  "cc_entry s c g = (case gm_get s c of None \<Rightarrow> None | Some m \<Rightarrow> gm_get m g)"

definition cc_find :: "'w cluster_map \<Rightarrow> string \<Rightarrow> string \<Rightarrow> string \<Rightarrow> 'w option" where
  "cc_find s c g k =
     (case cc_entry s c g of None \<Rightarrow> None
      | Some e \<Rightarrow> map_option ci_Item (gm_get (ce_Items e) k))"

definition cc_add :: "string \<Rightarrow> string \<Rightarrow> string \<Rightarrow> 'w \<Rightarrow> 'w cluster_map \<Rightarrow> 'w cluster_map" where
  "cc_add c g k w s =
     (let item = \<lparr>ci_Item = w, ci_ClusterID = c\<rparr>;
          fresh = \<lparr>ce_Key = g, ce_Items = gm_put k item []\<rparr>
      in case gm_get s c of
           None \<Rightarrow> gm_put c (gm_put g fresh []) s
         | Some m \<Rightarrow>
             (case gm_get m g of
                None \<Rightarrow> gm_put c (gm_put g fresh m) s
              | Some e \<Rightarrow> gm_put c (gm_put g (e\<lparr>ce_Items := gm_put k item (ce_Items e)\<rparr>) m) s))"

definition cc_remove :: "string \<Rightarrow> string \<Rightarrow> string \<Rightarrow> 'w cluster_map \<Rightarrow> 'w cluster_map" where
  "cc_remove c g k s =
     (case gm_get s c of
        None \<Rightarrow> s
      | Some m \<Rightarrow>
          (case gm_get m g of
             None \<Rightarrow> s
           | Some e \<Rightarrow>
               (let items = gm_del k (ce_Items e);
                    m' = (if length items = 0 then gm_del g m
                          else gm_put g (e\<lparr>ce_Items := items\<rparr>) m)
                in if length m' = 0 then gm_del c s else gm_put c m' s)))"

text \<open>The items of one group in all clusters, cluster by cluster.\<close>

definition cc_group :: "'w cluster_map \<Rightarrow> string \<Rightarrow> 'w cache_item list" where
  "cc_group s g =
     concat (map (\<lambda>(c, m). case gm_get m g of None \<Rightarrow> [] | Some e \<Rightarrow> map snd (ce_Items e)) s)"

definition cc_count :: "'w cluster_map \<Rightarrow> nat" where
  "cc_count s = sum_list (map (\<lambda>(c, m). sum_list (map (\<lambda>(g, e). length (ce_Items e)) m)) s)"

subsection \<open>Deployments\<close>

text \<open>The key of a workload: identity and environment of its pod template, in lower case.\<close>

definition Workload_identity :: "NaavikArgs \<Rightarrow> Workload \<Rightarrow> string" where
  "Workload_identity p w = ToLower (GetWorkloadIdentifier p (wl_Template w))"

definition Workload_env :: "NaavikArgs \<Rightarrow> Workload \<Rightarrow> string" where
  "Workload_env p w =
     ToLower (GetEnv p (wl_Template w) (om_Name (wl_Meta w)) (om_Namespace (wl_Meta w)))"

definition Deployments_GetByClusterIdentityEnv ::
    "Workload cluster_map \<Rightarrow> string \<Rightarrow> string \<Rightarrow> string \<Rightarrow> Workload option" where
  "Deployments_GetByClusterIdentityEnv s clusterID identity env =
     cc_find s (ToLower clusterID) (ToLower identity) (ToLower env)"

definition Deployments_GetByClusterIdentity ::
    "Workload cluster_map \<Rightarrow> string \<Rightarrow> string \<Rightarrow> Workload cache_entry option" where
  "Deployments_GetByClusterIdentity s clusterID identity =
     cc_entry s (ToLower clusterID) (ToLower identity)"

definition Deployments_GetByIdentity ::
    "Workload cluster_map \<Rightarrow> string \<Rightarrow> Workload cache_item list" where
  "Deployments_GetByIdentity s identity = cc_group s (ToLower identity)"

definition Deployments_Add ::
    "NaavikArgs \<Rightarrow> string \<Rightarrow> Workload \<Rightarrow> Workload cluster_map \<Rightarrow> Workload cluster_map" where
  "Deployments_Add p clusterID deployment s =
     (let clusterID = ToLower clusterID;
          identity = Workload_identity p deployment;
          env = Workload_env p deployment
      in if length identity = 0 \<or> length env = 0 then s
         else cc_add clusterID identity env deployment s)"

definition Deployments_Delete ::
    "NaavikArgs \<Rightarrow> string \<Rightarrow> Workload \<Rightarrow> Workload cluster_map \<Rightarrow> Workload cluster_map" where
  "Deployments_Delete p clusterID deployment s =
     cc_remove (ToLower clusterID) (Workload_identity p deployment) (Workload_env p deployment) s"

definition Deployments_GetNoOfDeployments :: "Workload cluster_map \<Rightarrow> nat" where
  "Deployments_GetNoOfDeployments s = cc_count s"

definition Deployments_Reset :: "Workload cluster_map" where
  "Deployments_Reset = []"

subsection \<open>Rollouts\<close>

definition Rollouts_GetByClusterIdentityEnv ::
    "Workload cluster_map \<Rightarrow> string \<Rightarrow> string \<Rightarrow> string \<Rightarrow> Workload option" where
  "Rollouts_GetByClusterIdentityEnv s clusterID identity env =
     cc_find s (ToLower clusterID) (ToLower identity) (ToLower env)"

definition Rollouts_GetByClusterIdentity ::
    "Workload cluster_map \<Rightarrow> string \<Rightarrow> string \<Rightarrow> Workload cache_entry option" where
  "Rollouts_GetByClusterIdentity s clusterID identity =
     cc_entry s (ToLower clusterID) (ToLower identity)"

definition Rollouts_GetByIdentity ::
    "Workload cluster_map \<Rightarrow> string \<Rightarrow> Workload cache_item list" where
  "Rollouts_GetByIdentity s identity = cc_group s (ToLower identity)"

definition Rollouts_Add ::
    "NaavikArgs \<Rightarrow> string \<Rightarrow> Workload \<Rightarrow> Workload cluster_map \<Rightarrow> Workload cluster_map" where
  "Rollouts_Add p clusterID rollout s =
     (let clusterID = ToLower clusterID;
          identity = Workload_identity p rollout;
          env = Workload_env p rollout
      in if length identity = 0 \<or> length env = 0 then s
         else cc_add clusterID identity env rollout s)"

definition Rollouts_Delete ::
    "NaavikArgs \<Rightarrow> string \<Rightarrow> Workload \<Rightarrow> Workload cluster_map \<Rightarrow> Workload cluster_map" where
  "Rollouts_Delete p clusterID rollout s =
     cc_remove (ToLower clusterID) (Workload_identity p rollout) (Workload_env p rollout) s"

definition Rollouts_GetNoOfRollouts :: "Workload cluster_map \<Rightarrow> nat" where
  "Rollouts_GetNoOfRollouts s = cc_count s"

definition Rollouts_Reset :: "Workload cluster_map" where
  "Rollouts_Reset = []"

subsection \<open>Services\<close>

text \<open>
  Services are grouped by namespace and keyed by name, neither in lower case, while the reads lower
  the namespace; copies made for the caller are the values themselves.
\<close>

definition Services_GetByClusterNamespace ::
    "Service cluster_map \<Rightarrow> string \<Rightarrow> string \<Rightarrow> Service cache_entry option" where
  "Services_GetByClusterNamespace s clusterID namespace =
     cc_entry s (ToLower clusterID) (ToLower namespace)"

definition Services_GetByNamespace :: "Service cluster_map \<Rightarrow> string \<Rightarrow> Service cache_item list" where
  "Services_GetByNamespace s namespace = cc_group s (ToLower namespace)"

definition Services_Add :: "string \<Rightarrow> Service \<Rightarrow> Service cluster_map \<Rightarrow> Service cluster_map" where
  "Services_Add clusterID service s =
     cc_add (ToLower clusterID) (om_Namespace (svc_Meta service)) (om_Name (svc_Meta service)) service s"

definition Services_Delete :: "string \<Rightarrow> Service \<Rightarrow> Service cluster_map \<Rightarrow> Service cluster_map" where
  "Services_Delete clusterID service s =
     cc_remove (ToLower clusterID) (om_Namespace (svc_Meta service)) (om_Name (svc_Meta service)) s"

definition Services_Reset :: "Service cluster_map" where
  "Services_Reset = []"

subsection \<open>The invariant and the abstract view\<close>

definition entry_ok :: "string \<Rightarrow> string \<Rightarrow> 'w cache_entry \<Rightarrow> bool" where
  "entry_ok c g e \<longleftrightarrow> ce_Key e = g \<and> ce_Items e \<noteq> [] \<and> gm_ok (ce_Items e)
     \<and> (\<forall>(k, i) \<in> set (ce_Items e). ci_ClusterID i = c)"

definition group_ok :: "string \<Rightarrow> 'w group_map \<Rightarrow> bool" where
  "group_ok c m \<longleftrightarrow> m \<noteq> [] \<and> gm_ok m \<and> (\<forall>(g, e) \<in> set m. entry_ok c g e)"

text \<open>
  Keys are distinct at every level, an entry and its items carry the keys they are stored under, and
  no empty map is kept: a cluster or a group without items has no key.
\<close>

definition cc_ok :: "'w cluster_map \<Rightarrow> bool" where
  "cc_ok s \<longleftrightarrow> gm_ok s \<and> (\<forall>(c, m) \<in> set s. group_ok c m)"

text \<open>The whole cache as one flat map, and the workload at a slot.\<close>

definition cc_flat :: "'w cluster_map \<Rightarrow> (slot, 'w cache_item) gomap" where
  "cc_flat s = gm_flat (gm_flat ce_Items) s"

definition cc_look :: "'w cluster_map \<Rightarrow> slot \<Rightarrow> 'w option" where
  "cc_look s = (\<lambda>(c, g, k). cc_find s c g k)"

lemma cc_ok_get: "cc_ok s \<Longrightarrow> gm_get s c = Some m \<Longrightarrow> group_ok c m"
  by (auto simp: cc_ok_def dest: gm_get_in)

lemma group_ok_get: "group_ok c m \<Longrightarrow> gm_get m g = Some e \<Longrightarrow> entry_ok c g e"
  by (auto simp: group_ok_def dest: gm_get_in)

lemma entry_ok_put:
  "entry_ok c g e \<Longrightarrow> entry_ok c g (e\<lparr>ce_Items := gm_put k \<lparr>ci_Item = w, ci_ClusterID = c\<rparr> (ce_Items e)\<rparr>)"
  by (auto simp: entry_ok_def gm_put_set split: if_splits)

lemma entry_ok_fresh: "entry_ok c g \<lparr>ce_Key = g, ce_Items = gm_put k \<lparr>ci_Item = w, ci_ClusterID = c\<rparr> []\<rparr>"
  by (auto simp: entry_ok_def gm_put_set split: if_splits)

lemma group_ok_put: "group_ok c m \<or> m = [] \<Longrightarrow> entry_ok c g e \<Longrightarrow> group_ok c (gm_put g e m)"
  by (auto simp: group_ok_def gm_put_set split: if_splits)

lemma cc_ok_put: "cc_ok s \<Longrightarrow> group_ok c m \<Longrightarrow> cc_ok (gm_put c m s)"
  by (auto simp: cc_ok_def gm_put_set split: if_splits)

lemma gm_del_subset: "x \<in> set (gm_del k m) \<Longrightarrow> x \<in> set m"
  by (auto simp: gm_del_def AList.delete_eq)

lemma cc_ok_del: "cc_ok s \<Longrightarrow> cc_ok (gm_del c s)"
  by (auto simp: cc_ok_def dest: gm_del_subset)

lemma cc_ok_empty [simp, ok_intros]: "cc_ok []"
  by (simp add: cc_ok_def)

lemma cc_ok_add [ok_intros]: "cc_ok s \<Longrightarrow> cc_ok (cc_add c g k w s)"
  unfolding cc_add_def Let_def
  by (auto intro!: cc_ok_put group_ok_put entry_ok_fresh entry_ok_put
      dest: cc_ok_get group_ok_get split: option.splits)

lemma cc_ok_remove [ok_intros]:
  assumes ok: "cc_ok s"
  shows "cc_ok (cc_remove c g k s)"
proof (cases "cc_entry s c g")
  case None
  with ok show ?thesis by (auto simp: cc_remove_def cc_entry_def split: option.splits)
next
  case (Some e)
  then obtain m where m: "gm_get s c = Some m" "gm_get m g = Some e"
    by (auto simp: cc_entry_def split: option.splits)
  with ok have g: "group_ok c m" "entry_ok c g e" by (auto dest: cc_ok_get group_ok_get)
  let ?items = "gm_del k (ce_Items e)"
  have e': "entry_ok c g (e\<lparr>ce_Items := ?items\<rparr>)" if "?items \<noteq> []"
    using g(2) that by (auto simp: entry_ok_def dest: gm_del_subset)
  have "group_ok c (gm_del g m)" if "gm_del g m \<noteq> []"
    using g(1) that by (auto simp: group_ok_def dest: gm_del_subset)
  with g e' ok m show ?thesis
    by (auto simp: cc_remove_def Let_def intro!: cc_ok_put cc_ok_del group_ok_put)
qed

lemma cc_look_empty [simp]: "cc_look [] = Map.empty"
  by (auto simp: cc_look_def cc_find_def cc_entry_def)

lemma cc_look_add: "cc_look (cc_add c g k w s) = (cc_look s)((c, g, k) \<mapsto> w)"
  by (auto simp: fun_eq_iff cc_look_def cc_find_def cc_entry_def cc_add_def Let_def split: option.splits)

lemma cc_look_remove:
  assumes "cc_ok s"
  shows "cc_look (cc_remove c g k s) = (cc_look s)((c, g, k) := None)"
proof -
  have "cc_find (cc_remove c g k s) c' g' k' = (if (c', g', k') = (c, g, k) then None else cc_find s c' g' k')"
    for c' g' k'
    by (auto simp: cc_find_def cc_entry_def cc_remove_def Let_def dest: gm_del_empty
        split: option.splits intro: ccontr)
  then show ?thesis by (auto simp: fun_eq_iff cc_look_def)
qed

subsection \<open>Ranging over a cache\<close>

lemma cc_flat_ok: "cc_ok s \<Longrightarrow> gm_ok (cc_flat s)"
  unfolding cc_flat_def
  by (auto simp: cc_ok_def group_ok_def entry_ok_def intro!: gm_flat_ok)

lemma cc_flat_get:
  assumes "cc_ok s"
  shows "gm_get (cc_flat s) (c, g, k) =
    (case cc_entry s c g of None \<Rightarrow> None | Some e \<Rightarrow> gm_get (ce_Items e) k)"
proof -
  have "gm_ok s" using assms by (simp add: cc_ok_def)
  moreover have "gm_ok m" if "gm_get s c = Some m" for m
    using cc_ok_get [OF assms that] by (simp add: group_ok_def)
  ultimately show ?thesis
    by (auto simp: cc_flat_def gm_flat_get cc_entry_def split: option.splits)
qed

lemma cc_flat_look: "cc_ok s \<Longrightarrow> cc_look s = (\<lambda>x. map_option ci_Item (gm_get (cc_flat s) x))"
  by (auto simp: fun_eq_iff cc_look_def cc_find_def cc_flat_get split: option.splits)

text \<open>Every item says which cluster it is in.\<close>

lemma cc_flat_item:
  assumes "cc_ok s"
  shows "gm_get (cc_flat s) (c, g, k) = Some i \<longleftrightarrow>
    cc_look s (c, g, k) = Some (ci_Item i) \<and> ci_ClusterID i = c"
proof -
  have "ci_ClusterID j = c" if fj: "gm_get (cc_flat s) (c, g, k) = Some j" for j
  proof -
    obtain m e where "gm_get s c = Some m" "gm_get m g = Some e" "gm_get (ce_Items e) k = Some j"
      using fj assms by (auto simp: cc_flat_get cc_entry_def split: option.splits)
    then have "entry_ok c g e" and "(k, j) \<in> set (ce_Items e)"
      using assms by (auto intro: group_ok_get cc_ok_get gm_get_in)
    then show ?thesis by (auto simp: entry_ok_def)
  qed
  then show ?thesis
    using assms by (auto simp: cc_flat_look intro: cache_item.equality)
qed

lemma cc_count_flat: "cc_count s = length (cc_flat s)"
  by (simp add: cc_count_def cc_flat_def length_gm_flat)

text \<open>The count of a cache is the number of its slots.\<close>

lemma cc_count_look: "cc_ok s \<Longrightarrow> cc_count s = card (dom (cc_look s))"
proof -
  assume ok: "cc_ok s"
  have "dom (cc_look s) = dom (gm_get (cc_flat s))"
    by (auto simp: cc_flat_look [OF ok] dom_def)
  with gm.len_dom [OF cc_flat_ok [OF ok]] show ?thesis by (simp add: cc_count_flat)
qed

text \<open>
  The list of one group holds exactly the items of that group, each with its own cluster and key;
  their number is the number of slots of the group.
\<close>

lemma cc_group_flat:
  assumes "gm_ok s" "\<forall>(c, m) \<in> set s. gm_ok m"
  shows "cc_group s g = map snd (filter (\<lambda>((c, g', k), i). g' = g) (cc_flat s))"
proof -
  have inner: "(case gm_get m g of None \<Rightarrow> [] | Some e \<Rightarrow> map snd (ce_Items e)) =
      map snd (filter (\<lambda>((g', k), i). g' = g) (gm_flat ce_Items m))" if "gm_ok m" for m :: "'a group_map"
    using that
  proof (induction m)
    case Nil
    then show ?case by simp
  next
    case (Cons ge m)
    obtain a e where ge: "ge = (a, e)" by fastforce
    from Cons.prems have ok: "a \<notin> fst ` set m" "gm_ok m" by (auto simp: gm_ok_def ge)
    have pre: "filter (\<lambda>((g', k), i). g' = g) (map (\<lambda>(j, u). ((a, j), u)) l) =
        (if a = g then map (\<lambda>(j, u). ((a, j), u)) l else [])" for l :: "(string \<times> 'a cache_item) list"
      by (induction l) auto
    have snds: "map snd (map (\<lambda>(j, u). ((a, j), u)) l) = map snd l" for l :: "(string \<times> 'a cache_item) list"
      by (simp add: split_def)
    show ?case
    proof (cases "a = g")
      case True
      then have "gm_get m g = None" using ok(1) by (simp add: gm_get_None_iff)
      with Cons.IH [OF ok(2)] True show ?thesis
        using snds pre by (simp add: ge gm_get_def)
    next
      case False
      with Cons.IH [OF ok(2)] show ?thesis using pre by (simp add: ge gm_get_def)
    qed
  qed
  have outer: "map snd (filter (\<lambda>((c', g', k), i). g' = g) (map (\<lambda>(j, u). ((c, j), u)) l)) =
      map snd (filter (\<lambda>((g', k), i). g' = g) l)" for c :: string and l :: "((string \<times> string) \<times> 'a cache_item) list"
    by (induction l) auto
  show ?thesis
    using assms(2) unfolding cc_group_def cc_flat_def
    by (induction s) (auto simp: inner outer)
qed

lemma cc_group_look:
  assumes "cc_ok s"
  shows "i \<in> set (cc_group s g) \<longleftrightarrow> (\<exists>k. cc_look s (ci_ClusterID i, g, k) = Some (ci_Item i))"
    and "length (cc_group s g) = card {(c, k). cc_look s (c, g, k) \<noteq> None}"
proof -
  have ok: "gm_ok s" "\<forall>(c, m) \<in> set s. gm_ok m" "gm_ok (cc_flat s)"
    using assms cc_flat_ok by (auto simp: cc_ok_def group_ok_def)
  note eq = cc_group_flat [OF ok(1,2), of g]
  show "i \<in> set (cc_group s g) \<longleftrightarrow> (\<exists>k. cc_look s (ci_ClusterID i, g, k) = Some (ci_Item i))"
  proof -
    have "i \<in> set (cc_group s g) \<longleftrightarrow> (\<exists>c k. ((c, g, k), i) \<in> set (cc_flat s))"
      by (force simp: eq)
    also have "\<dots> \<longleftrightarrow> (\<exists>c k. gm_get (cc_flat s) (c, g, k) = Some i)"
      by (simp only: gm.pairs_get [OF ok(3)])
    finally show ?thesis by (auto simp: cc_flat_item [OF assms])
  qed
  let ?l = "filter (\<lambda>((c, g', k), i). g' = g) (cc_flat s)"
  have "distinct (map fst ?l)"
    using ok(3) by (simp add: gm_ok_def distinct_map_filter)
  then have "length ?l = card (fst ` set ?l)"
    using distinct_card [of "map fst ?l"] by simp
  also have "fst ` set ?l = (\<lambda>(c, k). (c, g, k)) ` {(c, k). cc_look s (c, g, k) \<noteq> None}"
  proof -
    have "x \<in> fst ` set ?l \<longleftrightarrow> (\<exists>i. (x, i) \<in> set (cc_flat s) \<and> fst (snd x) = g)" for x
      by (cases x) (auto simp: image_iff Bex_def)
    then have "fst ` set ?l = {x. \<exists>i. (x, i) \<in> set (cc_flat s) \<and> fst (snd x) = g}"
      by blast
    also have "\<dots> = {x. cc_look s x \<noteq> None \<and> fst (snd x) = g}"
      by (simp add: gm.pairs_get [OF ok(3)] cc_flat_look [OF assms])
    also have "\<dots> = (\<lambda>(c, k). (c, g, k)) ` {(c, k). cc_look s (c, g, k) \<noteq> None}"
      by (auto simp: image_iff)
    finally show ?thesis .
  qed
  also have "card \<dots> = card {(c, k). cc_look s (c, g, k) \<noteq> None}"
    by (rule card_image) (auto simp: inj_on_def)
  finally show "length (cc_group s g) = card {(c, k). cc_look s (c, g, k) \<noteq> None}"
    by (simp add: eq)
qed

subsection \<open>The contract of the three caches\<close>

text \<open>The informer events that reach a cache: an object seen in a cluster, or gone from it.\<close>

datatype 'w cache_event = Seen string 'w | Gone string 'w

text \<open>
  What the handlers rely on.  \<open>look\<close> reads a slot, \<open>slot\<close> is where an object of a cluster belongs, and
  \<open>keeps\<close> says which objects the cache accepts.  Deployments, rollouts and services provide it.
\<close>

locale keyed_cache =
  fixes look :: "'s \<Rightarrow> slot \<Rightarrow> 'w option"
    and add remove :: "string \<Rightarrow> 'w \<Rightarrow> 's \<Rightarrow> 's"
    and slot_of :: "string \<Rightarrow> 'w \<Rightarrow> slot"
    and keeps :: "'w \<Rightarrow> bool"
    and ok :: "'s \<Rightarrow> bool"
    and emp :: "'s"
  assumes look_emp: "look emp = Map.empty"
    and ok_emp: "ok emp"
    and look_add: "ok s \<Longrightarrow> look (add c w s) = (if keeps w then (look s)(slot_of c w \<mapsto> w) else look s)"
    and ok_add: "ok s \<Longrightarrow> ok (add c w s)"
    and look_remove: "ok s \<Longrightarrow> look (remove c w s) = (look s)(slot_of c w := None)"
    and ok_remove: "ok s \<Longrightarrow> ok (remove c w s)"
    and slot_cluster: "fst (slot_of c w) = ToLower c"
begin

definition step :: "'w cache_event \<Rightarrow> 's \<Rightarrow> 's" where
  "step ev s = (case ev of Seen c w \<Rightarrow> add c w s | Gone c w \<Rightarrow> remove c w s)"

definition spec_step :: "'w cache_event \<Rightarrow> (slot \<Rightarrow> 'w option) \<Rightarrow> (slot \<Rightarrow> 'w option)" where
  "spec_step ev m = (case ev of
     Seen c w \<Rightarrow> (if keeps w then m(slot_of c w \<mapsto> w) else m)
   | Gone c w \<Rightarrow> m(slot_of c w := None))"

definition event_cluster :: "'w cache_event \<Rightarrow> string" where
  "event_cluster ev = (case ev of Seen c w \<Rightarrow> ToLower c | Gone c w \<Rightarrow> ToLower c)"

lemma ok_step: "ok s \<Longrightarrow> ok (step ev s)"
  by (auto simp: step_def ok_add ok_remove split: cache_event.splits)

lemma look_step: "ok s \<Longrightarrow> look (step ev s) = spec_step ev (look s)"
  by (auto simp: step_def spec_step_def look_add look_remove split: cache_event.splits)

text \<open>Any sequence of events is simulated by the sequence of its effects on the map of slots.\<close>

lemma run_refines: "ok s \<Longrightarrow> ok (fold step evs s) \<and> look (fold step evs s) = fold spec_step evs (look s)"
  by (induction evs arbitrary: s) (auto simp: ok_step look_step)

lemma run_frame:
  assumes "ok s" "\<forall>ev \<in> set evs. event_cluster ev \<noteq> c"
  shows "look (fold step evs s) (c, gk) = look s (c, gk)"
  using assms
proof (induction evs arbitrary: s)
  case Nil
  then show ?case by simp
next
  case (Cons ev evs)
  then have "look (step ev s) (c, gk) = look s (c, gk)"
    using slot_cluster
    by (auto simp: look_step spec_step_def event_cluster_def split: cache_event.splits)
      (metis fst_conv)+
  with Cons show ?case by (simp add: ok_step)
qed

text \<open>The slot of an object holds the last object seen there, unless that one is gone.\<close>

lemma run_last_seen:
  assumes "ok s" "keeps w"
    and "\<forall>ev \<in> set evs. \<forall>c' w'. ev = Seen c' w' \<or> ev = Gone c' w' \<longrightarrow> slot_of c' w' \<noteq> slot_of c w"
  shows "look (fold step evs (add c w s)) (slot_of c w) = Some w"
proof -
  have untouched: "look (fold step evs t) x = look t x"
    if "ok t" "\<forall>ev \<in> set evs. \<forall>c' w'. ev = Seen c' w' \<or> ev = Gone c' w' \<longrightarrow> slot_of c' w' \<noteq> x" for t x
    using that
  proof (induction evs arbitrary: t)
    case Nil
    then show ?case by simp
  next
    case (Cons ev evs)
    then have "look (step ev t) x = look t x"
      by (auto simp: look_step spec_step_def split: cache_event.splits)
    with Cons show ?case by (simp add: ok_step)
  qed
  from assms show ?thesis by (simp add: untouched ok_add look_add)
qed

lemma remove_add: "ok s \<Longrightarrow> look s (slot_of c w) = None \<Longrightarrow> look (remove c w (add c w s)) = look s"
  by (auto simp: look_remove look_add ok_add)

lemma add_again: "ok s \<Longrightarrow> look (add c w (add c w s)) = look (add c w s)"
  by (auto simp: look_add ok_add)

end

text \<open>Such a cache simulates a plain map from slots to objects.\<close>

sublocale keyed_cache < sim: simulation step spec_step ok look
  by unfold_locales (simp_all add: ok_step look_step)

definition Workload_slot :: "NaavikArgs \<Rightarrow> string \<Rightarrow> Workload \<Rightarrow> slot" where
  "Workload_slot p c w = (ToLower c, Workload_identity p w, Workload_env p w)"

definition Workload_keeps :: "NaavikArgs \<Rightarrow> Workload \<Rightarrow> bool" where
  "Workload_keeps p w \<longleftrightarrow> Workload_identity p w \<noteq> []"

lemma Workload_env_nonempty [simp]: "Workload_env p w \<noteq> []"
  by (simp add: Workload_env_def GetEnv_nonempty)

interpretation dep_cache: keyed_cache cc_look "Deployments_Add p" "Deployments_Delete p"
  "Workload_slot p" "Workload_keeps p" cc_ok Deployments_Reset
  by unfold_locales
    (auto simp: Deployments_Add_def Deployments_Delete_def Deployments_Reset_def Workload_slot_def
      Workload_keeps_def Let_def cc_look_add cc_look_remove intro: ok_intros)

interpretation ro_cache: keyed_cache cc_look "Rollouts_Add p" "Rollouts_Delete p"
  "Workload_slot p" "Workload_keeps p" cc_ok Rollouts_Reset
  by unfold_locales
    (auto simp: Rollouts_Add_def Rollouts_Delete_def Rollouts_Reset_def Workload_slot_def
      Workload_keeps_def Let_def cc_look_add cc_look_remove intro: ok_intros)

interpretation svc_cache: keyed_cache cc_look Services_Add Services_Delete
  "\<lambda>c s. (ToLower c, om_Namespace (svc_Meta s), om_Name (svc_Meta s))" "\<lambda>_. True" cc_ok Services_Reset
  by unfold_locales
    (auto simp: Services_Add_def Services_Delete_def Services_Reset_def
      cc_look_add cc_look_remove intro: ok_intros)

subsection \<open>Properties\<close>

text \<open>What one informer event does to the deployment, rollout and service caches.\<close>

definition Deployments_event ::
    "NaavikArgs \<Rightarrow> Workload cache_event \<Rightarrow> Workload cluster_map \<Rightarrow> Workload cluster_map" where
  "Deployments_event p ev s =
     (case ev of Seen c w \<Rightarrow> Deployments_Add p c w s | Gone c w \<Rightarrow> Deployments_Delete p c w s)"

definition Rollouts_event ::
    "NaavikArgs \<Rightarrow> Workload cache_event \<Rightarrow> Workload cluster_map \<Rightarrow> Workload cluster_map" where
  "Rollouts_event p ev s =
     (case ev of Seen c w \<Rightarrow> Rollouts_Add p c w s | Gone c w \<Rightarrow> Rollouts_Delete p c w s)"

text \<open>The abstract cache: a partial map from slots to workloads.\<close>

definition Workload_spec_event ::
    "NaavikArgs \<Rightarrow> Workload cache_event \<Rightarrow> (slot \<Rightarrow> Workload option) \<Rightarrow> (slot \<Rightarrow> Workload option)" where
  "Workload_spec_event p ev m = (case ev of
     Seen c w \<Rightarrow> (if Workload_keeps p w then m(Workload_slot p c w \<mapsto> w) else m)
   | Gone c w \<Rightarrow> m(Workload_slot p c w := None))"

lemma Deployments_event_step: "Deployments_event p = dep_cache.step p"
  by (simp add: fun_eq_iff Deployments_event_def dep_cache.step_def)

lemma Rollouts_event_step: "Rollouts_event p = ro_cache.step p"
  by (simp add: fun_eq_iff Rollouts_event_def ro_cache.step_def)

lemma Workload_spec_event_step:
  "Workload_spec_event p = dep_cache.spec_step p" "Workload_spec_event p = ro_cache.spec_step p"
  by (simp_all add: fun_eq_iff Workload_spec_event_def dep_cache.spec_step_def ro_cache.spec_step_def)

text \<open>
  C21: after any sequence of additions and deletions the deployment cache and the rollout cache hold,
  slot for slot, what the same sequence leaves in a plain map from (cluster, identity, environment)
  to workloads, and their nested maps stay well formed: no duplicate key, no empty inner map, every
  item labelled with the cluster it is stored under.
\<close>

theorem workload_caches_refine:
  "cc_look (fold (Deployments_event p) evs Deployments_Reset) = fold (Workload_spec_event p) evs Map.empty
   \<and> cc_ok (fold (Deployments_event p) evs Deployments_Reset)
   \<and> cc_look (fold (Rollouts_event p) evs Rollouts_Reset) = fold (Workload_spec_event p) evs Map.empty
   \<and> cc_ok (fold (Rollouts_event p) evs Rollouts_Reset)"
  using dep_cache.run_refines [OF dep_cache.ok_emp, of p evs] ro_cache.run_refines [OF ro_cache.ok_emp, of p evs]
  by (simp add: Deployments_event_step Rollouts_event_step Workload_spec_event_step
      dep_cache.look_emp ro_cache.look_emp)

lemma Deployments_read: "Deployments_GetByClusterIdentityEnv s c i e = cc_look s (ToLower c, ToLower i, ToLower e)"
  by (simp add: Deployments_GetByClusterIdentityEnv_def cc_look_def)

lemma Rollouts_read: "Rollouts_GetByClusterIdentityEnv s c i e = cc_look s (ToLower c, ToLower i, ToLower e)"
  by (simp add: Rollouts_GetByClusterIdentityEnv_def cc_look_def)

text \<open>
  A deployment that has an identity is found right after it is added, whatever the case in which
  its cluster, identity and environment are written, and no other slot changes; deleting it again
  makes the slot empty.
\<close>

theorem deployment_add_then_get:
  assumes "cc_ok s" "Workload_keeps p d"
    and "ToLower c' = ToLower c"
    and "ToLower i = Workload_identity p d" "ToLower e = Workload_env p d"
  shows "Deployments_GetByClusterIdentityEnv (Deployments_Add p c d s) c' i e = Some d
    \<and> Deployments_GetByClusterIdentityEnv (Deployments_Delete p c d (Deployments_Add p c d s)) c' i e = None
    \<and> (\<forall>x. x \<noteq> Workload_slot p c d \<longrightarrow> cc_look (Deployments_Add p c d s) x = cc_look s x)"
  using assms
  by (simp add: Deployments_read dep_cache.look_add dep_cache.look_remove dep_cache.ok_add)
    (simp add: Workload_slot_def)

text \<open>
  The counter of the deployment API counts the occupied slots, and the list returned for an
  identity has one item per occupied slot of that identity, each naming the cluster it runs in.
\<close>

theorem deployment_count_and_list:
  assumes "cc_ok s"
  shows "Deployments_GetNoOfDeployments s = card (dom (cc_look s))
    \<and> length (Deployments_GetByIdentity s i) = card {(c, e). cc_look s (c, ToLower i, e) \<noteq> None}
    \<and> (\<forall>d. d \<in> set (Deployments_GetByIdentity s i) \<longleftrightarrow>
          (\<exists>e. cc_look s (ci_ClusterID d, ToLower i, e) = Some (ci_Item d)))"
  using cc_count_look [OF assms] cc_group_look [OF assms]
  by (simp add: Deployments_GetNoOfDeployments_def Deployments_GetByIdentity_def)

text \<open>
  A service is read back by cluster and namespace exactly when its namespace is in lower case,
  as Kubernetes requires: the cache stores the namespace as written and reads it lowered.
\<close>

theorem service_add_then_get:
  assumes "cc_ok s" "cc_look s (ToLower c, ToLower (om_Namespace (svc_Meta v)), om_Name (svc_Meta v)) = None"
  shows "(\<exists>e. Services_GetByClusterNamespace (Services_Add c v s) c (om_Namespace (svc_Meta v)) = Some e
      \<and> map_option ci_Item (gm_get (ce_Items e) (om_Name (svc_Meta v))) = Some v)
    \<longleftrightarrow> ToLower (om_Namespace (svc_Meta v)) = om_Namespace (svc_Meta v)"
proof -
  let ?ns = "om_Namespace (svc_Meta v)" and ?n = "om_Name (svc_Meta v)"
  have "cc_look (Services_Add c v s) (ToLower c, ToLower ?ns, ?n) = Some v \<longleftrightarrow> ToLower ?ns = ?ns"
    using assms by (auto simp: svc_cache.look_add)
  then show ?thesis
    by (auto simp: Services_GetByClusterNamespace_def cc_look_def cc_find_def split: option.splits)
qed

subsection \<open>Witnesses\<close>

text \<open>A deployment of asset \<open>Foo\<close> in environment \<open>QAL\<close> and an empty cache.\<close>

definition sample_params :: NaavikArgs where
  "sample_params = InitializeNaavikArgs None"

definition sample_meta :: "string \<Rightarrow> string \<Rightarrow> ObjectMeta" where
  "sample_meta identity env =
     \<lparr>om_Name = ''web'', om_Namespace = ''shop'',
      om_Labels = Some [(''alpha.istio.io/identity'', identity), (''admiral.io/env'', env), (''app'', ''web'')],
      om_Annotations = Some [(''sidecar.istio.io/inject'', ''true'')]\<rparr>"

definition sample_workload :: "string \<Rightarrow> string \<Rightarrow> Workload" where
  "sample_workload identity env = \<lparr>wl_Meta = sample_meta identity env, wl_Template = sample_meta identity env\<rparr>"

lemma sample_keys:
  "Workload_identity sample_params (sample_workload ''Foo'' ''QAL'') = ''foo''"
  "Workload_env sample_params (sample_workload ''Foo'' ''QAL'') = ''qal''"
  by code_simp+

theorem deployment_add_then_get_witness:
  "Deployments_GetByClusterIdentityEnv
     (Deployments_Add sample_params ''C1'' (sample_workload ''Foo'' ''QAL'') []) ''c1'' ''FOO'' ''Qal''
     = Some (sample_workload ''Foo'' ''QAL'')"
proof -
  have "Workload_keeps sample_params (sample_workload ''Foo'' ''QAL'')"
    by (simp add: Workload_keeps_def sample_keys)
  moreover have "ToLower ''c1'' = ToLower ''C1''" by code_simp
  moreover have "ToLower ''FOO'' = Workload_identity sample_params (sample_workload ''Foo'' ''QAL'')"
    unfolding sample_keys by code_simp
  moreover have "ToLower ''Qal'' = Workload_env sample_params (sample_workload ''Foo'' ''QAL'')"
    unfolding sample_keys by code_simp
  ultimately show ?thesis
    using deployment_add_then_get [OF cc_ok_empty] by blast
qed

theorem deployment_count_and_list_witness:
  "Deployments_GetNoOfDeployments (Deployments_Add sample_params ''C1'' (sample_workload ''Foo'' ''QAL'') [])
     = card (dom (cc_look (Deployments_Add sample_params ''C1'' (sample_workload ''Foo'' ''QAL'') [])))"
  using deployment_count_and_list [OF dep_cache.ok_add [OF cc_ok_empty]] by blast

theorem service_add_then_get_witness:
  "\<not> (\<exists>e. Services_GetByClusterNamespace
      (Services_Add ''c1'' \<lparr>svc_Meta = (sample_meta [] [])\<lparr>om_Namespace := ''Shop''\<rparr>\<rparr> []) ''c1'' ''Shop'' = Some e
      \<and> map_option ci_Item (gm_get (ce_Items e) ''web'') = Some \<lparr>svc_Meta = (sample_meta [] [])\<lparr>om_Namespace := ''Shop''\<rparr>\<rparr>)"
proof -
  have "ToLower ''Shop'' \<noteq> ''Shop''" by code_simp
  then show ?thesis
    using service_add_then_get [of "[]" "''c1''" "\<lparr>svc_Meta = (sample_meta [] [])\<lparr>om_Namespace := ''Shop''\<rparr>\<rparr>"]
    by (simp add: sample_meta_def)
qed

end
