(* ===== verification/IdentityCache.thy ===== *)
theory IdentityCache
  imports Resources
begin

text \<open>
  \<open>pkg/types/set\<close> and the two identity caches of \<open>internal/cache\<close>: the clusters of an identity
  (\<open>identity_cluster_cache.go\<close>) and the dependencies and dependents of an identity
  (\<open>identity_dependency_cache.go\<close>).

  A Go set is the list of the keys of its map, in the order a range visits them.  The locks of the
  set and of the caches make each operation atomic; an operation is a function of the state.
\<close>

subsection \<open>Sets\<close>

type_synonym 'e goset = "'e list"

definition NewSet :: "'e goset" where "NewSet = []"

definition Set_Add :: "'e \<Rightarrow> 'e goset \<Rightarrow> 'e goset" where
  "Set_Add item s = (if item \<in> set s then s else s @ [item])"

definition Set_Clear :: "'e goset \<Rightarrow> 'e goset" where "Set_Clear s = []"

definition Set_Delete :: "'e \<Rightarrow> 'e goset \<Rightarrow> bool \<times> 'e goset" where
  "Set_Delete item s = (if item \<in> set s then (True, removeAll item s) else (False, s))"

definition Set_Has :: "'e goset \<Rightarrow> 'e \<Rightarrow> bool" where "Set_Has s item \<longleftrightarrow> item \<in> set s"

definition Set_Items :: "'e goset \<Rightarrow> 'e list" where "Set_Items s = s"

definition Set_Size :: "'e goset \<Rightarrow> nat" where "Set_Size s = length s"

definition NewSetData :: "'e list \<Rightarrow> 'e goset" where "NewSetData data = fold Set_Add data NewSet"

lemma Set_Add_set [simp]: "set (Set_Add x s) = insert x (set s)"
  by (auto simp: Set_Add_def)

lemma Set_Add_distinct [simp]: "distinct (Set_Add x s) \<longleftrightarrow> distinct s"
  by (auto simp: Set_Add_def)

lemma Set_Delete_set [simp]: "set (snd (Set_Delete x s)) = set s - {x}"
  by (auto simp: Set_Delete_def)

lemma Set_Delete_distinct [simp]: "distinct s \<Longrightarrow> distinct (snd (Set_Delete x s))"
  by (auto simp: Set_Delete_def distinct_removeAll)

lemma Set_Delete_found [simp]: "fst (Set_Delete x s) \<longleftrightarrow> x \<in> set s"
  by (simp add: Set_Delete_def)

lemma NewSetData_set: "set (NewSetData xs) = set xs \<and> distinct (NewSetData xs)"
proof -
  have "set (fold Set_Add xs s) = set s \<union> set xs \<and> (distinct s \<longrightarrow> distinct (fold Set_Add xs s))" for s :: "'a list"
    by (induction xs arbitrary: s) auto
  then show ?thesis by (simp add: NewSetData_def NewSet_def)
qed

text \<open>\<open>Size\<close> counts the members; a member is removed once and for all.\<close>

lemma Set_Size_card: "distinct s \<Longrightarrow> Set_Size s = card (set s)"
  by (simp add: Set_Size_def distinct_card)

subsection \<open>A map of sets\<close>

type_synonym set_map = "(string, string goset) gomap"

text \<open>The body shared by \<open>AddClusterToIdentity\<close>, \<open>AddDependencyToIdentity\<close> and \<open>AddDependentToIdentity\<close>.\<close>

definition sm_add :: "string \<Rightarrow> string \<Rightarrow> set_map \<Rightarrow> set_map" where
  "sm_add key member m =
     (case gm_get m key of
        Some existing \<Rightarrow> gm_put key (Set_Add member existing) m
      | None \<Rightarrow> gm_put key (Set_Add member NewSet) m)"

definition sm_items :: "set_map \<Rightarrow> string \<Rightarrow> string list" where
  "sm_items m key = (case gm_get m key of None \<Rightarrow> [] | Some existing \<Rightarrow> Set_Items existing)"

definition sm_has :: "set_map \<Rightarrow> string \<Rightarrow> string \<Rightarrow> bool" where
  "sm_has m key member = (case gm_get m key of None \<Rightarrow> False | Some existing \<Rightarrow> Set_Has existing member)"

text \<open>The body shared by the deletions of the dependency cache: an emptied set loses its key.\<close>

definition sm_delete :: "string \<Rightarrow> string \<Rightarrow> set_map \<Rightarrow> set_map" where
  "sm_delete key member m =
     (case gm_get m key of
        None \<Rightarrow> m
      | Some existing \<Rightarrow>
          (let members = snd (Set_Delete member existing)
           in if Set_Size members = 0 then gm_del key m else gm_put key members m))"

subsection \<open>Clusters of an identity\<close>

definition AddClusterToIdentity :: "string \<Rightarrow> string \<Rightarrow> set_map \<Rightarrow> set_map" where
  "AddClusterToIdentity identity clusterID s = sm_add (ToLower identity) (ToLower clusterID) s"

text \<open>The set is changed in place and stays in the map also when it becomes empty.\<close>

definition DeleteClusterFromIdentity :: "string \<Rightarrow> string \<Rightarrow> set_map \<Rightarrow> set_map" where
  "DeleteClusterFromIdentity identity clusterID s =
     (case gm_get s (ToLower identity) of
        None \<Rightarrow> s
      | Some clusterIds \<Rightarrow> gm_put (ToLower identity) (snd (Set_Delete (ToLower clusterID) clusterIds)) s)"

definition GetClustersForIdentity :: "set_map \<Rightarrow> string \<Rightarrow> string list" where
  "GetClustersForIdentity s identity = sm_items s (ToLower identity)"

definition ListIdentities :: "set_map \<Rightarrow> string list" where
  "ListIdentities s = gm_keys s"

definition IsClusterPresentInIdentity :: "set_map \<Rightarrow> string \<Rightarrow> string \<Rightarrow> bool" where
  "IsClusterPresentInIdentity s identity clusterID = sm_has s (ToLower identity) (ToLower clusterID)"

definition IdentityCluster_Reset :: set_map where "IdentityCluster_Reset = []"

subsection \<open>Dependencies and dependents\<close>

record dependency_cache =
  identityDependencyCache :: set_map
  identityDependentCache :: set_map

definition AddDependencyToIdentity :: "string \<Rightarrow> string \<Rightarrow> dependency_cache \<Rightarrow> dependency_cache" where
  "AddDependencyToIdentity identity dependency s =
     s\<lparr>identityDependencyCache := sm_add (ToLower identity) (ToLower dependency) (identityDependencyCache s)\<rparr>"

definition AddDependentToIdentity :: "string \<Rightarrow> string \<Rightarrow> dependency_cache \<Rightarrow> dependency_cache" where
  "AddDependentToIdentity identity dependent s =
     s\<lparr>identityDependentCache := sm_add (ToLower identity) (ToLower dependent) (identityDependentCache s)\<rparr>"

definition DeleteDependencyFromIdentity :: "string \<Rightarrow> string \<Rightarrow> dependency_cache \<Rightarrow> dependency_cache" where
  "DeleteDependencyFromIdentity identity dependency s =
     s\<lparr>identityDependencyCache := sm_delete (ToLower identity) (ToLower dependency) (identityDependencyCache s)\<rparr>"

definition DeleteDependentFromIdentity :: "string \<Rightarrow> string \<Rightarrow> dependency_cache \<Rightarrow> dependency_cache" where
  "DeleteDependentFromIdentity identity dependent s =
     s\<lparr>identityDependentCache := sm_delete (ToLower identity) (ToLower dependent) (identityDependentCache s)\<rparr>"

definition GetDependenciesForIdentity :: "dependency_cache \<Rightarrow> string \<Rightarrow> string list" where
  "GetDependenciesForIdentity s identity = sm_items (identityDependencyCache s) (ToLower identity)"

definition GetDependentsForIdentity :: "dependency_cache \<Rightarrow> string \<Rightarrow> string list" where
  "GetDependentsForIdentity s identity = sm_items (identityDependentCache s) (ToLower identity)"

text \<open>Reads the dependency cache, not the dependent cache.\<close>

definition IsDependentForIdentity :: "dependency_cache \<Rightarrow> string \<Rightarrow> string \<Rightarrow> bool" where
  "IsDependentForIdentity s identity dependency =
     sm_has (identityDependencyCache s) (ToLower identity) (ToLower dependency)"

definition GetTotalDependencies :: "dependency_cache \<Rightarrow> nat" where
  "GetTotalDependencies s = length (identityDependencyCache s)"

text \<open>The range stops when the callback answers false; the callback's own state is threaded.\<close>

fun ranged :: "(string \<Rightarrow> string list \<Rightarrow> 's \<Rightarrow> bool \<times> 's) \<Rightarrow> set_map \<Rightarrow> 's \<Rightarrow> 's" where
  "ranged f [] st = st"
| "ranged f ((k, v) # rest) st = (case f k (Set_Items v) st of (True, st') \<Rightarrow> ranged f rest st' | (False, st') \<Rightarrow> st')"

definition RangedDependencies ::
    "(string \<Rightarrow> string list \<Rightarrow> 's \<Rightarrow> bool \<times> 's) \<Rightarrow> dependency_cache \<Rightarrow> 's \<Rightarrow> 's" where
  "RangedDependencies f s st = ranged f (identityDependencyCache s) st"

definition IdentityDependency_Reset :: dependency_cache where
  "IdentityDependency_Reset = \<lparr>identityDependencyCache = [], identityDependentCache = []\<rparr>"

subsection \<open>The contract of an identity relation\<close>

text \<open>
  What the handlers rely on of each of these caches: a relation between identities and names, read
  as the duplicate-free list of the names of one identity, insensitive to case.
\<close>

locale identity_relation =
  fixes items :: "'s \<Rightarrow> string \<Rightarrow> string list"
    and add del :: "string \<Rightarrow> string \<Rightarrow> 's \<Rightarrow> 's"
    and ok :: "'s \<Rightarrow> bool"
    and emp :: "'s"
  assumes ok_emp: "ok emp"
    and ok_add: "ok s \<Longrightarrow> ok (add a b s)"
    and ok_del: "ok s \<Longrightarrow> ok (del a b s)"
    and items_emp: "items emp x = []"
    and items_add: "ok s \<Longrightarrow> set (items (add a b s) x) =
      (if ToLower x = ToLower a then insert (ToLower b) (set (items s x)) else set (items s x))"
    and items_del: "ok s \<Longrightarrow> set (items (del a b s) x) =
      (if ToLower x = ToLower a then set (items s x) - {ToLower b} else set (items s x))"
    and items_distinct: "ok s \<Longrightarrow> distinct (items s x)"
    and items_lower: "ok s \<Longrightarrow> b \<in> set (items s x) \<Longrightarrow> ToLower b = b"
begin

lemma ok_adds: "ok s \<Longrightarrow> ok (fold (\<lambda>(a, b). add a b) es s)"
  by (induction es arbitrary: s) (auto simp: ok_add)

text \<open>After any additions an identity has exactly the names added to it, on top of what it had.\<close>

lemma items_adds:
  "ok s \<Longrightarrow> set (items (fold (\<lambda>(a, b). add a b) es s) x) =
     set (items s x) \<union> {ToLower b | a b. (a, b) \<in> set es \<and> ToLower a = ToLower x}"
proof (induction es arbitrary: s)
  case Nil
  then show ?case by simp
next
  case (Cons e es)
  obtain a b where e: "e = (a, b)" by fastforce
  have IH: "set (items (fold (\<lambda>(a, b). add a b) es (add a b s)) x) =
      set (items (add a b s) x) \<union> {ToLower b | a b. (a, b) \<in> set es \<and> ToLower a = ToLower x}"
    by (rule Cons.IH) (simp add: ok_add Cons.prems)
  have added: "{ToLower d | c d. (c, d) \<in> set (e # es) \<and> ToLower c = ToLower x} =
      (if ToLower a = ToLower x then {ToLower b} else {})
        \<union> {ToLower d | c d. (c, d) \<in> set es \<and> ToLower c = ToLower x}"
    unfolding e by auto
  show ?case
    unfolding added using IH by (simp add: e items_add [OF Cons.prems])
qed

lemma items_del_add:
  "ok s \<Longrightarrow> ToLower b \<notin> set (items s a) \<Longrightarrow> set (items (del a b (add a b s)) a) = set (items s a)"
  by (auto simp: items_del items_add ok_add)

lemma length_items: "ok s \<Longrightarrow> length (items s x) = card (set (items s x))"
  by (simp add: items_distinct distinct_card)

end

text \<open>Two identity relations over one state, neither of which writes the other.\<close>

locale relation_pair =
  fwd: identity_relation items add del ok emp + bwd: identity_relation items' add' del' ok emp
  for items :: "'s \<Rightarrow> string \<Rightarrow> string list" and add del ok emp items' add' del' +
  assumes frame: "items (add' a b s) x = items s x"
    and frame': "items' (add a b s) x = items' s x"
begin

definition converse :: "'s \<Rightarrow> bool" where
  "converse s \<longleftrightarrow> (\<forall>a b. ToLower b \<in> set (items s a) \<longleftrightarrow> ToLower a \<in> set (items' s b))"

lemma converse_emp: "converse emp"
  by (simp add: converse_def fwd.items_emp bwd.items_emp)

text \<open>Recording an edge on both sides keeps the two relations converse to each other.\<close>

lemma converse_add: "ok s \<Longrightarrow> converse s \<Longrightarrow> converse (add' b a (add a b s))"
  by (auto simp: converse_def frame frame' fwd.items_add bwd.items_add fwd.ok_add)

lemma edge_recorded:
  "ok s \<Longrightarrow> ToLower b \<in> set (items (add' b a (add a b s)) a)
     \<and> ToLower a \<in> set (items' (add' b a (add a b s)) b)"
  by (simp add: frame frame' fwd.items_add bwd.items_add fwd.ok_add)

end

subsection \<open>The caches keep the contract\<close>

text \<open>A stored set has no duplicate and holds names in lower case.\<close>

definition name_set :: "string goset \<Rightarrow> bool" where
  "name_set s \<longleftrightarrow> distinct s \<and> (\<forall>x \<in> set s. ToLower x = x)"

lemma name_set_New [ok_intros, simp]: "name_set NewSet"
  by (simp add: name_set_def NewSet_def)

lemma name_set_Add [ok_intros]: "name_set s \<Longrightarrow> ToLower b = b \<Longrightarrow> name_set (Set_Add b s)"
  unfolding name_set_def by simp

lemma name_set_Delete [ok_intros]: "name_set s \<Longrightarrow> name_set (snd (Set_Delete b s))"
  unfolding name_set_def by simp

definition sm_ok :: "set_map \<Rightarrow> bool" where
  "sm_ok m \<longleftrightarrow> gm_ok m \<and> (\<forall>(k, s) \<in> set m. name_set s)"

definition dc_ok :: "dependency_cache \<Rightarrow> bool" where
  "dc_ok s \<longleftrightarrow> sm_ok (identityDependencyCache s) \<and> sm_ok (identityDependentCache s)"

lemma sm_ok_empty [ok_intros, simp]: "sm_ok []"
  by (simp add: sm_ok_def)

lemma sm_ok_get: "sm_ok m \<Longrightarrow> gm_get m k = Some s \<Longrightarrow> name_set s"
  by (auto simp: sm_ok_def dest: gm_get_in)

lemma sm_ok_put [ok_intros]: "sm_ok m \<Longrightarrow> name_set s \<Longrightarrow> sm_ok (gm_put k s m)"
  unfolding sm_ok_def using gm_all_put [of m "\<lambda>_. name_set" k s] by simp

lemma sm_ok_del [ok_intros]: "sm_ok m \<Longrightarrow> sm_ok (gm_del k m)"
  unfolding sm_ok_def using gm_all_del [of m "\<lambda>_. name_set" k] by simp

lemma sm_ok_add [ok_intros]: "sm_ok m \<Longrightarrow> ToLower b = b \<Longrightarrow> sm_ok (sm_add a b m)"
  by (simp add: sm_add_def sm_ok_put name_set_Add sm_ok_get split: option.split)

lemma sm_ok_delete [ok_intros]: "sm_ok m \<Longrightarrow> sm_ok (sm_delete a b m)"
  by (simp add: sm_delete_def Let_def sm_ok_put sm_ok_del name_set_Delete sm_ok_get split: option.split)

lemma sm_items_empty [simp]: "sm_items [] x = []"
  by (simp add: sm_items_def)

lemma sm_items_put [simp]: "sm_items (gm_put k s m) x = (if x = k then s else sm_items m x)"
  by (simp add: sm_items_def Set_Items_def)

lemma sm_items_del [simp]: "sm_items (gm_del k m) x = (if x = k then [] else sm_items m x)"
  by (simp add: sm_items_def)

lemma sm_items_get: "gm_get m k = Some s \<Longrightarrow> sm_items m k = s" "gm_get m k = None \<Longrightarrow> sm_items m k = []"
  by (simp_all add: sm_items_def Set_Items_def)

lemma sm_items_add:
  "set (sm_items (sm_add a b m) x) = (if x = a then insert b (set (sm_items m x)) else set (sm_items m x))"
  by (cases "gm_get m a") (simp_all add: sm_add_def NewSet_def sm_items_get)

lemma sm_items_delete:
  "set (sm_items (sm_delete a b m) x) = (if x = a then set (sm_items m x) - {b} else set (sm_items m x))"
proof (cases "gm_get m a")
  case None
  then show ?thesis by (simp add: sm_delete_def sm_items_get)
next
  case (Some s)
  show ?thesis
  proof (cases "snd (Set_Delete b s) = []")
    case True
    then have "set s - {b} = {}" using Set_Delete_set [of b s] by simp
    with Some True show ?thesis by (simp add: sm_delete_def Set_Size_def sm_items_get)
  next
    case False
    with Some show ?thesis by (simp add: sm_delete_def Set_Size_def Let_def sm_items_get)
  qed
qed

lemma sm_items_name_set: "sm_ok m \<Longrightarrow> name_set (sm_items m x)"
  by (cases "gm_get m x") (auto simp: sm_items_get name_set_def dest: sm_ok_get)

lemma sm_items_distinct: "sm_ok m \<Longrightarrow> distinct (sm_items m x)"
  using sm_items_name_set by (simp add: name_set_def)

lemma sm_items_lower: "sm_ok m \<Longrightarrow> y \<in> set (sm_items m x) \<Longrightarrow> ToLower y = y"
  using sm_items_name_set by (simp add: name_set_def)

lemma ok_DeleteCluster: "sm_ok s \<Longrightarrow> sm_ok (DeleteClusterFromIdentity a b s)"
  by (simp add: DeleteClusterFromIdentity_def sm_ok_put name_set_Delete sm_ok_get split: option.split)

lemma items_DeleteCluster:
  "set (GetClustersForIdentity (DeleteClusterFromIdentity a b s) x) =
     (if ToLower x = ToLower a then set (GetClustersForIdentity s x) - {ToLower b}
      else set (GetClustersForIdentity s x))"
  by (cases "gm_get s (ToLower a)")
    (simp_all add: DeleteClusterFromIdentity_def GetClustersForIdentity_def sm_items_get)

interpretation id_cluster: identity_relation GetClustersForIdentity AddClusterToIdentity
  DeleteClusterFromIdentity sm_ok IdentityCluster_Reset
  by unfold_locales
    (simp_all add: ok_DeleteCluster items_DeleteCluster,
     simp_all add: GetClustersForIdentity_def AddClusterToIdentity_def
      IdentityCluster_Reset_def sm_ok_add sm_items_add sm_items_distinct sm_items_lower)

interpretation dep_graph: relation_pair GetDependenciesForIdentity AddDependencyToIdentity
  DeleteDependencyFromIdentity dc_ok IdentityDependency_Reset
  GetDependentsForIdentity AddDependentToIdentity DeleteDependentFromIdentity
  by unfold_locales
    (simp_all add: IdentityDependency_Reset_def dc_ok_def sm_ok_add sm_ok_delete
      GetDependenciesForIdentity_def GetDependentsForIdentity_def
      AddDependencyToIdentity_def AddDependentToIdentity_def
      DeleteDependencyFromIdentity_def DeleteDependentFromIdentity_def
      sm_items_add sm_items_delete sm_items_distinct,
     meson sm_items_lower, meson sm_items_lower)

end
