(* ===== verification/TrafficConfigCache.thy ===== *)
theory TrafficConfigCache
  imports Resources
begin

text \<open>
  \<open>internal/cache/trafficconfig_cache.go\<close> and \<open>internal/types/trafficconfig/route_config.go\<close>: the
  traffic configs of an identity by environment, with the environment routes derived from each.

  The cache stores the informer's pointer and hands out deep copies; values are immutable here, so a
  copy is the value.  The two locks make each operation atomic.
\<close>

record ServiceRouteConfig =
  src_WorkloadEnvRevision :: "(string, string) gomap"
  src_ServiceAssetAlias :: string
  src_Routes :: "Route list"

record TrafficConfigEntry =
  tce_Identity :: string
  tce_EnvTrafficConfig :: "(string, TrafficConfig) gomap"
  tce_EnvServiceRoutesConfig :: "(string, ServiceRouteConfig) gomap"

type_synonym tc_cache = "(string, TrafficConfigEntry) gomap"

subsection \<open>Operations\<close>

text \<open>\<open>ServiceRouteConfig.Copy\<close> and \<open>TrafficConfigEntry.Copy\<close>: loops that rebuild the maps.\<close>

definition copy_map :: "('v \<Rightarrow> 'v) \<Rightarrow> ('k, 'v) gomap \<Rightarrow> ('k, 'v) gomap" where
  "copy_map f m = fold (\<lambda>(k, v). gm_put k (f v)) m []"

definition ServiceRouteConfig_Copy :: "ServiceRouteConfig \<Rightarrow> ServiceRouteConfig" where
  "ServiceRouteConfig_Copy src =
     \<lparr>src_WorkloadEnvRevision = copy_map id (src_WorkloadEnvRevision src),
      src_ServiceAssetAlias = src_ServiceAssetAlias src,
      src_Routes = fold (\<lambda>route acc. acc @ [route]) (src_Routes src) []\<rparr>"

definition TrafficConfigEntry_Copy :: "TrafficConfigEntry \<Rightarrow> TrafficConfigEntry" where
  "TrafficConfigEntry_Copy tce =
     \<lparr>tce_Identity = tce_Identity tce,
      tce_EnvTrafficConfig = copy_map id (tce_EnvTrafficConfig tce),
      tce_EnvServiceRoutesConfig = copy_map ServiceRouteConfig_Copy (tce_EnvServiceRoutesConfig tce)\<rparr>"

text \<open>The routes with environment selectors, stripped to four fields, and a revision per environment.\<close>

definition env_route :: "Route \<Rightarrow> Route" where
  "env_route route =
     \<lparr>rt_Name = rt_Name route, rt_Inbound = rt_Inbound route, rt_Outbound = rt_Outbound route,
      rt_Timeout = 0, rt_Config = None, rt_WorkloadEnvSelectors = rt_WorkloadEnvSelectors route\<rparr>"

definition getRoutesFromEdgeService :: "NaavikArgs \<Rightarrow> TrafficConfig \<Rightarrow> ServiceRouteConfig" where
  "getRoutesFromEdgeService p tc =
     (case tc_EdgeService tc of
        None \<Rightarrow> \<lparr>src_WorkloadEnvRevision = [], src_ServiceAssetAlias = [], src_Routes = []\<rparr>
      | Some es \<Rightarrow>
          \<lparr>src_WorkloadEnvRevision =
             fold (\<lambda>env. gm_put (ToLower env) (TC_GetRevision tc)) (tc_WorkloadEnv tc) [],
           src_ServiceAssetAlias = TC_GetIdentity p tc,
           src_Routes = fold (\<lambda>route routes.
             if length (rt_WorkloadEnvSelectors route) > 0 then routes @ [env_route route] else routes)
             (es_Routes es) []\<rparr>)"

definition TCCache_GetTrafficConfigEntry :: "tc_cache \<Rightarrow> string \<Rightarrow> TrafficConfigEntry option" where
  "TCCache_GetTrafficConfigEntry s identity =
     (case gm_get s (ToLower identity) of None \<Rightarrow> None | Some tce \<Rightarrow> Some (TrafficConfigEntry_Copy tce))"

definition TCCache_Get :: "tc_cache \<Rightarrow> string \<Rightarrow> string \<Rightarrow> TrafficConfig option" where
  "TCCache_Get s identity env =
     (case gm_get s (ToLower identity) of
        None \<Rightarrow> None
      | Some tce \<Rightarrow> gm_get (tce_EnvTrafficConfig tce) (ToLower env))"

definition TC_EnvLowerCase :: "TrafficConfig \<Rightarrow> string" where
  "TC_EnvLowerCase tc = ToLower (TC_GetEnv tc)"

definition AddTrafficConfigToCache :: "NaavikArgs \<Rightarrow> TrafficConfig \<Rightarrow> tc_cache \<Rightarrow> tc_cache" where
  "AddTrafficConfigToCache p tc s =
     (let identity = TC_GetIdentityLowerCase p tc; env = TC_EnvLowerCase tc in
      if length env > 0 then
        (let tce = (case gm_get s identity of
               None \<Rightarrow> \<lparr>tce_Identity = identity, tce_EnvTrafficConfig = [], tce_EnvServiceRoutesConfig = []\<rparr>
             | Some tce \<Rightarrow> tce);
             tce' = tce\<lparr>tce_EnvTrafficConfig := gm_put env tc (tce_EnvTrafficConfig tce),
               tce_EnvServiceRoutesConfig :=
                 gm_put env (getRoutesFromEdgeService p tc) (tce_EnvServiceRoutesConfig tce)\<rparr>
         in gm_put (tce_Identity tce') tce' s)
      else s)"

definition DeleteTrafficConfigFromCache :: "NaavikArgs \<Rightarrow> TrafficConfig \<Rightarrow> tc_cache \<Rightarrow> tc_cache" where
  "DeleteTrafficConfigFromCache p tc s =
     (let identity = TC_GetIdentityLowerCase p tc; env = TC_EnvLowerCase tc in
      if length env > 0 then
        (case gm_get s identity of
           None \<Rightarrow> s
         | Some tce \<Rightarrow>
             (case gm_get (tce_EnvTrafficConfig tce) env of
                None \<Rightarrow> s
              | Some cached \<Rightarrow>
                  if om_Name (tc_Meta tc) = om_Name (tc_Meta cached) then
                    (let tce' = tce\<lparr>tce_EnvTrafficConfig := gm_del env (tce_EnvTrafficConfig tce)\<rparr>;
                         tce'' = (if gm_get (tce_EnvServiceRoutesConfig tce') env \<noteq> None
                           then tce'\<lparr>tce_EnvServiceRoutesConfig := gm_del env (tce_EnvServiceRoutesConfig tce')\<rparr>
                           else tce')
                     in gm_put identity tce'' s)
                  else s))
      else s)"

definition GetTotalTrafficConfigs :: "tc_cache \<Rightarrow> nat" where
  "GetTotalTrafficConfigs s =
     fold (\<lambda>(_, tce) counter. counter + length (tce_EnvTrafficConfig tce)) s 0"

definition TCCache_Reset :: tc_cache where "TCCache_Reset = []"

subsection \<open>Copies and routes\<close>

lemma copy_map_get: "gm_ok m \<Longrightarrow> gm_get (copy_map f m) k = map_option f (gm_get m k)"
proof -
  have "gm_get (fold (\<lambda>(k, v). gm_put k (f v)) m acc) k =
      (case gm_get m k of None \<Rightarrow> gm_get acc k | Some v \<Rightarrow> Some (f v))" if "gm_ok m" for acc
    using that
  proof (induction m arbitrary: acc)
    case Nil
    then show ?case by simp
  next
    case (Cons kv m)
    obtain a v where kv: "kv = (a, v)" by fastforce
    have "gm_ok m" "a \<notin> fst ` set m" using Cons.prems by (simp_all add: gm_ok_def kv)
    moreover from this have "gm_get m a = None" by (simp add: gm_get_None_iff)
    ultimately show ?case using Cons.IH [of "gm_put a (f v) acc"]
      by (cases "k = a") (simp_all add: kv gm_get_Cons split: option.splits)
  qed
  then show "gm_ok m \<Longrightarrow> gm_get (copy_map f m) k = map_option f (gm_get m k)"
    by (auto simp: copy_map_def split: option.splits)
qed

lemma copy_map_id: "gm_ok m \<Longrightarrow> gm_get (copy_map id m) = gm_get m"
  by (auto simp: fun_eq_iff copy_map_get option.map_id)

lemma fold_append: "fold (\<lambda>x acc. acc @ [x]) xs ys = ys @ xs"
  by (induction xs arbitrary: ys) auto

lemma fold_filter_append:
  "fold (\<lambda>x acc. if P x then acc @ [f x] else acc) xs ys = ys @ map f (filter P xs)"
  by (induction xs arbitrary: ys) auto

lemma getRoutes_Routes:
  "src_Routes (getRoutesFromEdgeService p tc) = (case tc_EdgeService tc of None \<Rightarrow> []
     | Some es \<Rightarrow> map env_route (filter (\<lambda>r. rt_WorkloadEnvSelectors r \<noteq> []) (es_Routes es)))"
  by (simp add: getRoutesFromEdgeService_def fold_filter_append split: option.split)

lemma fold_put_const:
  "gm_get (fold (\<lambda>e. gm_put (g e) v) es m) k = (if k \<in> g ` set es then Some v else gm_get m k)"
  by (induction es arbitrary: m) auto

text \<open>A copied route config is the same routes and the same revisions.\<close>

lemma ServiceRouteConfig_Copy_same:
  assumes "gm_ok (src_WorkloadEnvRevision src)"
  shows "src_Routes (ServiceRouteConfig_Copy src) = src_Routes src
    \<and> src_ServiceAssetAlias (ServiceRouteConfig_Copy src) = src_ServiceAssetAlias src
    \<and> gm_get (src_WorkloadEnvRevision (ServiceRouteConfig_Copy src)) = gm_get (src_WorkloadEnvRevision src)"
  using assms by (simp add: ServiceRouteConfig_Copy_def fold_append copy_map_id)


subsection \<open>The invariant and the abstract view\<close>

definition TC_slot :: "NaavikArgs \<Rightarrow> TrafficConfig \<Rightarrow> string \<times> string" where
  "TC_slot p tc = (TC_GetIdentityLowerCase p tc, TC_EnvLowerCase tc)"

text \<open>
  An entry is stored under its identity; every traffic config is stored under its own identity and
  environment; the derived routes are there for exactly the cached configs and are up to date.
\<close>

definition tce_ok :: "NaavikArgs \<Rightarrow> string \<Rightarrow> TrafficConfigEntry \<Rightarrow> bool" where
  "tce_ok p i e \<longleftrightarrow> tce_Identity e = i \<and> gm_ok (tce_EnvTrafficConfig e) \<and> gm_ok (tce_EnvServiceRoutesConfig e)
     \<and> (\<forall>env tc. gm_get (tce_EnvTrafficConfig e) env = Some tc \<longrightarrow> TC_slot p tc = (i, env) \<and> env \<noteq> [])
     \<and> gm_get (tce_EnvServiceRoutesConfig e)
         = (\<lambda>env. map_option (getRoutesFromEdgeService p) (gm_get (tce_EnvTrafficConfig e) env))"

definition tcc_ok :: "NaavikArgs \<Rightarrow> tc_cache \<Rightarrow> bool" where
  "tcc_ok p s \<longleftrightarrow> gm_ok s \<and> (\<forall>i e. gm_get s i = Some e \<longrightarrow> tce_ok p i e)"

definition tcc_look :: "tc_cache \<Rightarrow> string \<times> string \<Rightarrow> TrafficConfig option" where
  "tcc_look s = (\<lambda>(i, env). case gm_get s i of None \<Rightarrow> None | Some e \<Rightarrow> gm_get (tce_EnvTrafficConfig e) env)"

datatype tc_event = Cached TrafficConfig | Uncached TrafficConfig

definition tcc_step :: "NaavikArgs \<Rightarrow> tc_event \<Rightarrow> tc_cache \<Rightarrow> tc_cache" where
  "tcc_step p ev s = (case ev of Cached tc \<Rightarrow> AddTrafficConfigToCache p tc s
     | Uncached tc \<Rightarrow> DeleteTrafficConfigFromCache p tc s)"

text \<open>
  The specification: one traffic config per identity and environment, replaced by the last one added,
  and removed only by a config of the same name.
\<close>

definition tcc_spec ::
    "NaavikArgs \<Rightarrow> tc_event \<Rightarrow> (string \<times> string \<Rightarrow> TrafficConfig option) \<Rightarrow> (string \<times> string \<Rightarrow> TrafficConfig option)" where
  "tcc_spec p ev m = (case ev of
     Cached tc \<Rightarrow> (if TC_EnvLowerCase tc = [] then m else m(TC_slot p tc \<mapsto> tc))
   | Uncached tc \<Rightarrow>
       (case m (TC_slot p tc) of
          None \<Rightarrow> m
        | Some cached \<Rightarrow> if om_Name (tc_Meta tc) = om_Name (tc_Meta cached) then m(TC_slot p tc := None) else m))"

lemma tce_ok_put:
  assumes "tce_ok p i e" "TC_slot p tc = (i, env)" "env \<noteq> []"
  shows "tce_ok p i (e\<lparr>tce_EnvTrafficConfig := gm_put env tc (tce_EnvTrafficConfig e),
    tce_EnvServiceRoutesConfig := gm_put env (getRoutesFromEdgeService p tc) (tce_EnvServiceRoutesConfig e)\<rparr>)"
  using assms by (auto simp: tce_ok_def fun_eq_iff)

lemma tce_ok_fresh: "tce_ok p i \<lparr>tce_Identity = i, tce_EnvTrafficConfig = [], tce_EnvServiceRoutesConfig = []\<rparr>"
  by (simp add: tce_ok_def gm_ok_def fun_eq_iff)

lemma tce_ok_del:
  assumes "tce_ok p i e"
  shows "tce_ok p i (e\<lparr>tce_EnvTrafficConfig := gm_del env (tce_EnvTrafficConfig e),
    tce_EnvServiceRoutesConfig := gm_del env (tce_EnvServiceRoutesConfig e)\<rparr>)"
  using assms by (auto simp: tce_ok_def fun_eq_iff)

lemma tcc_ok_put: "tcc_ok p s \<Longrightarrow> tce_ok p i e \<Longrightarrow> tcc_ok p (gm_put i e s)"
  by (simp add: tcc_ok_def)

lemma tcc_ok_get: "tcc_ok p s \<Longrightarrow> gm_get s i = Some e \<Longrightarrow> tce_ok p i e"
  by (simp add: tcc_ok_def)

lemma tcc_ok_empty [simp]: "tcc_ok p []"
  by (simp add: tcc_ok_def gm_ok_def)

lemma tcc_look_empty [simp]: "tcc_look [] = Map.empty"
  by (simp add: tcc_look_def fun_eq_iff)

lemma tcc_ok_Add: assumes "tcc_ok p s" shows "tcc_ok p (AddTrafficConfigToCache p tc s)"
proof (cases "gm_get s (TC_GetIdentityLowerCase p tc)")
  case None
  show ?thesis
    using assms None tce_ok_put [OF tce_ok_fresh, of p tc "TC_GetIdentityLowerCase p tc" "TC_EnvLowerCase tc"]
    by (simp add: AddTrafficConfigToCache_def Let_def TC_slot_def tcc_ok_put)
next
  case (Some e)
  then have "tce_ok p (TC_GetIdentityLowerCase p tc) e" by (rule tcc_ok_get [OF assms])
  with assms Some show ?thesis
    using tce_ok_put [of p "TC_GetIdentityLowerCase p tc" e tc "TC_EnvLowerCase tc"]
    by (simp add: AddTrafficConfigToCache_def Let_def TC_slot_def tcc_ok_put)
       (simp add: tce_ok_def tcc_ok_put)
qed

lemma tcc_look_Add:
  assumes "tcc_ok p s"
  shows "tcc_look (AddTrafficConfigToCache p tc s) =
    (if TC_EnvLowerCase tc = [] then tcc_look s else (tcc_look s)(TC_slot p tc \<mapsto> tc))"
  using tcc_ok_get [OF assms, of "TC_GetIdentityLowerCase p tc"]
  by (cases "gm_get s (TC_GetIdentityLowerCase p tc)")
    (auto simp: AddTrafficConfigToCache_def Let_def TC_slot_def tcc_look_def fun_eq_iff tce_ok_def)

lemma Delete_eq:
  assumes "tcc_ok p s"
  shows "DeleteTrafficConfigFromCache p tc s =
    (case gm_get s (TC_GetIdentityLowerCase p tc) of
       None \<Rightarrow> s
     | Some e \<Rightarrow>
         (case gm_get (tce_EnvTrafficConfig e) (TC_EnvLowerCase tc) of
            None \<Rightarrow> s
          | Some cached \<Rightarrow>
              if om_Name (tc_Meta tc) = om_Name (tc_Meta cached)
              then gm_put (TC_GetIdentityLowerCase p tc)
                (e\<lparr>tce_EnvTrafficConfig := gm_del (TC_EnvLowerCase tc) (tce_EnvTrafficConfig e),
                   tce_EnvServiceRoutesConfig := gm_del (TC_EnvLowerCase tc) (tce_EnvServiceRoutesConfig e)\<rparr>) s
              else s))"
  using tcc_ok_get [OF assms, of "TC_GetIdentityLowerCase p tc"]
  by (auto simp: DeleteTrafficConfigFromCache_def Let_def tce_ok_def split: option.split)

lemma tcc_ok_Delete: assumes "tcc_ok p s" shows "tcc_ok p (DeleteTrafficConfigFromCache p tc s)"
  using assms
  by (auto simp: Delete_eq intro!: tcc_ok_put tce_ok_del intro: tcc_ok_get split: option.split)

lemma tcc_look_Delete:
  assumes "tcc_ok p s"
  shows "tcc_look (DeleteTrafficConfigFromCache p tc s) = tcc_spec p (Uncached tc) (tcc_look s)"
  by (auto simp: Delete_eq [OF assms] tcc_spec_def TC_slot_def tcc_look_def fun_eq_iff split: option.splits)

interpretation tcc: simulation "tcc_step p" "tcc_spec p" "tcc_ok p" tcc_look
  by unfold_locales
    (auto simp: tcc_step_def tcc_spec_def [of p "Cached _"] tcc_ok_Add tcc_ok_Delete tcc_look_Add tcc_look_Delete
      split: tc_event.split)

lemma TCCache_Get_look: "TCCache_Get s i env = tcc_look s (ToLower i, ToLower env)"
  by (simp add: TCCache_Get_def tcc_look_def)

lemma GetTotal_flat: "GetTotalTrafficConfigs s = length (gm_flat tce_EnvTrafficConfig s)"
proof -
  have "fold (\<lambda>(_, tce) counter. counter + length (tce_EnvTrafficConfig tce)) s n
      = n + length (gm_flat tce_EnvTrafficConfig s)" for n
    by (induction s arbitrary: n) auto
  then show ?thesis by (simp add: GetTotalTrafficConfigs_def)
qed

lemma tcc_flat_ok: "tcc_ok p s \<Longrightarrow> gm_ok (gm_flat tce_EnvTrafficConfig s)"
  by (rule gm_flat_ok) (auto simp: tcc_ok_def tce_ok_def gm.pairs_get)

lemma tcc_flat_get: "tcc_ok p s \<Longrightarrow> gm_get (gm_flat tce_EnvTrafficConfig s) = tcc_look s"
  by (auto simp: fun_eq_iff tcc_look_def gm_flat_get tcc_ok_def split: option.split)

subsection \<open>Properties\<close>

text \<open>
  C22: after any sequence of additions and deletions of traffic configs the cache is well formed (every
  config under its own identity and environment, the derived routes present for exactly the cached
  configs and up to date), it holds per identity and environment what the specification holds, and
  its counter is the number of pairs of identity and environment that hold a config.
\<close>

theorem traffic_config_cache_refines:
  "tcc_ok p (fold (tcc_step p) evs TCCache_Reset)
   \<and> (\<forall>i env. TCCache_Get (fold (tcc_step p) evs TCCache_Reset) i env
        = fold (tcc_spec p) evs Map.empty (ToLower i, ToLower env))
   \<and> GetTotalTrafficConfigs (fold (tcc_step p) evs TCCache_Reset)
        = card (dom (fold (tcc_spec p) evs Map.empty))"
proof -
  let ?s = "fold (tcc_step p) evs TCCache_Reset"
  have ok: "tcc_ok p ?s" by (rule tcc.ok_run) (simp add: TCCache_Reset_def)
  have look: "tcc_look ?s = fold (tcc_spec p) evs Map.empty"
    using tcc.view_run [of p "TCCache_Reset" evs] by (simp add: TCCache_Reset_def)
  have "GetTotalTrafficConfigs ?s = card (dom (tcc_look ?s))"
    using gm.len_dom [OF tcc_flat_ok [OF ok]] by (simp add: GetTotal_flat tcc_flat_get [OF ok])
  with ok look show ?thesis by (simp add: TCCache_Get_look)
qed

text \<open>
  The entry handed out for an identity is a copy that answers every lookup as the cached entry
  does, its environment routes are those with environment selectors in the order of the traffic
  config, and every workload environment of the config, in lower case, carries the config's revision.
\<close>

theorem traffic_config_entry_copy:
  assumes "tcc_ok p s" "TCCache_Get s i env = Some tc" "tc_EdgeService tc = Some es"
  shows "\<exists>e src. TCCache_GetTrafficConfigEntry s i = Some e
    \<and> gm_get (tce_EnvTrafficConfig e) (ToLower env) = Some tc
    \<and> gm_get (tce_EnvServiceRoutesConfig e) (ToLower env) = Some src
    \<and> src_Routes src = map env_route (filter (\<lambda>r. rt_WorkloadEnvSelectors r \<noteq> []) (es_Routes es))
    \<and> (\<forall>w. gm_get (src_WorkloadEnvRevision src) w =
          (if w \<in> ToLower ` set (tc_WorkloadEnv tc) then Some (TC_GetRevision tc) else None))"
proof -
  let ?src = "getRoutesFromEdgeService p tc"
  obtain e where e: "gm_get s (ToLower i) = Some e" "gm_get (tce_EnvTrafficConfig e) (ToLower env) = Some tc"
    using assms(2) by (auto simp: TCCache_Get_def split: option.splits)
  then have ok: "tce_ok p (ToLower i) e" using tcc_ok_get [OF assms(1)] by simp
  then have src: "gm_get (tce_EnvServiceRoutesConfig e) (ToLower env) = Some ?src"
    using e(2) by (simp add: tce_ok_def)
  have revision: "src_WorkloadEnvRevision ?src =
      fold (\<lambda>w. gm_put (ToLower w) (TC_GetRevision tc)) (tc_WorkloadEnv tc) []"
    using assms(3) by (simp add: getRoutesFromEdgeService_def)
  have put_ok: "gm_ok (fold (\<lambda>w. gm_put (ToLower w) r) ws m)" if "gm_ok m" for r ws m
    using that by (induction ws arbitrary: m) auto
  have "gm_ok (src_WorkloadEnvRevision ?src)" by (simp add: revision put_ok)
  note same = ServiceRouteConfig_Copy_same [OF this]
  have "gm_get (tce_EnvServiceRoutesConfig (TrafficConfigEntry_Copy e)) (ToLower env)
      = Some (ServiceRouteConfig_Copy ?src)"
  proof -
    have "gm_ok (tce_EnvServiceRoutesConfig e)" using ok by (simp add: tce_ok_def)
    with src show ?thesis by (simp only: TrafficConfigEntry_Copy_def TrafficConfigEntry.simps copy_map_get option.map)
  qed
  moreover have "gm_get (tce_EnvTrafficConfig (TrafficConfigEntry_Copy e)) (ToLower env) = Some tc"
    using ok e(2) by (simp add: TrafficConfigEntry_Copy_def copy_map_id tce_ok_def)
  ultimately show ?thesis
    using e(1) same assms(3)
    by (auto simp: TCCache_GetTrafficConfigEntry_def getRoutes_Routes revision fold_put_const)
qed

subsection \<open>Witness\<close>

definition sample_tc_meta :: "string \<Rightarrow> ObjectMeta" where
  "sample_tc_meta name =
     \<lparr>om_Name = name, om_Namespace = ''admiral'',
      om_Labels = Some [(''asset'', ''Shop''), (''env'', ''Qal''), (''revisionNumber'', ''7'')],
      om_Annotations = None\<rparr>"

definition sample_route :: "string \<Rightarrow> string list \<Rightarrow> Route" where
  "sample_route name sel =
     \<lparr>rt_Name = name, rt_Inbound = ''/v1'', rt_Outbound = ''/v2'', rt_Timeout = 3000,
      rt_Config = None, rt_WorkloadEnvSelectors = sel\<rparr>"

definition sample_tc :: TrafficConfig where
  "sample_tc =
     \<lparr>tc_Meta = sample_tc_meta ''shop-qal'', tc_WorkloadEnv = [''QAL'', ''stage''],
      tc_EdgeService = Some \<lparr>es_Routes = [sample_route ''a'' [''qal''], sample_route ''b'' []],
        es_Targets = None, es_TargetGroups = None\<rparr>,
      tc_QuotaGroup = None\<rparr>"

theorem traffic_config_entry_copy_witness:
  "\<exists>e src. TCCache_GetTrafficConfigEntry (AddTrafficConfigToCache (InitializeNaavikArgs None) sample_tc []) ''SHOP'' = Some e
    \<and> gm_get (tce_EnvServiceRoutesConfig e) ''qal'' = Some src
    \<and> map rt_Name (src_Routes src) = [''a''] \<and> gm_get (src_WorkloadEnvRevision src) ''stage'' = Some ''7''"
proof -
  let ?p = "InitializeNaavikArgs None"
  let ?s = "AddTrafficConfigToCache ?p sample_tc []"
  have "TCCache_Get ?s ''SHOP'' ''Qal'' = Some sample_tc" by code_simp
  moreover have "tc_EdgeService sample_tc = Some \<lparr>es_Routes = [sample_route ''a'' [''qal''], sample_route ''b'' []],
        es_Targets = None, es_TargetGroups = None\<rparr>" by (simp add: sample_tc_def)
  ultimately obtain e src where es: "TCCache_GetTrafficConfigEntry ?s ''SHOP'' = Some e"
    "gm_get (tce_EnvServiceRoutesConfig e) (ToLower ''Qal'') = Some src"
    "src_Routes src = map env_route (filter (\<lambda>r. rt_WorkloadEnvSelectors r \<noteq> [])
       [sample_route ''a'' [''qal''], sample_route ''b'' []])"
    "\<forall>w. gm_get (src_WorkloadEnvRevision src) w =
      (if w \<in> ToLower ` set (tc_WorkloadEnv sample_tc) then Some (TC_GetRevision sample_tc) else None)"
    using traffic_config_entry_copy [OF tcc_ok_Add [OF tcc_ok_empty], of ?p sample_tc "''SHOP''" "''Qal''" sample_tc]
    by fastforce
  have low: "ToLower ''Qal'' = ''qal''" by code_simp
  have st: "''stage'' \<in> ToLower ` set (tc_WorkloadEnv sample_tc)" by code_simp
  have rv: "TC_GetRevision sample_tc = ''7''" by code_simp
  from es(4) st rv have "gm_get (src_WorkloadEnvRevision src) ''stage'' = Some ''7''" by simp
  with es low show ?thesis by (auto simp: sample_route_def env_route_def)
qed

end
