(* ===== verification/EventStatus.thy ===== *)
theory EventStatus
  imports Prelude
begin

text \<open>
  \<open>internal/controller/event_status.go\<close> and \<open>internal/types/context\<close>: the status values a handler
  sends about an event and the channel operations that send them.

  Channels are references, so they live in a store: a list of channels, a channel being its index;
  \<open>make\<close> appends one.  A channel is the list of the values sent on it and whether it is closed.  The
  receiver drains every channel (\<open>handleStatus\<close>), so a send on an open channel succeeds; a send on a
  closed channel and a second close panic (\<open>None\<close>).  Random event ids are not modelled.
\<close>

datatype EventStatus = EventCreateChild | EventSkip | EventRetry | EventMaxRetryReached
  | EventCompleted | EventFailure | EventProcessing | EventPartialCompleted

text \<open>
  A \<open>context.Context\<close>: whether its logger is set (the zero value has a nil logger), whether its Go
  context is set, and the value stored under \<open>SourceIdentityKey\<close>.
\<close>

record context_t =
  ctx_Log :: bool
  ctx_Context :: bool
  ctx_SourceIdentity :: "string option"

definition zeroContext :: context_t where
  "zeroContext = \<lparr>ctx_Log = False, ctx_Context = False, ctx_SourceIdentity = None\<rparr>"

definition NewContextWithLogger :: context_t where
  "NewContextWithLogger = \<lparr>ctx_Log = True, ctx_Context = True, ctx_SourceIdentity = None\<rparr>"

text \<open>A callback is a reference; \<open>ChildOnStatus\<close> holds the identity of the function or nil.\<close>

record EventProcessStatus =
  eps_MaxRetryCount :: int
  eps_Status :: EventStatus
  eps_RetryCount :: int
  eps_Retry :: bool
  eps_RetryAfter :: int
  eps_Message :: "(string, string) gomap"
  eps_Error :: string
  eps_ChildEventContext :: context_t
  eps_ChildEventChan :: "nat option"
  eps_ChildOnStatus :: "nat option"

record chan_state =
  ch_sent :: "EventProcessStatus list"
  ch_closed :: bool

type_synonym chans = "chan_state list"

subsection \<open>Status values\<close>

definition DefaultMaxRetryCount :: int where "DefaultMaxRetryCount = 5"

definition NewEventProcessStatus :: EventProcessStatus where
  "NewEventProcessStatus =
     \<lparr>eps_MaxRetryCount = DefaultMaxRetryCount, eps_Status = EventCompleted, eps_RetryCount = 0,
      eps_Retry = False, eps_RetryAfter = 0, eps_Message = [], eps_Error = [],
      eps_ChildEventContext = zeroContext, eps_ChildEventChan = None, eps_ChildOnStatus = None\<rparr>"

definition WithStatus :: "EventStatus \<Rightarrow> EventProcessStatus \<Rightarrow> EventProcessStatus" where
  "WithStatus status eps = eps\<lparr>eps_Status := status\<rparr>"

definition WithRetry :: "EventProcessStatus \<Rightarrow> EventProcessStatus" where
  "WithRetry eps = eps\<lparr>eps_Retry := True, eps_Status := EventRetry\<rparr>"

definition WithMaxRetry :: "int \<Rightarrow> EventProcessStatus \<Rightarrow> EventProcessStatus" where
  "WithMaxRetry cnt eps = eps\<lparr>eps_MaxRetryCount := cnt\<rparr>"

definition WithMessage :: "string \<Rightarrow> string \<Rightarrow> EventProcessStatus \<Rightarrow> EventProcessStatus" where
  "WithMessage key val eps = eps\<lparr>eps_Message := gm_put key val (eps_Message eps)\<rparr>"

definition WithError :: "string \<Rightarrow> EventProcessStatus \<Rightarrow> EventProcessStatus" where
  "WithError err eps = eps\<lparr>eps_Error := err\<rparr>"

subsection \<open>Channels\<close>

definition make_chan :: "chans \<Rightarrow> chans \<times> nat" where
  "make_chan cs = (cs @ [\<lparr>ch_sent = [], ch_closed = False\<rparr>], length cs)"

definition chan_send :: "nat \<Rightarrow> EventProcessStatus \<Rightarrow> chans \<Rightarrow> chans option" where
  "chan_send c eps cs =
     (if c < length cs \<and> \<not> ch_closed (cs ! c)
      then Some (cs[c := (cs ! c)\<lparr>ch_sent := ch_sent (cs ! c) @ [eps]\<rparr>]) else None)"

definition chan_close :: "nat \<Rightarrow> chans \<Rightarrow> chans option" where
  "chan_close c cs =
     (if c < length cs \<and> \<not> ch_closed (cs ! c) then Some (cs[c := (cs ! c)\<lparr>ch_closed := True\<rparr>]) else None)"

text \<open>The four operations answer the status of the value they were given, also for a nil channel.\<close>

definition SkipClose :: "EventProcessStatus \<Rightarrow> nat option \<Rightarrow> chans \<Rightarrow> (EventStatus \<times> chans) option" where
  "SkipClose eps statusChan cs =
     (case statusChan of
        None \<Rightarrow> Some (eps_Status eps, cs)
      | Some c \<Rightarrow> do {
          let eps' = eps\<lparr>eps_Status := EventSkip\<rparr>;
          cs1 \<leftarrow> chan_send c eps' cs;
          cs2 \<leftarrow> chan_close c cs1;
          Some (eps_Status eps', cs2)
        })"

definition Send :: "EventProcessStatus \<Rightarrow> nat option \<Rightarrow> chans \<Rightarrow> (EventStatus \<times> chans) option" where
  "Send eps statusChan cs =
     (case statusChan of
        None \<Rightarrow> Some (eps_Status eps, cs)
      | Some c \<Rightarrow> do { cs1 \<leftarrow> chan_send c eps cs; Some (eps_Status eps, cs1) })"

definition SendClose :: "EventProcessStatus \<Rightarrow> nat option \<Rightarrow> chans \<Rightarrow> (EventStatus \<times> chans) option" where
  "SendClose eps statusChan cs =
     (case statusChan of
        None \<Rightarrow> Some (eps_Status eps, cs)
      | Some c \<Rightarrow> do {
          cs1 \<leftarrow> chan_send c eps cs;
          cs2 \<leftarrow> chan_close c cs1;
          Some (eps_Status eps, cs2)
        })"

text \<open>
  With a nil channel nothing is created and the caller gets the zero context and a nil channel.  The
  child's logger is derived from the caller's, so a context without logger panics.
\<close>

definition CreateChildEvent ::
    "EventProcessStatus \<Rightarrow> context_t \<Rightarrow> nat option \<Rightarrow> nat option \<Rightarrow> chans
       \<Rightarrow> (context_t \<times> nat option \<times> chans) option" where
  "CreateChildEvent eps ctx childOnStatus statusChan cs =
     (let eps0 = eps\<lparr>eps_Status := EventCreateChild\<rparr> in
      case statusChan of
        None \<Rightarrow> Some (eps_ChildEventContext eps0, eps_ChildEventChan eps0, cs)
      | Some c \<Rightarrow>
          if \<not> ctx_Log ctx then None
          else do {
            let (cs1, child) = make_chan cs;
            let eps1 = eps0\<lparr>eps_ChildEventContext := NewContextWithLogger,
              eps_ChildOnStatus := childOnStatus, eps_ChildEventChan := Some child\<rparr>;
            cs2 \<leftarrow> chan_send c eps1 cs1;
            Some (eps_ChildEventContext eps1, eps_ChildEventChan eps1, cs2)
          })"

subsection \<open>Laws of the channel operations\<close>

definition chan_open :: "nat \<Rightarrow> chans \<Rightarrow> bool" where
  "chan_open c cs \<longleftrightarrow> c < length cs \<and> \<not> ch_closed (cs ! c)"

lemma chan_send_open: "chan_open c cs \<Longrightarrow>
    chan_send c eps cs = Some (cs[c := (cs ! c)\<lparr>ch_sent := ch_sent (cs ! c) @ [eps]\<rparr>])"
  by (simp add: chan_send_def chan_open_def)

lemma chan_send_None: "chan_send c eps cs = None \<longleftrightarrow> \<not> chan_open c cs"
  by (simp add: chan_send_def chan_open_def)

lemma chan_send_closed: "\<not> chan_open c cs \<Longrightarrow> chan_send c eps cs = None"
  by (simp add: chan_send_None)

lemma chan_close_None: "chan_close c cs = None \<longleftrightarrow> \<not> chan_open c cs"
  by (simp add: chan_close_def chan_open_def)

text \<open>The effect of \<open>SkipClose\<close> and \<open>SendClose\<close> on an open channel.\<close>

definition close_with :: "nat \<Rightarrow> EventProcessStatus \<Rightarrow> chans \<Rightarrow> chans" where
  "close_with c eps cs = cs[c := (cs ! c)\<lparr>ch_sent := ch_sent (cs ! c) @ [eps], ch_closed := True\<rparr>]"

lemma send_close_open:
  "chan_open c cs \<Longrightarrow> Option.bind (chan_send c eps cs) (chan_close c) = Some (close_with c eps cs)"
  by (simp add: chan_send_open chan_close_def chan_open_def close_with_def)

lemma SkipClose_open:
  "chan_open c cs \<Longrightarrow>
     SkipClose eps (Some c) cs = Some (EventSkip, close_with c (eps\<lparr>eps_Status := EventSkip\<rparr>) cs)"
  by (simp add: SkipClose_def Let_def chan_send_open chan_close_def chan_open_def close_with_def)

lemma SendClose_open:
  "chan_open c cs \<Longrightarrow> SendClose eps (Some c) cs = Some (eps_Status eps, close_with c eps cs)"
  by (simp add: SendClose_def chan_send_open chan_close_def chan_open_def close_with_def)

lemma SkipClose_closed: "\<not> chan_open c cs \<Longrightarrow> SkipClose eps (Some c) cs = None"
  by (simp add: SkipClose_def Let_def chan_send_closed)

text \<open>A channel a handler may be given: nil, or open.\<close>

definition usable :: "nat option \<Rightarrow> chans \<Rightarrow> bool" where
  "usable ch cs = (case ch of None \<Rightarrow> True | Some c \<Rightarrow> chan_open c cs)"

lemma SkipClose_usable:
  assumes "usable ch cs"
  obtains st cs' where "SkipClose eps ch cs = Some (st, cs')"
  using assms by (cases ch) (auto simp: usable_def SkipClose_open SkipClose_def [of _ None])

lemma close_with_closed: "c < length cs \<Longrightarrow> \<not> chan_open c (close_with c eps cs)"
  by (simp add: chan_open_def close_with_def)

lemma close_with_other: "d \<noteq> c \<Longrightarrow> close_with c eps cs ! d = cs ! d"
  by (simp add: close_with_def)

lemma length_close_with [simp]: "length (close_with c eps cs) = length cs"
  by (simp add: close_with_def)

lemma chan_open_close_with [simp]: "d \<noteq> c \<Longrightarrow> chan_open d (close_with c eps cs) = chan_open d cs"
  by (simp add: chan_open_def close_with_other)

text \<open>
  What a handler may do to the channels it is not given: nothing.  \<open>grows cs cs'\<close> says that the
  channels of \<open>cs\<close> other than those in \<open>own\<close> are unchanged in \<open>cs'\<close>, and no channel disappears.
\<close>

definition grows :: "nat set \<Rightarrow> chans \<Rightarrow> chans \<Rightarrow> bool" where
  "grows own cs cs' \<longleftrightarrow> length cs \<le> length cs' \<and> (\<forall>d < length cs. d \<notin> own \<longrightarrow> cs' ! d = cs ! d)"

lemma grows_refl [simp]: "grows own cs cs"
  by (simp add: grows_def)

lemma grows_trans: "grows own cs cs' \<Longrightarrow> grows own cs' cs'' \<Longrightarrow> grows own cs cs''"
  by (simp add: grows_def)

lemma grows_close_with: "grows {c} cs (close_with c eps cs)"
  by (simp add: grows_def close_with_other)

text \<open>
  A child event: the parent is told of a fresh open channel, the child's context has a logger, and no
  other channel changes.
\<close>

lemma CreateChildEvent_open:
  assumes "chan_open c cs" "ctx_Log ctx"
  obtains cs' child where
    "CreateChildEvent eps ctx onStatus (Some c) cs = Some (NewContextWithLogger, Some child, cs')"
    "child = length cs" "length cs' = Suc (length cs)" "chan_open c cs'" "chan_open child cs'"
    "ch_sent (cs' ! child) = []" "grows {c} cs cs'"
    "\<exists>m. ch_sent (cs' ! c) = ch_sent (cs ! c) @ [m] \<and> eps_Status m = EventCreateChild
      \<and> eps_ChildEventChan m = Some child \<and> eps_ChildOnStatus m = onStatus"
proof -
  let ?fresh = "\<lparr>ch_sent = [], ch_closed = False\<rparr>"
  let ?m = "eps\<lparr>eps_Status := EventCreateChild, eps_ChildEventContext := NewContextWithLogger,
    eps_ChildOnStatus := onStatus, eps_ChildEventChan := Some (length cs)\<rparr>"
  let ?cs = "(cs @ [?fresh])[c := (cs ! c)\<lparr>ch_sent := ch_sent (cs ! c) @ [?m]\<rparr>]"
  have c: "c < length cs" "\<not> ch_closed (cs ! c)" using assms by (simp_all add: chan_open_def)
  have "CreateChildEvent eps ctx onStatus (Some c) cs
      = Some (NewContextWithLogger, Some (length cs), ?cs)"
    using c assms(2) by (simp add: CreateChildEvent_def make_chan_def chan_send_def Let_def nth_append)
  moreover have "chan_open c ?cs" "chan_open (length cs) ?cs" "ch_sent (?cs ! length cs) = []"
    using c by (simp_all add: chan_open_def nth_append nth_list_update)
  moreover have "grows {c} cs ?cs" by (simp add: grows_def nth_append)
  moreover have "ch_sent (?cs ! c) = ch_sent (cs ! c) @ [?m]" using c by simp
  ultimately show ?thesis by (intro that [of "length cs" ?cs]) auto
qed

subsection \<open>Properties\<close>

text \<open>
  On an open channel \<open>SkipClose\<close> sends exactly one value, with status Skip whatever the status it
  was called on, closes the channel, touches no other channel and answers Skip; closing again in any
  way, or sending on the closed channel, panics; on a nil channel nothing is sent and the answer is
  the status the value had, which for a new status is Completed.
\<close>

theorem skip_close_once:
  assumes "chan_open c cs"
  shows "\<exists>cs'. SkipClose eps (Some c) cs = Some (EventSkip, cs')
      \<and> ch_sent (cs' ! c) = ch_sent (cs ! c) @ [eps\<lparr>eps_Status := EventSkip\<rparr>] \<and> ch_closed (cs' ! c)
      \<and> (\<forall>d. d \<noteq> c \<longrightarrow> cs' ! d = cs ! d)
      \<and> SkipClose eps' (Some c) cs' = None \<and> SendClose eps' (Some c) cs' = None \<and> Send eps' (Some c) cs' = None
    \<and> SkipClose NewEventProcessStatus None cs = Some (EventCompleted, cs)"
proof -
  let ?cs = "close_with c (eps\<lparr>eps_Status := EventSkip\<rparr>) cs"
  have c: "c < length cs" using assms by (simp add: chan_open_def)
  have closed: "\<not> chan_open c ?cs" by (rule close_with_closed [OF c])
  have "SkipClose eps' (Some c) ?cs = None" "SendClose eps' (Some c) ?cs = None" "Send eps' (Some c) ?cs = None"
    using closed by (simp_all add: SkipClose_closed SendClose_def Send_def chan_send_closed)
  moreover have "ch_sent (?cs ! c) = ch_sent (cs ! c) @ [eps\<lparr>eps_Status := EventSkip\<rparr>]" "ch_closed (?cs ! c)"
    using c by (simp_all add: close_with_def)
  moreover have "SkipClose NewEventProcessStatus None cs = Some (EventCompleted, cs)"
    by (simp add: SkipClose_def NewEventProcessStatus_def)
  ultimately show ?thesis
    using SkipClose_open [OF assms] by (auto simp: close_with_other)
qed

definition sample_chans :: chans where "sample_chans = [\<lparr>ch_sent = [], ch_closed = False\<rparr>]"

theorem skip_close_once_witness:
  "\<exists>cs'. SkipClose NewEventProcessStatus (Some 0) sample_chans = Some (EventSkip, cs') \<and> ch_closed (cs' ! 0)
     \<and> SendClose (WithRetry NewEventProcessStatus) (Some 0) cs' = None"
  using skip_close_once [of 0 sample_chans NewEventProcessStatus "WithRetry NewEventProcessStatus"]
  by (auto simp: chan_open_def sample_chans_def)

end
