(* ===== verification/RemoteClusters.thy ===== *)
theory RemoteClusters
  imports EventStatus Resources
begin

text \<open>
  Remote clusters: \<open>internal/cache/remote_cluster_cache.go\<close> and \<open>controllers_cache.go\<close>,
  \<open>internal/types/remotecluster\<close>, the resolver and the secret handler of
  \<open>internal/handler/remotecluster\<close>, and \<open>StopAllControllers\<close> of \<open>internal/controller/controller.go\<close>.

  The two caches and the stop channels form the \<open>registry\<close>.  Stop channels are numbered; \<open>reg_next\<close> is
  the next number and \<open>reg_closed\<close> holds the closed ones; closing a channel twice panics.  A goroutine
  that waits for the workers of a stopped controller changes nothing while it waits.  Building
  clients from a kubeconfig is client-go's work: the functions of \<open>loader\<close>, with a client
  configuration of type \<open>'cc\<close> and a REST configuration of type \<open>'rest\<close>; the clients themselves are
  addressed by their cluster elsewhere.
\<close>

subsection \<open>Remote clusters\<close>

record 'cc RemoteCluster =
  rcl_clusterID :: string
  rcl_contextName :: string
  rcl_secretIdentifier :: string
  rcl_host :: string
  rcl_clientConfig :: 'cc

definition GetClusterID :: "'cc RemoteCluster \<Rightarrow> string" where
  "GetClusterID rc = ToLower (rcl_clusterID rc)"

definition CreateRemoteCluster :: "string \<Rightarrow> string \<Rightarrow> string \<Rightarrow> string \<Rightarrow> 'cc \<Rightarrow> 'cc RemoteCluster" where
  "CreateRemoteCluster clusterID contextName secretIdentifier clusterHost clientConfig =
     \<lparr>rcl_clusterID = clusterID, rcl_contextName = contextName, rcl_secretIdentifier = secretIdentifier,
      rcl_host = clusterHost, rcl_clientConfig = clientConfig\<rparr>"

type_synonym 'cc rc_cache = "(string, 'cc RemoteCluster) gomap"

definition RC_AddCluster :: "'cc RemoteCluster \<Rightarrow> 'cc rc_cache \<Rightarrow> 'cc rc_cache" where
  "RC_AddCluster rc s = gm_put (GetClusterID rc) rc s"

definition RC_DeleteCluster :: "string \<Rightarrow> 'cc rc_cache \<Rightarrow> 'cc rc_cache" where
  "RC_DeleteCluster clusterID s = gm_del (ToLower clusterID) s"

definition RC_GetCluster :: "'cc rc_cache \<Rightarrow> string \<Rightarrow> 'cc RemoteCluster option" where
  "RC_GetCluster s clusterID = gm_get s (ToLower clusterID)"

definition RC_ListClusters :: "'cc rc_cache \<Rightarrow> 'cc RemoteCluster list" where
  "RC_ListClusters s = fold (\<lambda>(_, rc) l. l @ [rc]) s []"

text \<open>
  \<open>UpdateCluster\<close> stores the new value, then asserts the type of the previous one: a nil interface when
  the cluster was not there, which panics.
\<close>

definition RC_UpdateCluster ::
    "string \<Rightarrow> 'cc RemoteCluster \<Rightarrow> 'cc rc_cache \<Rightarrow> (('cc RemoteCluster \<times> bool) \<times> 'cc rc_cache) option" where
  "RC_UpdateCluster clusterID rc s =
     (case gm_get s (ToLower clusterID) of
        None \<Rightarrow> None
      | Some prev \<Rightarrow> Some ((prev, True), gm_put (ToLower clusterID) rc s))"

definition RC_Reset :: "'cc rc_cache" where "RC_Reset = []"

subsection \<open>Controllers\<close>

record ControllerContext =
  cctx_WorkerCtx :: "nat list"
  cctx_StopCh :: "nat option"

type_synonym ctlr_cache = "(string, ControllerContext) gomap"

definition CtlrCache_Register :: "string \<Rightarrow> ControllerContext \<Rightarrow> ctlr_cache \<Rightarrow> ctlr_cache" where
  "CtlrCache_Register name ctx s = gm_put (ToLower name) ctx s"

definition CtlrCache_DeRegister :: "string \<Rightarrow> ctlr_cache \<Rightarrow> ctlr_cache" where
  "CtlrCache_DeRegister name s = gm_del (ToLower name) s"

definition CtlrCache_List :: "ctlr_cache \<Rightarrow> ctlr_cache" where
  "CtlrCache_List s = fold (\<lambda>(k, v). gm_put k v) s []"

definition CtlrCache_GetStopCh :: "ctlr_cache \<Rightarrow> string \<Rightarrow> ControllerContext" where
  "CtlrCache_GetStopCh s name =
     (case gm_get s (ToLower name) of
        None \<Rightarrow> \<lparr>cctx_WorkerCtx = [], cctx_StopCh = None\<rparr>
      | Some ctx \<Rightarrow> ctx)"

definition CtlrCache_Reset :: ctlr_cache where "CtlrCache_Reset = []"

record 'cc registry =
  reg_clusters :: "'cc rc_cache"
  reg_controllers :: ctlr_cache
  reg_closed :: "nat set"
  reg_next :: nat

text \<open>\<open>close\<close> of a stop channel: a nil or closed channel panics.\<close>

definition close_stop :: "nat option \<Rightarrow> 'cc registry \<Rightarrow> 'cc registry option" where
  "close_stop ch reg =
     (case ch of
        None \<Rightarrow> None
      | Some n \<Rightarrow> if n \<in> reg_closed reg then None else Some (reg\<lparr>reg_closed := insert n (reg_closed reg)\<rparr>))"

text \<open>
  What \<open>Controller.Run\<close> registers: a fresh stop channel and one worker context per worker.  A controller
  whose client cannot be built is not created.
\<close>

definition start_controller :: "int \<Rightarrow> string \<Rightarrow> 'cc registry \<Rightarrow> 'cc registry" where
  "start_controller workers name reg =
     reg\<lparr>reg_controllers := CtlrCache_Register name
           \<lparr>cctx_WorkerCtx = [0..<nat workers], cctx_StopCh = Some (reg_next reg)\<rparr> (reg_controllers reg),
         reg_next := reg_next reg + 1\<rparr>"

definition StopAllControllers :: "'cc registry \<Rightarrow> 'cc registry option" where
  "StopAllControllers reg =
     foreach (\<lambda>(name, ctx). close_stop (cctx_StopCh ctx)) (reg_controllers reg) reg"

subsection \<open>The resolver\<close>

record ('cc, 'rest) loader =
  ld_GetKubeConfig :: "string \<Rightarrow> string \<Rightarrow> string + string"
  ld_Load :: "string \<Rightarrow> string + 'cc"
  ld_CurrentContext :: "'cc \<Rightarrow> string + string"
  ld_ClientConfig :: "'cc \<Rightarrow> string + 'rest"
  ld_Host :: "'rest \<Rightarrow> string"
  ld_K8sClient :: "'rest \<Rightarrow> string option"
  ld_IstioClient :: "'rest \<Rightarrow> string option"
  ld_ArgoClient :: "'rest \<Rightarrow> string option"
  ld_AdmiralClient :: "'rest \<Rightarrow> string option"

text \<open>
  \<open>Load\<close> followed by \<open>DefaultClientConfig\<close> is \<open>ld_Load\<close>; each client constructor answers an error or
  nothing.  The errors of the source carry the step and the cause.
\<close>

definition ResolveConfig ::
    "('cc, 'rest) loader \<Rightarrow> string \<Rightarrow> string \<Rightarrow> string \<Rightarrow> string + 'cc RemoteCluster" where
  "ResolveConfig ld secretKey secretIdentifier secretValue =
     (case ld_GetKubeConfig ld secretKey secretValue of
        Inl err \<Rightarrow> Inl (''error resolving kubeconfig for secret '' @ secretKey @ '': '' @ err)
      | Inr kubeConfig \<Rightarrow>
     (case ld_Load ld kubeConfig of
        Inl err \<Rightarrow> Inl (''error loading kubeconfig for secret '' @ secretKey @ '': '' @ err)
      | Inr clientConfig \<Rightarrow>
     (case ld_CurrentContext ld clientConfig of
        Inl err \<Rightarrow> Inl (''error getting raw config from client config: '' @ err)
      | Inr currentContext \<Rightarrow>
     (case ld_ClientConfig ld clientConfig of
        Inl err \<Rightarrow> Inl (''error creating rest config from client config for secret '' @ secretKey @ '': '' @ err)
      | Inr restConfig \<Rightarrow>
     (case ld_K8sClient ld restConfig of
        Some err \<Rightarrow> Inl (''error creating client from rest config for secret '' @ secretKey @ '': '' @ err)
      | None \<Rightarrow>
     (case ld_IstioClient ld restConfig of
        Some err \<Rightarrow> Inl (''error creating istio client from config: '' @ err)
      | None \<Rightarrow>
     (case ld_ArgoClient ld restConfig of
        Some err \<Rightarrow> Inl (''error creating argo client from config: '' @ err)
      | None \<Rightarrow>
     (case ld_AdmiralClient ld restConfig of
        Some err \<Rightarrow> Inl (''error creating admiral client from config: '' @ err)
      | None \<Rightarrow> Inr (CreateRemoteCluster secretKey currentContext secretIdentifier
          (ld_Host ld restConfig) clientConfig)))))))))"

text \<open>\<open>NewServiceController\<close> and its siblings name the controller after the context, or the host.\<close>

definition controller_name :: "string \<Rightarrow> string \<Rightarrow> string \<Rightarrow> string" where
  "controller_name kind name host = kind @ ''/'' @ (if length name > 0 then name else host)"

definition NewController ::
    "NaavikArgs \<Rightarrow> string \<Rightarrow> string \<Rightarrow> string \<Rightarrow> string option \<Rightarrow> 'cc registry \<Rightarrow> 'cc registry" where
  "NewController p kind name host clientErr reg =
     (case clientErr of
        Some _ \<Rightarrow> reg
      | None \<Rightarrow> start_controller (WorkerConcurrency p) (controller_name kind name host) reg)"

definition SecretControllerNameValue :: string where
  "SecretControllerNameValue = ''secret-controller''"
definition TrafficConfigControllerNameValue :: string where
  "TrafficConfigControllerNameValue = ''traffic-config-controller''"
definition DependencyControllerNameValue :: string where
  "DependencyControllerNameValue = ''dependency-controller''"

definition NewServiceController ::
    "NaavikArgs \<Rightarrow> ('cc, 'rest) loader \<Rightarrow> string \<Rightarrow> 'rest \<Rightarrow> 'cc registry \<Rightarrow> 'cc registry" where
  "NewServiceController p ld name cfg =
     NewController p ''service-controller'' name (ld_Host ld cfg) (ld_K8sClient ld cfg)"

definition NewDeploymentController ::
    "NaavikArgs \<Rightarrow> ('cc, 'rest) loader \<Rightarrow> string \<Rightarrow> 'rest \<Rightarrow> 'cc registry \<Rightarrow> 'cc registry" where
  "NewDeploymentController p ld name cfg =
     NewController p ''deployment-controller'' name (ld_Host ld cfg) (ld_K8sClient ld cfg)"

definition NewRolloutsController ::
    "NaavikArgs \<Rightarrow> ('cc, 'rest) loader \<Rightarrow> string \<Rightarrow> 'rest \<Rightarrow> 'cc registry \<Rightarrow> 'cc registry" where
  "NewRolloutsController p ld name cfg =
     NewController p ''rollouts-controller'' name (ld_Host ld cfg) (ld_ArgoClient ld cfg)"

definition NewSecretController ::
    "NaavikArgs \<Rightarrow> ('cc, 'rest) loader \<Rightarrow> string \<Rightarrow> 'rest \<Rightarrow> 'cc registry \<Rightarrow> 'cc registry" where
  "NewSecretController p ld name cfg =
     NewController p SecretControllerNameValue name (ld_Host ld cfg) (ld_K8sClient ld cfg)"

definition NewTrafficConfigController ::
    "NaavikArgs \<Rightarrow> ('cc, 'rest) loader \<Rightarrow> string \<Rightarrow> 'rest \<Rightarrow> 'cc registry \<Rightarrow> 'cc registry" where
  "NewTrafficConfigController p ld name cfg =
     NewController p TrafficConfigControllerNameValue name (ld_Host ld cfg) (ld_AdmiralClient ld cfg)"

definition NewDependencyController ::
    "NaavikArgs \<Rightarrow> ('cc, 'rest) loader \<Rightarrow> string \<Rightarrow> 'rest \<Rightarrow> 'cc registry \<Rightarrow> 'cc registry" where
  "NewDependencyController p ld name cfg =
     NewController p DependencyControllerNameValue name (ld_Host ld cfg) (ld_AdmiralClient ld cfg)"

text \<open>
  \<open>StartControllers\<close> of \<open>internal/bootstrap/controllers.go\<close>: the three controllers of the main cluster,
  named after its host.  A config resolver other than the default one is fatal (\<open>None\<close>).
\<close>

definition StartControllers ::
    "NaavikArgs \<Rightarrow> ('cc, 'rest) loader \<Rightarrow> 'rest \<Rightarrow> 'cc registry \<Rightarrow> 'cc registry option" where
  "StartControllers p ld cfg reg =
     (let host = ld_Host ld cfg in
      if ConfigResolver p \<noteq> ''secret'' then None
      else Some (NewTrafficConfigController p ld host cfg
        (NewDependencyController p ld host cfg (NewSecretController p ld host cfg reg))))"

definition StartRemoteClusterControllers ::
    "NaavikArgs \<Rightarrow> ('cc, 'rest) loader \<Rightarrow> 'cc RemoteCluster \<Rightarrow> 'cc registry \<Rightarrow> 'cc registry" where
  "StartRemoteClusterControllers p ld cluster reg =
     (case ld_ClientConfig ld (rcl_clientConfig cluster) of
        Inl _ \<Rightarrow> reg
      | Inr clientConfig \<Rightarrow>
     (case ld_CurrentContext ld (rcl_clientConfig cluster) of
        Inl _ \<Rightarrow> reg
      | Inr currentContext \<Rightarrow>
        (let reg1 = NewServiceController p ld currentContext clientConfig reg;
             reg2 = NewDeploymentController p ld currentContext clientConfig reg1
         in if ArgoRolloutsEnabled p then NewRolloutsController p ld currentContext clientConfig reg2
            else reg2)))"

text \<open>Which controllers a cluster's stop concerns: the part after the first slash contains the id.\<close>

definition stops_controller :: "string \<Rightarrow> string \<Rightarrow> bool" where
  "stops_controller clusterID controllerName =
     (let parts = SplitN2 (CHR ''/'') controllerName in
      length parts = 2 \<and> Contains (parts ! 1) clusterID
      \<and> SecretControllerNameValue \<noteq> parts ! 0 \<and> TrafficConfigControllerNameValue \<noteq> parts ! 0
      \<and> DependencyControllerNameValue \<noteq> parts ! 0)"

text \<open>The goroutine of one controller: deregister it, close its channel, and forget the cluster.\<close>

definition stop_controller ::
    "string \<Rightarrow> string \<times> ControllerContext \<Rightarrow> 'cc registry \<Rightarrow> 'cc registry option" where
  "stop_controller clusterID = (\<lambda>(name, ctx) reg. do {
     let reg1 = reg\<lparr>reg_controllers := CtlrCache_DeRegister name (reg_controllers reg)\<rparr>;
     reg2 \<leftarrow> close_stop (cctx_StopCh ctx) reg1;
     Some (reg2\<lparr>reg_clusters := RC_DeleteCluster clusterID (reg_clusters reg2)\<rparr>)
   })"

definition StopRemoteClusterControllers :: "string \<Rightarrow> 'cc registry \<Rightarrow> 'cc registry option" where
  "StopRemoteClusterControllers clusterID reg =
     foreach (\<lambda>(name, ctx) r. if stops_controller clusterID name then stop_controller clusterID (name, ctx) r else Some r)
       (reg_controllers reg) reg"

definition AddRemoteClusterToCache :: "'cc RemoteCluster \<Rightarrow> 'cc registry \<Rightarrow> 'cc registry" where
  "AddRemoteClusterToCache rc reg = reg\<lparr>reg_clusters := RC_AddCluster rc (reg_clusters reg)\<rparr>"

definition GetRemoteClusterFromCache :: "'cc registry \<Rightarrow> string \<Rightarrow> 'cc RemoteCluster option" where
  "GetRemoteClusterFromCache reg clusterID = RC_GetCluster (reg_clusters reg) clusterID"

definition DeleteRemoteClusterFromCache :: "string \<Rightarrow> 'cc registry \<Rightarrow> 'cc registry" where
  "DeleteRemoteClusterFromCache clusterID reg =
     reg\<lparr>reg_clusters := RC_DeleteCluster clusterID (reg_clusters reg)\<rparr>"

subsection \<open>The secret handler\<close>

definition getSecretIdentifier :: "string \<Rightarrow> string \<Rightarrow> string" where
  "getSecretIdentifier namespace name = namespace @ ''/'' @ name"

definition secret_id :: "Secret \<Rightarrow> string" where
  "secret_id secret = getSecretIdentifier (om_Namespace (sec_Meta secret)) (om_Name (sec_Meta secret))"

text \<open>The loop body of \<open>Added\<close>, for one entry of the secret's data.\<close>

definition secret_add_cluster ::
    "NaavikArgs \<Rightarrow> ('cc, 'rest) loader \<Rightarrow> string \<Rightarrow> string \<times> string \<Rightarrow> 'cc registry \<Rightarrow> 'cc registry" where
  "secret_add_cluster p ld secretIdentifier = (\<lambda>(clusterID, kubeConfig) reg.
     (case GetRemoteClusterFromCache reg clusterID of
        None \<Rightarrow>
          (case ResolveConfig ld clusterID secretIdentifier kubeConfig of
             Inl _ \<Rightarrow> reg
           | Inr cluster \<Rightarrow> StartRemoteClusterControllers p ld cluster (AddRemoteClusterToCache cluster reg))
      | Some _ \<Rightarrow> reg))"

text \<open>The object handed to a handler is \<open>None\<close> when its cast to the expected type fails.\<close>

definition Secret_Added ::
    "NaavikArgs \<Rightarrow> ('cc, 'rest) loader \<Rightarrow> Secret option \<Rightarrow> nat option
       \<Rightarrow> 'cc registry \<times> chans \<Rightarrow> (EventStatus \<times> 'cc registry \<times> chans) option" where
  "Secret_Added p ld obj statusChan = (\<lambda>(reg, cs).
     let reg' =
       (case obj of
          None \<Rightarrow> reg
        | Some secret \<Rightarrow>
            if \<not> IsSyncEnabled p (sec_Meta secret) then reg
            else fold (secret_add_cluster p ld (secret_id secret)) (sec_Data secret) reg)
     in do { (st, cs') \<leftarrow> SkipClose NewEventProcessStatus statusChan cs; Some (st, reg', cs') })"

definition secret_drop_clusters :: "Secret \<Rightarrow> 'cc registry \<Rightarrow> 'cc registry option" where
  "secret_drop_clusters secret reg =
     foreach (\<lambda>(clusterID, _) r. do {
       r1 \<leftarrow> StopRemoteClusterControllers clusterID r;
       Some (DeleteRemoteClusterFromCache clusterID r1)
     }) (sec_Data secret) reg"

definition Secret_Updated ::
    "NaavikArgs \<Rightarrow> ('cc, 'rest) loader \<Rightarrow> Secret option \<Rightarrow> Secret option \<Rightarrow> nat option
       \<Rightarrow> 'cc registry \<times> chans \<Rightarrow> (EventStatus \<times> 'cc registry \<times> chans) option" where
  "Secret_Updated p ld newObj oldObj statusChan = (\<lambda>(reg, cs).
     (case (newObj, oldObj) of
        (Some newSecret, Some oldSecret) \<Rightarrow>
          if IsSyncEnabled p (sec_Meta oldSecret) \<and> \<not> IsSyncEnabled p (sec_Meta newSecret) then do {
            reg' \<leftarrow> secret_drop_clusters newSecret reg;
            (st, cs') \<leftarrow> SkipClose NewEventProcessStatus statusChan cs;
            Some (st, reg', cs')
          }
          else Secret_Added p ld newObj statusChan (reg, cs)
      | _ \<Rightarrow> do { (st, cs') \<leftarrow> SkipClose NewEventProcessStatus statusChan cs; Some (st, reg, cs') }))"

definition Secret_Deleted ::
    "Secret option \<Rightarrow> nat option \<Rightarrow> 'cc registry \<times> chans \<Rightarrow> (EventStatus \<times> 'cc registry \<times> chans) option" where
  "Secret_Deleted obj statusChan = (\<lambda>(reg, cs). do {
     reg' \<leftarrow> (case obj of None \<Rightarrow> Some reg | Some secret \<Rightarrow> secret_drop_clusters secret reg);
     (st, cs') \<leftarrow> SkipClose NewEventProcessStatus statusChan cs;
     Some (st, reg', cs')
   })"

subsection \<open>The registry invariant\<close>

text \<open>
  Clusters are stored under their own id; a registered controller has a lower-case name and an open
  stop channel that no other controller has; channel numbers not given out yet are not closed.
\<close>

definition reg_ok :: "'cc registry \<Rightarrow> bool" where
  "reg_ok reg \<longleftrightarrow> gm_ok (reg_clusters reg) \<and> gm_ok (reg_controllers reg)
     \<and> (\<forall>k rc. gm_get (reg_clusters reg) k = Some rc \<longrightarrow> GetClusterID rc = k)
     \<and> (\<forall>name ctx. gm_get (reg_controllers reg) name = Some ctx \<longrightarrow> ToLower name = name
         \<and> (\<exists>n. cctx_StopCh ctx = Some n \<and> n < reg_next reg \<and> n \<notin> reg_closed reg))
     \<and> (\<forall>a b ca cb. gm_get (reg_controllers reg) a = Some ca \<and> gm_get (reg_controllers reg) b = Some cb
         \<and> cctx_StopCh ca = cctx_StopCh cb \<longrightarrow> a = b)
     \<and> (\<forall>n \<in> reg_closed reg. n < reg_next reg)"

definition emptyRegistry :: "'cc registry" where
  "emptyRegistry = \<lparr>reg_clusters = RC_Reset, reg_controllers = CtlrCache_Reset, reg_closed = {}, reg_next = 0\<rparr>"

lemma reg_ok_empty [ok_intros]: "reg_ok emptyRegistry"
  by (simp add: reg_ok_def emptyRegistry_def RC_Reset_def CtlrCache_Reset_def)

lemma reg_ok_ctlr:
  "reg_ok reg \<Longrightarrow> gm_get (reg_controllers reg) name = Some ctx \<Longrightarrow> ToLower name = name
     \<and> (\<exists>n. cctx_StopCh ctx = Some n \<and> n < reg_next reg \<and> n \<notin> reg_closed reg)"
  unfolding reg_ok_def by blast

lemma reg_ok_ctlr_bound:
  "reg_ok reg \<Longrightarrow> gm_get (reg_controllers reg) name = Some ctx \<Longrightarrow> cctx_StopCh ctx = Some n \<Longrightarrow> n < reg_next reg"
  using reg_ok_ctlr by fastforce

lemma reg_ok_closed: "reg_ok reg \<Longrightarrow> n \<in> reg_closed reg \<Longrightarrow> n < reg_next reg"
  unfolding reg_ok_def by blast

lemma reg_ok_start [ok_intros]:
  assumes "reg_ok reg"
  shows "reg_ok (start_controller n name reg)"
proof -
  have fresh: "\<forall>a ca. gm_get (reg_controllers reg) a = Some ca \<longrightarrow> cctx_StopCh ca \<noteq> Some (reg_next reg)"
    using assms unfolding reg_ok_def by force
  have "reg_next reg \<notin> reg_closed reg" using assms by (auto simp: reg_ok_def)
  with fresh assms show ?thesis
    by (auto simp: reg_ok_def start_controller_def CtlrCache_Register_def less_Suc_eq split: if_splits)
      (metis fresh)+
qed

lemma reg_ok_New [ok_intros]: "reg_ok reg \<Longrightarrow> reg_ok (NewController p kind name host err reg)"
  by (simp add: NewController_def reg_ok_start split: option.split)

lemma reg_ok_StartRemote [ok_intros]: "reg_ok reg \<Longrightarrow> reg_ok (StartRemoteClusterControllers p ld rc reg)"
  by (simp add: StartRemoteClusterControllers_def NewServiceController_def NewDeploymentController_def
      NewRolloutsController_def reg_ok_New Let_def split: sum.split)

lemma reg_ok_AddCluster [ok_intros]: "reg_ok reg \<Longrightarrow> reg_ok (AddRemoteClusterToCache rc reg)"
  by (simp add: reg_ok_def AddRemoteClusterToCache_def RC_AddCluster_def)

lemma reg_ok_DeleteCluster [ok_intros]: "reg_ok reg \<Longrightarrow> reg_ok (DeleteRemoteClusterFromCache c reg)"
  by (simp add: reg_ok_def DeleteRemoteClusterFromCache_def RC_DeleteCluster_def)

lemma clusters_New [simp]: "reg_clusters (NewController p kind name host err reg) = reg_clusters reg"
  by (simp add: NewController_def start_controller_def split: option.split)

lemma clusters_StartRemote [simp]: "reg_clusters (StartRemoteClusterControllers p ld rc reg) = reg_clusters reg"
  by (simp add: StartRemoteClusterControllers_def NewServiceController_def NewDeploymentController_def
      NewRolloutsController_def Let_def split: sum.split)

subsection \<open>Stopping controllers\<close>

lemma stop_controllers_effect:
  assumes "distinct (map fst xs)" "distinct (map (cctx_StopCh \<circ> snd) xs)"
    and "\<forall>(name, ctx) \<in> set xs. ToLower name = name \<and> (\<exists>n. cctx_StopCh ctx = Some n \<and> n \<notin> reg_closed reg)"
  obtains reg' where "foreach (stop_controller c) xs reg = Some reg'"
    "gm_get (reg_controllers reg') = (\<lambda>name. if name \<in> fst ` set xs then None else gm_get (reg_controllers reg) name)"
    "gm_ok (reg_controllers reg) \<Longrightarrow> gm_ok (reg_controllers reg')"
    "reg_closed reg' = reg_closed reg \<union> {n. \<exists>x \<in> set xs. cctx_StopCh (snd x) = Some n}"
    "reg_clusters reg' = (if xs = [] then reg_clusters reg else RC_DeleteCluster c (reg_clusters reg))"
    "reg_next reg' = reg_next reg"
  using assms
proof (induction xs arbitrary: reg thesis)
  case Nil
  show ?case by (rule Nil(1) [of reg]) simp_all
next
  case (Cons x xs)
  obtain name ctx where x: "x = (name, ctx)" by fastforce
  obtain n where n: "cctx_StopCh ctx = Some n" "n \<notin> reg_closed reg" "ToLower name = name"
    using Cons.prems(4) by (auto simp: x)
  let ?reg = "reg\<lparr>reg_controllers := gm_del name (reg_controllers reg),
    reg_closed := insert n (reg_closed reg), reg_clusters := RC_DeleteCluster c (reg_clusters reg)\<rparr>"
  have one: "stop_controller c x reg = Some ?reg"
    using n by (simp add: x stop_controller_def close_stop_def CtlrCache_DeRegister_def Let_def)
  have "\<forall>(name, ctx) \<in> set xs. ToLower name = name \<and> (\<exists>n. cctx_StopCh ctx = Some n \<and> n \<notin> reg_closed ?reg)"
  proof -
    have "cctx_StopCh (snd y) \<noteq> Some n" if "y \<in> set xs" for y
      using Cons.prems(3) that n(1) by (force simp: x)
    then show ?thesis using Cons.prems(4) by fastforce
  qed
  with Cons.prems(2,3) obtain reg' where r: "foreach (stop_controller c) xs ?reg = Some reg'"
    "gm_get (reg_controllers reg') = (\<lambda>name. if name \<in> fst ` set xs then None else gm_get (reg_controllers ?reg) name)"
    "gm_ok (reg_controllers ?reg) \<Longrightarrow> gm_ok (reg_controllers reg')"
    "reg_closed reg' = reg_closed ?reg \<union> {n. \<exists>x \<in> set xs. cctx_StopCh (snd x) = Some n}"
    "reg_clusters reg' = (if xs = [] then reg_clusters ?reg else RC_DeleteCluster c (reg_clusters ?reg))"
    "reg_next reg' = reg_next ?reg"
    using Cons.IH [of ?reg] by auto
  have idem: "RC_DeleteCluster c (RC_DeleteCluster c m) = RC_DeleteCluster c m" for m :: "'a rc_cache"
    by (simp add: RC_DeleteCluster_def gm_del_def AList.delete_eq)
  show ?case
  proof (rule Cons.prems(1) [of reg'])
    show "foreach (stop_controller c) (x # xs) reg = Some reg'" using one r(1) by simp
    show "gm_get (reg_controllers reg') = (\<lambda>name. if name \<in> fst ` set (x # xs) then None
        else gm_get (reg_controllers reg) name)" by (auto simp: r(2) x fun_eq_iff)
    show "reg_closed reg' = reg_closed reg \<union> {n. \<exists>x \<in> set (x # xs). cctx_StopCh (snd x) = Some n}"
      using n(1) by (auto simp: r(4) x)
    show "reg_clusters reg' = (if x # xs = [] then reg_clusters reg else RC_DeleteCluster c (reg_clusters reg))"
      by (simp add: r(5) idem)
  qed (use r(3,6) in simp_all)
qed

lemma reg_ok_pairs:
  assumes "reg_ok reg"
  shows "distinct (map fst (filter P (reg_controllers reg)))"
    "distinct (map (cctx_StopCh \<circ> snd) (filter P (reg_controllers reg)))"
    "\<forall>(name, ctx) \<in> set (filter P (reg_controllers reg)). ToLower name = name
       \<and> (\<exists>n. cctx_StopCh ctx = Some n \<and> n \<notin> reg_closed reg)"
proof -
  have ok: "gm_ok (reg_controllers reg)" using assms by (simp add: reg_ok_def)
  note mem = gm.pairs_get [OF ok]
  show d: "distinct (map fst (filter P (reg_controllers reg)))"
    using ok by (simp add: gm_ok_def distinct_map_filter)
  have "inj_on (cctx_StopCh \<circ> snd) (set (reg_controllers reg))"
  proof (rule inj_onI)
    fix x y
    assume xy: "x \<in> set (reg_controllers reg)" "y \<in> set (reg_controllers reg)"
      and eq: "(cctx_StopCh \<circ> snd) x = (cctx_StopCh \<circ> snd) y"
    from xy have g: "gm_get (reg_controllers reg) (fst x) = Some (snd x)"
      "gm_get (reg_controllers reg) (fst y) = Some (snd y)"
      using mem by (metis prod.collapse)+
    then have "fst x = fst y" using assms eq unfolding reg_ok_def comp_def by blast
    with g show "x = y" by (simp add: prod_eq_iff)
  qed
  then have "inj_on (cctx_StopCh \<circ> snd) (set (filter P (reg_controllers reg)))"
    by (rule inj_on_subset) auto
  moreover have "distinct (filter P (reg_controllers reg))" using d by (simp add: distinct_map)
  ultimately show "distinct (map (cctx_StopCh \<circ> snd) (filter P (reg_controllers reg)))"
    by (simp add: distinct_map)
  show "\<forall>(name, ctx) \<in> set (filter P (reg_controllers reg)). ToLower name = name
       \<and> (\<exists>n. cctx_StopCh ctx = Some n \<and> n \<notin> reg_closed reg)"
    using reg_ok_ctlr [OF assms] mem by fastforce
qed

lemma Stop_eq:
  "StopRemoteClusterControllers c reg =
     foreach (stop_controller c) (filter (\<lambda>x. stops_controller c (fst x)) (reg_controllers reg)) reg"
proof -
  have "(\<lambda>(name, ctx) r. if stops_controller c name then stop_controller c (name, ctx) r else Some r)
      = (\<lambda>x (r :: 'a registry). if stops_controller c (fst x) then stop_controller c x r else Some r)"
    by (auto simp: fun_eq_iff)
  then show ?thesis by (simp add: StopRemoteClusterControllers_def foreach_filter)
qed

text \<open>The stop of a cluster on a well-formed registry, in one lemma.\<close>

lemma Stop_effect:
  assumes "reg_ok reg"
  obtains reg' where "StopRemoteClusterControllers c reg = Some reg'" "reg_ok reg'"
    "gm_get (reg_controllers reg') = (\<lambda>name. if stops_controller c name then None else gm_get (reg_controllers reg) name)"
    "reg_closed reg' = reg_closed reg \<union>
       {n. \<exists>name ctx. gm_get (reg_controllers reg) name = Some ctx \<and> stops_controller c name \<and> cctx_StopCh ctx = Some n}"
    "reg_clusters reg' = (if \<exists>name. gm_get (reg_controllers reg) name \<noteq> None \<and> stops_controller c name
       then RC_DeleteCluster c (reg_clusters reg) else reg_clusters reg)"
    "reg_next reg' = reg_next reg"
proof -
  let ?xs = "filter (\<lambda>x. stops_controller c (fst x)) (reg_controllers reg)"
  have ok: "gm_ok (reg_controllers reg)" using assms by (simp add: reg_ok_def)
  have mem: "(name, ctx) \<in> set ?xs \<longleftrightarrow> gm_get (reg_controllers reg) name = Some ctx \<and> stops_controller c name"
    for name ctx using gm.pairs_get [OF ok] by auto
  obtain reg' where r: "foreach (stop_controller c) ?xs reg = Some reg'"
    "gm_get (reg_controllers reg') = (\<lambda>name. if name \<in> fst ` set ?xs then None else gm_get (reg_controllers reg) name)"
    "gm_ok (reg_controllers reg) \<Longrightarrow> gm_ok (reg_controllers reg')"
    "reg_closed reg' = reg_closed reg \<union> {n. \<exists>x \<in> set ?xs. cctx_StopCh (snd x) = Some n}"
    "reg_clusters reg' = (if ?xs = [] then reg_clusters reg else RC_DeleteCluster c (reg_clusters reg))"
    "reg_next reg' = reg_next reg"
    using stop_controllers_effect [OF reg_ok_pairs [OF assms, of "\<lambda>x. stops_controller c (fst x)"], of c] by blast
  have gone: "gm_get (reg_controllers reg') =
      (\<lambda>name. if stops_controller c name then None else gm_get (reg_controllers reg) name)"
  proof
    fix name
    show "gm_get (reg_controllers reg') name =
        (if stops_controller c name then None else gm_get (reg_controllers reg) name)"
      using gm.keys_dom [OF ok] by (auto simp: r(2) image_iff mem split: if_splits) force
  qed
  have closed: "reg_closed reg' = reg_closed reg \<union>
      {n. \<exists>name ctx. gm_get (reg_controllers reg) name = Some ctx \<and> stops_controller c name \<and> cctx_StopCh ctx = Some n}"
    unfolding r(4) using mem by fastforce
  have none: "?xs = [] \<longleftrightarrow> \<not> (\<exists>name. gm_get (reg_controllers reg) name \<noteq> None \<and> stops_controller c name)"
    using mem by (metis (no_types, lifting) list.set_intros(1) neq_Nil_conv not_Some_eq prod.collapse
        empty_iff list.set(1))
  have "gm_ok (reg_clusters reg')" using assms by (simp add: r(5) reg_ok_def RC_DeleteCluster_def)
  moreover have "\<forall>k rc. gm_get (reg_clusters reg') k = Some rc \<longrightarrow> GetClusterID rc = k"
    using assms by (auto simp: r(5) reg_ok_def RC_DeleteCluster_def)
  moreover have "\<exists>n. cctx_StopCh ctx = Some n \<and> n < reg_next reg \<and> n \<notin> reg_closed reg'"
    if "gm_get (reg_controllers reg') name = Some ctx" for name ctx
  proof -
    have keep: "gm_get (reg_controllers reg) name = Some ctx" "\<not> stops_controller c name"
      using that by (auto simp: gone split: if_splits)
    with assms obtain n where n: "cctx_StopCh ctx = Some n" "n < reg_next reg" "n \<notin> reg_closed reg"
      unfolding reg_ok_def by blast
    have "n \<notin> reg_closed reg'"
    proof
      assume "n \<in> reg_closed reg'"
      then obtain name' ctx' where "gm_get (reg_controllers reg) name' = Some ctx'" "stops_controller c name'"
        "cctx_StopCh ctx' = Some n" using n(3) by (auto simp: closed)
      then have "name' = name" using assms keep(1) n(1) unfolding reg_ok_def by metis
      with keep(2) \<open>stops_controller c name'\<close> show False by simp
    qed
    with n show ?thesis by blast
  qed
  moreover have "\<forall>n \<in> reg_closed reg'. n < reg_next reg"
    using reg_ok_closed [OF assms] reg_ok_ctlr_bound [OF assms] by (auto simp: closed)
  ultimately have "reg_ok reg'"
    using assms r(3,6) unfolding reg_ok_def [of reg'] by (auto simp: gone reg_ok_def split: if_splits)
  moreover have "reg_clusters reg' = (if \<exists>name. gm_get (reg_controllers reg) name \<noteq> None \<and> stops_controller c name
      then RC_DeleteCluster c (reg_clusters reg) else reg_clusters reg)"
    unfolding r(5) none by metis
  ultimately show ?thesis
    using that [of reg'] r(1,6) gone closed by (simp only: Stop_eq)
qed

lemma stop_controller_eq:
  "stop_controller c (name, ctx) reg =
     (case cctx_StopCh ctx of
        None \<Rightarrow> None
      | Some n \<Rightarrow>
          if n \<in> reg_closed reg then None
          else Some (reg\<lparr>reg_controllers := gm_del (ToLower name) (reg_controllers reg),
            reg_closed := insert n (reg_closed reg), reg_clusters := RC_DeleteCluster c (reg_clusters reg)\<rparr>))"
  by (simp add: stop_controller_def close_stop_def CtlrCache_DeRegister_def Let_def split: option.split)

lemma stop_commute:
  "Option.bind (stop_controller c x reg) (stop_controller c y) = Option.bind (stop_controller c y reg) (stop_controller c x)"
proof -
  obtain a ca b cb where xy: "x = (a, ca)" "y = (b, cb)" by fastforce
  have del: "gm_del j (gm_del k m) = gm_del k (gm_del j m)" for j k and m :: ctlr_cache
    by (simp add: gm_del_def AList.delete_eq filter_filter conj_commute)
  show ?thesis
    unfolding xy stop_controller_eq
    by (cases "cctx_StopCh ca"; cases "cctx_StopCh cb")
      (simp_all add: stop_controller_eq insert_commute del [of "ToLower a" "ToLower b"])
qed

text \<open>For the controllers of remote clusters, what matters is the part after the slash.\<close>

lemma stops_remote:
  assumes "kind \<in> {''service-controller'', ''deployment-controller'', ''rollouts-controller''}"
  shows "stops_controller c (kind @ ''/'' @ name) \<longleftrightarrow> Contains name c"
proof -
  have "CHR ''/'' \<notin> set kind" using assms by auto
  then have "takeWhile (\<lambda>x. x \<noteq> CHR ''/'') (kind @ ''/'' @ name) = kind"
    "dropWhile (\<lambda>x. x \<noteq> CHR ''/'') (kind @ ''/'' @ name) = ''/'' @ name"
    by (subst takeWhile_append2 dropWhile_append2; auto)+
  then show ?thesis
    using assms by (auto simp: stops_controller_def SplitN2_def Let_def SecretControllerNameValue_def
        TrafficConfigControllerNameValue_def DependencyControllerNameValue_def)
qed

text \<open>What a drop of the clusters of a secret leaves in the registry.\<close>

lemma drop_clusters_effect:
  assumes "reg_ok reg"
  obtains reg' where "secret_drop_clusters secret reg = Some reg'" "reg_ok reg'"
    "gm_get (reg_clusters reg') = (\<lambda>k. if k \<in> ToLower ` fst ` set (sec_Data secret) then None
       else gm_get (reg_clusters reg) k)"
    "gm_get (reg_controllers reg') = (\<lambda>name. if \<exists>c \<in> fst ` set (sec_Data secret). stops_controller c name
       then None else gm_get (reg_controllers reg) name)"
proof -
  have "\<exists>reg'. foreach (\<lambda>(clusterID, _) r. do {
       r1 \<leftarrow> StopRemoteClusterControllers clusterID r;
       Some (DeleteRemoteClusterFromCache clusterID r1)
     }) xs reg = Some reg' \<and> reg_ok reg'
    \<and> gm_get (reg_clusters reg') = (\<lambda>k. if k \<in> ToLower ` fst ` set xs then None else gm_get (reg_clusters reg) k)
    \<and> gm_get (reg_controllers reg') = (\<lambda>name. if \<exists>c \<in> fst ` set xs. stops_controller c name
       then None else gm_get (reg_controllers reg) name)"
    if "reg_ok reg" for xs :: "(string \<times> string) list" and reg :: "'a registry"
    using that
  proof (induction xs arbitrary: reg)
    case Nil
    then show ?case by simp
  next
    case (Cons x xs)
    obtain c v where x: "x = (c, v)" by fastforce
    obtain r1 where r1: "StopRemoteClusterControllers c reg = Some r1" "reg_ok r1"
      "gm_get (reg_controllers r1) = (\<lambda>name. if stops_controller c name then None else gm_get (reg_controllers reg) name)"
      "reg_clusters r1 = (if \<exists>name. gm_get (reg_controllers reg) name \<noteq> None \<and> stops_controller c name
         then RC_DeleteCluster c (reg_clusters reg) else reg_clusters reg)"
      by (rule Stop_effect [OF Cons.prems, of c])
    let ?r = "DeleteRemoteClusterFromCache c r1"
    have clusters: "gm_get (reg_clusters ?r) = (\<lambda>k. if k = ToLower c then None else gm_get (reg_clusters reg) k)"
      by (auto simp: DeleteRemoteClusterFromCache_def RC_DeleteCluster_def r1(4))
    have controllers: "reg_controllers ?r = reg_controllers r1"
      by (simp add: DeleteRemoteClusterFromCache_def)
    obtain reg' where r': "foreach (\<lambda>(clusterID, _) r. do {
         r1 \<leftarrow> StopRemoteClusterControllers clusterID r;
         Some (DeleteRemoteClusterFromCache clusterID r1)
       }) xs ?r = Some reg'" "reg_ok reg'"
      "gm_get (reg_clusters reg') = (\<lambda>k. if k \<in> ToLower ` fst ` set xs then None else gm_get (reg_clusters ?r) k)"
      "gm_get (reg_controllers reg') = (\<lambda>name. if \<exists>c \<in> fst ` set xs. stops_controller c name
         then None else gm_get (reg_controllers ?r) name)"
      using Cons.IH [OF reg_ok_DeleteCluster [OF r1(2)]] by blast
    have "gm_get (reg_clusters reg') = (\<lambda>k. if k \<in> ToLower ` fst ` set (x # xs) then None else gm_get (reg_clusters reg) k)"
      unfolding r'(3) clusters x by (rule ext) simp
    moreover have "gm_get (reg_controllers reg') = (\<lambda>name. if \<exists>c \<in> fst ` set (x # xs). stops_controller c name
         then None else gm_get (reg_controllers reg) name)"
      unfolding r'(4) controllers r1(3) x by (rule ext) simp
    moreover have "foreach (\<lambda>(clusterID, _) r. do {
         r1 \<leftarrow> StopRemoteClusterControllers clusterID r;
         Some (DeleteRemoteClusterFromCache clusterID r1)
       }) (x # xs) reg = Some reg'"
      using r'(1) r1(1) by (simp add: x)
    ultimately show ?case using r'(2) by blast
  qed
  from this [OF assms, of "sec_Data secret"] that show ?thesis
    unfolding secret_drop_clusters_def by blast
qed

text \<open>One entry of an added secret: nothing already cached is replaced.\<close>

lemma secret_add_cluster_ok [ok_intros]: "reg_ok reg \<Longrightarrow> reg_ok (secret_add_cluster p ld sid e reg)"
  by (auto simp: secret_add_cluster_def intro: ok_intros split: prod.split option.split sum.split)

lemma ResolveConfig_fields:
  "ResolveConfig ld c sid v = Inr rc \<Longrightarrow> rcl_clusterID rc = c \<and> rcl_secretIdentifier rc = sid"
  by (auto simp: ResolveConfig_def CreateRemoteCluster_def split: sum.splits option.splits)

lemma secret_add_cluster_get:
  "gm_get (reg_clusters (secret_add_cluster p ld sid (c, v) reg)) k =
     (if k = ToLower c \<and> gm_get (reg_clusters reg) k = None
      then (case ResolveConfig ld c sid v of Inl _ \<Rightarrow> None | Inr rc \<Rightarrow> Some rc)
      else gm_get (reg_clusters reg) k)"
  by (auto simp: secret_add_cluster_def GetRemoteClusterFromCache_def RC_GetCluster_def
      AddRemoteClusterToCache_def RC_AddCluster_def GetClusterID_def
      dest: ResolveConfig_fields split: option.splits sum.splits)

subsection \<open>Properties\<close>

text \<open>
  C18: stopping the controllers of a cluster on a well-formed registry never panics.  Exactly the
  registered controllers the id matches are deregistered and have their stop channels closed; no
  controller of the main cluster (secrets, traffic configs, dependencies) is among them; the registry
  stays well formed; and the cluster is forgotten when at least one controller was stopped.
\<close>

theorem stop_remote_controllers:
  assumes "reg_ok reg"
  shows "\<exists>reg'. StopRemoteClusterControllers c reg = Some reg' \<and> reg_ok reg'
    \<and> (\<forall>name. gm_get (reg_controllers reg') name =
          (if stops_controller c name then None else gm_get (reg_controllers reg) name))
    \<and> reg_closed reg' = reg_closed reg \<union>
        {n. \<exists>name ctx. gm_get (reg_controllers reg) name = Some ctx \<and> stops_controller c name \<and> cctx_StopCh ctx = Some n}
    \<and> (\<forall>host. \<not> stops_controller c (SecretControllerNameValue @ ''/'' @ host)
        \<and> \<not> stops_controller c (TrafficConfigControllerNameValue @ ''/'' @ host)
        \<and> \<not> stops_controller c (DependencyControllerNameValue @ ''/'' @ host))
    \<and> ((\<exists>name. gm_get (reg_controllers reg) name \<noteq> None \<and> stops_controller c name)
        \<longrightarrow> GetRemoteClusterFromCache reg' c = None)"
proof -
  have main: "\<not> stops_controller c (kind @ ''/'' @ host)"
    if "CHR ''/'' \<notin> set kind"
      "kind \<in> {SecretControllerNameValue, TrafficConfigControllerNameValue, DependencyControllerNameValue}" for kind host
  proof -
    have "takeWhile (\<lambda>x. x \<noteq> CHR ''/'') (kind @ ''/'' @ host) = kind"
      using that(1) by (subst takeWhile_append2) auto
    then show ?thesis
      using that by (auto simp: stops_controller_def SplitN2_def Let_def)
  qed
  obtain reg' where r: "StopRemoteClusterControllers c reg = Some reg'" "reg_ok reg'"
    "gm_get (reg_controllers reg') = (\<lambda>name. if stops_controller c name then None else gm_get (reg_controllers reg) name)"
    "reg_closed reg' = reg_closed reg \<union>
       {n. \<exists>name ctx. gm_get (reg_controllers reg) name = Some ctx \<and> stops_controller c name \<and> cctx_StopCh ctx = Some n}"
    "reg_clusters reg' = (if \<exists>name. gm_get (reg_controllers reg) name \<noteq> None \<and> stops_controller c name
       then RC_DeleteCluster c (reg_clusters reg) else reg_clusters reg)"
    by (rule Stop_effect [OF assms])
  have "GetRemoteClusterFromCache reg' c = None"
    if "\<exists>name. gm_get (reg_controllers reg) name \<noteq> None \<and> stops_controller c name"
    using that r(5) by (simp add: GetRemoteClusterFromCache_def RC_GetCluster_def RC_DeleteCluster_def)
  moreover have "CHR ''/'' \<notin> set SecretControllerNameValue" "CHR ''/'' \<notin> set TrafficConfigControllerNameValue"
    "CHR ''/'' \<notin> set DependencyControllerNameValue"
    by (simp_all add: SecretControllerNameValue_def TrafficConfigControllerNameValue_def DependencyControllerNameValue_def)
  ultimately show ?thesis using r(1-4) main by (intro exI [of _ reg']) auto
qed

text \<open>
  The goroutines that stop the controllers of a cluster may run in any order: visiting the
  controllers in the order of any permutation of the controller map gives the same registry, or
  panics in every order.
\<close>

theorem stop_order_irrelevant:
  assumes "mset xs = mset (reg_controllers reg)"
  shows "foreach (\<lambda>(name, ctx) r. if stops_controller c name then stop_controller c (name, ctx) r else Some r) xs reg
    = StopRemoteClusterControllers c reg"
  unfolding StopRemoteClusterControllers_def
proof (rule foreach_permute [OF assms])
  fix x y :: "string \<times> ControllerContext" and s :: "'a registry"
  show "Option.bind ((\<lambda>(name, ctx) r. if stops_controller c name then stop_controller c (name, ctx) r else Some r) x s)
        ((\<lambda>(name, ctx) r. if stops_controller c name then stop_controller c (name, ctx) r else Some r) y)
      = Option.bind ((\<lambda>(name, ctx) r. if stops_controller c name then stop_controller c (name, ctx) r else Some r) y s)
        ((\<lambda>(name, ctx) r. if stops_controller c name then stop_controller c (name, ctx) r else Some r) x)"
    using stop_commute [of c x s y] by (cases x; cases y) auto
qed

lemma secret_adds_effect:
  fixes r :: "'cc registry" and ld :: "('cc, 'rest) loader"
  assumes "reg_ok r"
  shows "reg_ok (fold (secret_add_cluster p ld sid) xs r)
      \<and> (\<forall>k rc. gm_get (reg_clusters r) k = Some rc \<longrightarrow> gm_get (reg_clusters (fold (secret_add_cluster p ld sid) xs r)) k = Some rc)
      \<and> (\<forall>k rc. gm_get (reg_clusters r) k = None \<and> gm_get (reg_clusters (fold (secret_add_cluster p ld sid) xs r)) k = Some rc \<longrightarrow>
          (\<exists>(c, v) \<in> set xs. ToLower c = k \<and> ResolveConfig ld c sid v = Inr rc))"
  using assms
proof (induction xs arbitrary: r)
  case Nil
  then show ?case by auto
next
  case (Cons x xs)
  obtain c v where x: "x = (c, v)" by fastforce
  note IH = Cons.IH [OF secret_add_cluster_ok [OF Cons.prems, of p ld sid x]]
  have get: "gm_get (reg_clusters (secret_add_cluster p ld sid x r)) k = (if k = ToLower c \<and> gm_get (reg_clusters r) k = None
      then (case ResolveConfig ld c sid v of Inl _ \<Rightarrow> None | Inr rc \<Rightarrow> Some rc)
      else gm_get (reg_clusters r) k)" for k
    by (simp add: x secret_add_cluster_get)
  have keep: "gm_get (reg_clusters (fold (secret_add_cluster p ld sid) (x # xs) r)) k = Some rc" if "gm_get (reg_clusters r) k = Some rc" for k rc
    using IH that get [of k] by simp
  have new: "\<exists>(c, v) \<in> set (x # xs). ToLower c = k \<and> ResolveConfig ld c sid v = Inr rc"
    if n: "gm_get (reg_clusters r) k = None" "gm_get (reg_clusters (fold (secret_add_cluster p ld sid) (x # xs) r)) k = Some rc" for k rc
  proof (cases "gm_get (reg_clusters (secret_add_cluster p ld sid x r)) k")
    case None
    with IH n(2) have "\<exists>(c, v) \<in> set xs. ToLower c = k \<and> ResolveConfig ld c sid v = Inr rc"
      by simp
    then show ?thesis by auto
  next
    case (Some rc')
    with get [of k] n(1) have "ToLower c = k" "ResolveConfig ld c sid v = Inr rc'"
      by (auto split: if_splits sum.splits)
    moreover have "rc' = rc" using IH Some n(2) by simp
    ultimately show ?thesis by (auto simp: x)
  qed
  from IH keep new show ?case by simp
qed

text \<open>
  C26: adding a secret keeps the registry well formed, never replaces a cluster that is already cached,
  and adds only clusters that are named in the secret's data, whose kubeconfig resolves, and that
  carry the secret's identifier; a secret without the sync label adds nothing.
\<close>

theorem secret_added_clusters:
  assumes "reg_ok reg" "Secret_Added p ld (Some secret) ch (reg, cs) = Some (st, reg', cs')"
  shows "reg_ok reg'
    \<and> (\<forall>k rc. gm_get (reg_clusters reg) k = Some rc \<longrightarrow> gm_get (reg_clusters reg') k = Some rc)
    \<and> (\<forall>k rc. gm_get (reg_clusters reg) k = None \<and> gm_get (reg_clusters reg') k = Some rc \<longrightarrow>
          IsSyncEnabled p (sec_Meta secret) \<and> rcl_secretIdentifier rc = secret_id secret
          \<and> (\<exists>(c, v) \<in> set (sec_Data secret). ToLower c = k \<and> ResolveConfig ld c (secret_id secret) v = Inr rc))"
proof -
  let ?add = "secret_add_cluster p ld (secret_id secret)"
  have reg': "reg' = (if IsSyncEnabled p (sec_Meta secret) then fold ?add (sec_Data secret) reg else reg)"
    using assms(2) by (auto simp: Secret_Added_def Let_def split: bind_splits if_splits)
  note run = secret_adds_effect [where p = p and ld = ld and sid = "secret_id secret"]
  show ?thesis
  proof (cases "IsSyncEnabled p (sec_Meta secret)")
    case True
    then show ?thesis
      using run [OF assms(1), of "sec_Data secret"] ResolveConfig_fields by (fastforce simp: reg')
  next
    case False
    with assms(1) show ?thesis by (auto simp: reg')
  qed
qed


text \<open>
  Which controllers the id of a cluster matches: every service, deployment or rollouts controller
  whose name contains the id anywhere after the slash, so the id of one cluster also stops the
  controllers of every cluster whose name extends it; and an id that is not in lower case stops
  nothing, because controllers are registered under lower-case names.
\<close>

theorem stop_matches_by_substring:
  assumes "reg_ok reg" "ToLower c' \<noteq> c'"
  shows "(\<forall>kind \<in> {''service-controller'', ''deployment-controller'', ''rollouts-controller''}.
        \<forall>name. stops_controller c (kind @ ''/'' @ name) \<longleftrightarrow> (\<exists>a b. name = a @ c @ b))
    \<and> StopRemoteClusterControllers c' reg = Some reg"
proof
  show "\<forall>kind \<in> {''service-controller'', ''deployment-controller'', ''rollouts-controller''}.
        \<forall>name. stops_controller c (kind @ ''/'' @ name) \<longleftrightarrow> (\<exists>a b. name = a @ c @ b)"
    by (metis Contains_iff stops_remote)
  have "\<not> stops_controller c' name" if "(name, ctx) \<in> set (reg_controllers reg)" for name ctx
  proof
    assume "stops_controller c' name"
    then have two: "length (SplitN2 (CHR ''/'') name) = 2" "Contains (SplitN2 (CHR ''/'') name ! 1) c'"
      by (simp_all add: stops_controller_def Let_def)
    then obtain a b where rest: "tl (dropWhile (\<lambda>x. x \<noteq> CHR ''/'') name) = a @ c' @ b"
      by (auto simp: SplitN2_def Contains_iff split: if_splits)
    have "set c' \<subseteq> set name"
      using rest set_dropWhileD list.set_sel(2)
      by (metis (no_types, lifting) UnCI append_is_Nil_conv empty_iff empty_set set_append subsetI tl_Nil)
    moreover have "ToLower name = name"
      using reg_ok_ctlr [OF assms(1)] that gm.pairs_get assms(1) unfolding reg_ok_def by metis
    then have "\<forall>x \<in> set name. lower_char x = x" by (simp only: ToLower_fixed)
    ultimately have "\<forall>x \<in> set c'. lower_char x = x" by blast
    then have "ToLower c' = c'" by (simp only: ToLower_fixed)
    with assms(2) show False by simp
  qed
  then have "filter (\<lambda>x. stops_controller c' (fst x)) (reg_controllers reg) = []"
    by (auto simp: filter_empty_conv)
  then show "StopRemoteClusterControllers c' reg = Some reg" by (simp add: Stop_eq)
qed

subsection \<open>Witnesses\<close>

text \<open>A registry with one cluster and its service controller, and a loader that accepts everything.\<close>

definition sample_cluster :: "nat RemoteCluster" where
  "sample_cluster = CreateRemoteCluster ''C1'' ''ctx-c1'' ''ns/s'' ''host'' 0"

definition sample_registry :: "nat registry" where
  "sample_registry = AddRemoteClusterToCache sample_cluster
     (start_controller 1 ''service-controller/ctx-c1'' emptyRegistry)"

definition sample_loader :: "(nat, nat) loader" where
  "sample_loader = \<lparr>ld_GetKubeConfig = (\<lambda>_ v. Inr v), ld_Load = (\<lambda>v. Inr (length v)),
     ld_CurrentContext = (\<lambda>_. Inr ''ctx''), ld_ClientConfig = (\<lambda>c. Inr c), ld_Host = (\<lambda>_. ''host''),
     ld_K8sClient = (\<lambda>_. None), ld_IstioClient = (\<lambda>_. None), ld_ArgoClient = (\<lambda>_. None),
     ld_AdmiralClient = (\<lambda>_. None)\<rparr>"

definition sample_secret :: Secret where
  "sample_secret = \<lparr>sec_Meta = \<lparr>om_Name = ''s2'', om_Namespace = ''ns'',
       om_Labels = Some [(''admiral.io/sync'', ''true'')], om_Annotations = None\<rparr>,
     sec_Data = [(''C1'', ''kc''), (''C2'', ''kc'')]\<rparr>"

lemma sample_registry_ok: "reg_ok sample_registry"
  by (simp add: sample_registry_def reg_ok_AddCluster reg_ok_start reg_ok_empty)

theorem stop_remote_controllers_witness:
  "\<exists>reg'. StopRemoteClusterControllers ''c1'' sample_registry = Some reg' \<and> 0 \<in> reg_closed reg'
     \<and> GetRemoteClusterFromCache reg' ''c1'' = None"
proof -
  obtain reg' where r: "StopRemoteClusterControllers ''c1'' sample_registry = Some reg'"
    "reg_closed reg' = reg_closed sample_registry \<union> {n. \<exists>name ctx.
       gm_get (reg_controllers sample_registry) name = Some ctx \<and> stops_controller ''c1'' name \<and> cctx_StopCh ctx = Some n}"
    "(\<exists>name. gm_get (reg_controllers sample_registry) name \<noteq> None \<and> stops_controller ''c1'' name)
        \<longrightarrow> GetRemoteClusterFromCache reg' ''c1'' = None"
    using stop_remote_controllers [OF sample_registry_ok, of "''c1''"] by blast
  have stops: "stops_controller ''c1'' ''service-controller/ctx-c1''" by code_simp
  have reg: "gm_get (reg_controllers sample_registry) ''service-controller/ctx-c1''
      = Some \<lparr>cctx_WorkerCtx = [0], cctx_StopCh = Some 0\<rparr>"
    by code_simp
  have "\<exists>name. gm_get (reg_controllers sample_registry) name \<noteq> None \<and> stops_controller ''c1'' name"
    using reg stops by (metis option.distinct(1))
  moreover have "0 \<in> reg_closed reg'"
  proof -
    have "\<exists>name ctx. gm_get (reg_controllers sample_registry) name = Some ctx
        \<and> stops_controller ''c1'' name \<and> cctx_StopCh ctx = Some 0"
      using reg stops by (intro exI [of _ "''service-controller/ctx-c1''"] exI [of _ "\<lparr>cctx_WorkerCtx = [0], cctx_StopCh = Some 0\<rparr>"]) simp
    then show ?thesis unfolding r(2) by blast
  qed
  ultimately show ?thesis using r(1,3) by blast
qed

theorem stop_order_irrelevant_witness:
  "foreach (\<lambda>(name, ctx) r. if stops_controller ''c1'' name then stop_controller ''c1'' (name, ctx) r else Some r)
     (rev (reg_controllers sample_registry)) sample_registry
   = StopRemoteClusterControllers ''c1'' sample_registry"
  by (rule stop_order_irrelevant) simp

theorem secret_added_clusters_witness:
  "\<exists>st reg' cs'. Secret_Added (InitializeNaavikArgs None) sample_loader (Some sample_secret) None (sample_registry, [])
     = Some (st, reg', cs') \<and> reg_ok reg' \<and> gm_get (reg_clusters reg') ''c1'' = Some sample_cluster"
proof -
  let ?p = "InitializeNaavikArgs None"
  obtain st reg' cs' where a: "Secret_Added ?p sample_loader (Some sample_secret) None (sample_registry, []) = Some (st, reg', cs')"
    by (simp add: Secret_Added_def SkipClose_def)
  have "gm_get (reg_clusters sample_registry) ''c1'' = Some sample_cluster" by code_simp
  with secret_added_clusters [OF sample_registry_ok a] a show ?thesis by blast
qed


theorem stop_matches_by_substring_witness:
  "stops_controller ''c1'' ''service-controller/c10''
   \<and> StopRemoteClusterControllers ''C1'' sample_registry = Some sample_registry"
proof -
  have "ToLower ''C1'' \<noteq> ''C1''" by code_simp
  from stop_matches_by_substring [OF sample_registry_ok this, of "''c1''"]
  have iff: "stops_controller ''c1'' (''service-controller'' @ ''/'' @ ''c10'') \<longleftrightarrow> (\<exists>a b. ''c10'' = a @ ''c1'' @ b)"
    and stop: "StopRemoteClusterControllers ''C1'' sample_registry = Some sample_registry" by blast+
  have "''c10'' = [] @ ''c1'' @ ''0''" by simp
  then have "stops_controller ''c1'' (''service-controller'' @ ''/'' @ ''c10'')" using iff by blast
  then have "stops_controller ''c1'' ''service-controller/c10''" by (simp only: append.simps)
  with stop show ?thesis by blast
qed

end
