(* ===== verification/LeaseChecker.thy ===== *)
theory LeaseChecker
  imports GoStrings
begin

text \<open>
  \<open>internal/leasechecker\<close>: whether this instance may write.  The lease state is a global guarded by a
  lock; the program starts read-only and not initialised, and the only checker, \<open>noOpStateChecker\<close>,
  makes it read-write and initialised.  Any other checker name is fatal (\<open>None\<close>).
\<close>

record LeaseState =
  ls_ReadOnly :: bool
  ls_IsStateInitialized :: bool

datatype state_checker = noOpStateChecker

definition initialLeaseState :: LeaseState where
  "initialLeaseState = \<lparr>ls_ReadOnly = True, ls_IsStateInitialized = False\<rparr>"

definition GetStateChecker :: "string \<Rightarrow> state_checker option" where
  "GetStateChecker stateChecker = (if stateChecker = ''none'' then Some noOpStateChecker else None)"

definition ShouldRunOnIndependentGoRoutine :: "state_checker \<Rightarrow> bool" where
  "ShouldRunOnIndependentGoRoutine checker = (case checker of noOpStateChecker \<Rightarrow> False)"

definition noOp_RunStateCheck :: "LeaseState \<Rightarrow> LeaseState" where
  "noOp_RunStateCheck s = s\<lparr>ls_ReadOnly := False, ls_IsStateInitialized := True\<rparr>"

text \<open>On the same goroutine or on another one, the check is run once.\<close>

definition RunStateCheck :: "state_checker \<Rightarrow> LeaseState \<Rightarrow> LeaseState" where
  "RunStateCheck checker s =
     (if ShouldRunOnIndependentGoRoutine checker
      then (case checker of noOpStateChecker \<Rightarrow> noOp_RunStateCheck s)
      else (case checker of noOpStateChecker \<Rightarrow> noOp_RunStateCheck s))"

definition IsReadOnly :: "LeaseState \<Rightarrow> bool" where "IsReadOnly s = ls_ReadOnly s"

definition IsStateInitialized :: "LeaseState \<Rightarrow> bool" where
  "IsStateInitialized s = ls_IsStateInitialized s"

definition ResetState :: LeaseState where
  "ResetState = \<lparr>ls_ReadOnly = True, ls_IsStateInitialized = False\<rparr>"

definition startStateChecker :: "string \<Rightarrow> LeaseState \<Rightarrow> LeaseState option" where
  "startStateChecker name s = map_option (\<lambda>checker. RunStateCheck checker s) (GetStateChecker name)"

lemma started_lease: "startStateChecker name s = Some s' \<Longrightarrow> \<not> IsReadOnly s' \<and> IsStateInitialized s'"
  by (auto simp: startStateChecker_def GetStateChecker_def RunStateCheck_def noOp_RunStateCheck_def
      IsReadOnly_def IsStateInitialized_def split: if_splits state_checker.splits)

end
