(* ===== verification/IstioTypes.thy ===== *)
theory IstioTypes
  imports Resources "HOL-Library.Word"
begin

text \<open>
  The Istio and protobuf objects the program builds, with the fields it sets: virtual services and
  envoy filters.  The types belong to third-party packages; a nil pointer or nil map is \<open>None\<close>, and
  an \<open>int32\<close> field is a 32-bit word.
\<close>

text \<open>\<open>durationpb.Duration\<close>; \<open>dur_GetSeconds\<close> is the generated getter, which answers 0 on nil.\<close>

record Duration =
  dur_Seconds :: int
  dur_Nanos :: int

definition dur_GetSeconds :: "Duration option \<Rightarrow> int" where
  "dur_GetSeconds d = (case d of None \<Rightarrow> 0 | Some d \<Rightarrow> dur_Seconds d)"

datatype StringMatch = MatchExact string | MatchPrefix string | MatchRegex string

record HTTPMatchRequest =
  mr_Uri :: "StringMatch option"
  mr_Authority :: "StringMatch option"

record HTTPRouteDestination =
  rd_Host :: string
  rd_Weight :: "32 word"

record HTTPRoute =
  hr_Name :: string
  hr_Match :: "HTTPMatchRequest goslice"
  hr_Route :: "HTTPRouteDestination list"
  hr_Rewrite :: "string option"
  hr_Timeout :: "Duration option"

record VirtualService =
  vs_Name :: string
  vs_Namespace :: string
  vs_ResourceVersion :: string
  vs_Annotations :: "labels option"
  vs_Labels :: "labels option"
  vs_Hosts :: "string list"
  vs_Http :: "HTTPRoute list"

text \<open>\<open>structpb\<close> values.\<close>

datatype pb_value = PbString string | PbNumber int | PbStruct "(string \<times> pb_value) list" | PbList "pb_value list"

datatype apply_to = HTTP_FILTER | HTTP_ROUTE

datatype patch_context = SIDECAR_INBOUND

datatype object_match = ListenerFilter string string | RouteConfigurationVhost string

datatype patch_operation = INSERT_BEFORE | MERGE

record ConfigObjectMatch =
  cm_Context :: patch_context
  cm_Proxy :: "string option"
  cm_ObjectTypes :: "object_match option"

record Patch =
  pa_Operation :: patch_operation
  pa_Value :: pb_value

record ConfigPatch =
  cp_ApplyTo :: apply_to
  cp_Match :: ConfigObjectMatch
  cp_Patch :: Patch

record EnvoyFilter =
  ef_Name :: string
  ef_Namespace :: string
  ef_ResourceVersion :: string
  ef_Annotations :: "labels option"
  ef_Labels :: "labels option"
  ef_Priority :: "32 word"
  ef_WorkloadSelector :: labels
  ef_ConfigPatches :: "ConfigPatch list"

end
