(* ===== verification/IstioClient.thy ===== *)
theory IstioClient
  imports IstioTypes
begin

text \<open>
  \<open>pkg/clients/clientset/istio\<close>: the client through which the program reads and writes envoy filters
  and virtual services of a cluster, and \<open>ApplyEnvoyFilters\<close>, which brings the filters of a traffic
  config in line with the requested ones.

  The Kubernetes API behind the generated client set is a parameter: \<open>istio_api\<close>, functions of the
  cluster and of a world of type \<open>'w\<close>.  Its documented behaviour is stated where it is used
  (\<open>ef_laws\<close>).  A list of objects is selected by labels; the label selector is the map it encodes.
  The annotation map of an object that is created or updated is written in place: a nil map panics.
\<close>

type_synonym selector = "(string \<times> string) list"

text \<open>
  Reads answer the object and an error as client-go does, where an object may come with an error;
  writes answer an error or the object stored.  \<open>api_Now\<close> is the formatted current time.
\<close>

record 'w istio_api =
  api_Now :: "'w \<Rightarrow> string"
  api_GetEF :: "string \<Rightarrow> string \<Rightarrow> string \<Rightarrow> 'w \<Rightarrow> EnvoyFilter option \<times> string option"
  api_ListEF :: "string \<Rightarrow> string \<Rightarrow> selector \<Rightarrow> 'w \<Rightarrow> EnvoyFilter list option \<times> string option"
  api_CreateEF :: "string \<Rightarrow> string \<Rightarrow> EnvoyFilter \<Rightarrow> 'w \<Rightarrow> (string + EnvoyFilter) \<times> 'w"
  api_UpdateEF :: "string \<Rightarrow> string \<Rightarrow> EnvoyFilter \<Rightarrow> 'w \<Rightarrow> (string + EnvoyFilter) \<times> 'w"
  api_DeleteEF :: "string \<Rightarrow> string \<Rightarrow> string \<Rightarrow> 'w \<Rightarrow> string option \<times> 'w"
  api_GetVS :: "string \<Rightarrow> string \<Rightarrow> string \<Rightarrow> 'w \<Rightarrow> VirtualService option \<times> string option"
  api_CreateVS :: "string \<Rightarrow> string \<Rightarrow> VirtualService \<Rightarrow> 'w \<Rightarrow> (string + VirtualService) \<times> 'w"
  api_UpdateVS :: "string \<Rightarrow> string \<Rightarrow> VirtualService \<Rightarrow> 'w \<Rightarrow> (string + VirtualService) \<times> 'w"
  api_DeleteVS :: "string \<Rightarrow> string \<Rightarrow> string \<Rightarrow> 'w \<Rightarrow> string option \<times> 'w"

definition LastUpdatedTimestampKey :: string where "LastUpdatedTimestampKey = ''lastUpdatedTimestamp''"

subsection \<open>Envoy filters\<close>

definition stamp :: "string \<Rightarrow> labels option \<Rightarrow> labels option" where
  "stamp now ann = map_option (gm_put LastUpdatedTimestampKey now) ann"

definition GetEnvoyFilter :: "'w istio_api \<Rightarrow> string \<Rightarrow> string \<Rightarrow> string \<Rightarrow> 'w \<Rightarrow> EnvoyFilter option \<times> string option" where
  "GetEnvoyFilter api cluster name namespace w = api_GetEF api cluster namespace name w"

definition CreateEnvoyFilter ::
    "'w istio_api \<Rightarrow> string \<Rightarrow> EnvoyFilter \<Rightarrow> 'w \<Rightarrow> ((string + EnvoyFilter) \<times> 'w) option" where
  "CreateEnvoyFilter api cluster ef w =
     (if ef_Annotations ef = None then None
      else Some (api_CreateEF api cluster (ef_Namespace ef)
        (ef\<lparr>ef_Annotations := stamp (api_Now api w) (ef_Annotations ef)\<rparr>) w))"

definition UpdateEnvoyFilter ::
    "'w istio_api \<Rightarrow> string \<Rightarrow> EnvoyFilter \<Rightarrow> 'w \<Rightarrow> ((string + EnvoyFilter) \<times> 'w) option" where
  "UpdateEnvoyFilter api cluster ef w =
     (if ef_Annotations ef = None then None
      else Some (api_UpdateEF api cluster (ef_Namespace ef)
        (ef\<lparr>ef_Annotations := stamp (api_Now api w) (ef_Annotations ef)\<rparr>) w))"

definition DeleteEnvoyFilter :: "'w istio_api \<Rightarrow> string \<Rightarrow> string \<Rightarrow> string \<Rightarrow> 'w \<Rightarrow> string option \<times> 'w" where
  "DeleteEnvoyFilter api cluster name namespace w = api_DeleteEF api cluster namespace name w"

definition ListEnvoyFilters ::
    "'w istio_api \<Rightarrow> string \<Rightarrow> string \<Rightarrow> selector \<Rightarrow> 'w \<Rightarrow> EnvoyFilter list option \<times> string option" where
  "ListEnvoyFilters api cluster namespace sel w = api_ListEF api cluster namespace sel w"

fun checkIfPresent :: "EnvoyFilter \<Rightarrow> EnvoyFilter list \<Rightarrow> bool" where
  "checkIfPresent f [] = False"
| "checkIfPresent f (g # gs) = (if EqualFold (ef_Name g) (ef_Name f) then True else checkIfPresent f gs)"

text \<open>
  The three loops.  The value of \<open>errors.Join(errorList, err)\<close> is dropped, so the error list handed
  from iteration to iteration never changes.
\<close>

definition CreateEnvoyFilters ::
    "'w istio_api \<Rightarrow> string \<Rightarrow> EnvoyFilter list \<Rightarrow> 'w \<Rightarrow> (string option \<times> 'w) option" where
  "CreateEnvoyFilters api cluster filterList w =
     foreach (\<lambda>f (errorList, w). do {
       (r, w') \<leftarrow> CreateEnvoyFilter api cluster f w;
       Some (errorList, w')
     }) filterList (None, w)"

definition UpdateEnvoyFilters ::
    "'w istio_api \<Rightarrow> string \<Rightarrow> EnvoyFilter list \<Rightarrow> 'w \<Rightarrow> (string option \<times> 'w) option" where
  "UpdateEnvoyFilters api cluster filterList w =
     foreach (\<lambda>f (errorList, w). do {
       (r, w') \<leftarrow> UpdateEnvoyFilter api cluster f w;
       Some (errorList, w')
     }) filterList (None, w)"

definition DeleteEnvoyFilters ::
    "'w istio_api \<Rightarrow> string \<Rightarrow> EnvoyFilter list \<Rightarrow> 'w \<Rightarrow> string option \<times> 'w" where
  "DeleteEnvoyFilters api cluster filterList w =
     fold (\<lambda>f (errorList, w).
       (let (e, w') = DeleteEnvoyFilter api cluster (ef_Name f) (ef_Namespace f) w in (errorList, w')))
       filterList (None, w)"

text \<open>
  \<open>ApplyEnvoyFilters\<close>.  The three partitions, then creations, updates and deletions, each only when
  its list is not empty.  The joined errors are dropped here too.
\<close>

definition ApplyEnvoyFilters ::
    "'w istio_api \<Rightarrow> string \<Rightarrow> EnvoyFilter list \<Rightarrow> EnvoyFilter list \<Rightarrow> 'w \<Rightarrow> (string option \<times> 'w) option" where
  "ApplyEnvoyFilters api cluster requested existing w =
     (let toUpdate = (if length requested > 0 then filter (\<lambda>f. checkIfPresent f existing) requested else []);
          toCreate = (if length requested > 0 then filter (\<lambda>f. \<not> checkIfPresent f existing) requested else []);
          toDelete = (if length requested > 0 then filter (\<lambda>f. \<not> checkIfPresent f requested) existing
                      else existing);
          err = (None :: string option)
      in do {
        (createerr, w1) \<leftarrow> (if length toCreate > 0 then CreateEnvoyFilters api cluster toCreate w else Some (None, w));
        (updateerr, w2) \<leftarrow> (if length toUpdate > 0 then UpdateEnvoyFilters api cluster toUpdate w1 else Some (None, w1));
        let (deleteerr, w3) = (if length toDelete > 0 then DeleteEnvoyFilters api cluster toDelete w2 else (None, w2));
        Some (err, w3)
      })"

subsection \<open>Virtual services\<close>

text \<open>
  The virtual service is a pointer: creating or updating it leaves the timestamp in the caller's
  object, which is answered beside the result.
\<close>

definition CreateVirtualService ::
    "'w istio_api \<Rightarrow> string \<Rightarrow> VirtualService \<Rightarrow> 'w \<Rightarrow> ((string + VirtualService) \<times> VirtualService \<times> 'w) option" where
  "CreateVirtualService api cluster vs w =
     (if vs_Annotations vs = None then None
      else (let vs' = vs\<lparr>vs_Annotations := stamp (api_Now api w) (vs_Annotations vs)\<rparr>;
                (r, w') = api_CreateVS api cluster (vs_Namespace vs') vs' w
            in Some (r, vs', w')))"

definition UpdateVirtualService ::
    "'w istio_api \<Rightarrow> string \<Rightarrow> VirtualService \<Rightarrow> 'w \<Rightarrow> ((string + VirtualService) \<times> VirtualService \<times> 'w) option" where
  "UpdateVirtualService api cluster vs w =
     (if vs_Annotations vs = None then None
      else (let vs' = vs\<lparr>vs_Annotations := stamp (api_Now api w) (vs_Annotations vs)\<rparr>;
                (r, w') = api_UpdateVS api cluster (vs_Namespace vs') vs' w
            in Some (r, vs', w')))"

definition DeleteVirtualService :: "'w istio_api \<Rightarrow> string \<Rightarrow> string \<Rightarrow> string \<Rightarrow> 'w \<Rightarrow> string option \<times> 'w" where
  "DeleteVirtualService api cluster name namespace w = api_DeleteVS api cluster namespace name w"

definition GetVirtualService :: "'w istio_api \<Rightarrow> string \<Rightarrow> string \<Rightarrow> string \<Rightarrow> 'w \<Rightarrow> VirtualService option \<times> string option" where
  "GetVirtualService api cluster name namespace w = api_GetVS api cluster namespace name w"

subsection \<open>What the API server promises about envoy filters\<close>

type_synonym object_key = "string \<times> string \<times> string"

definition ef_key :: "string \<Rightarrow> EnvoyFilter \<Rightarrow> object_key" where
  "ef_key cluster ef = (cluster, ef_Namespace ef, ef_Name ef)"

text \<open>
  \<open>efs w\<close> are the filters stored in world \<open>w\<close>.  A failed write changes nothing.  Creating stores the
  object under a resource version of the server's choice, and fails only when the key is taken or a
  resource version was given; updating replaces the stored object, and fails only when there is none
  or the given resource version is not the stored one; deleting removes the object, and fails only
  when there is none.  Writes to one cluster do not fail for other reasons.
\<close>

definition ef_laws :: "'w istio_api \<Rightarrow> ('w \<Rightarrow> object_key \<Rightarrow> EnvoyFilter option) \<Rightarrow> bool" where
  "ef_laws api efs \<longleftrightarrow>
     (\<forall>cluster ef w. let k = ef_key cluster ef in
        if efs w k = None \<and> ef_ResourceVersion ef = [] then
          (\<exists>r w' rv. api_CreateEF api cluster (ef_Namespace ef) ef w = (Inr r, w')
             \<and> efs w' = (efs w)(k \<mapsto> ef\<lparr>ef_ResourceVersion := rv\<rparr>))
        else (\<exists>e w'. api_CreateEF api cluster (ef_Namespace ef) ef w = (Inl e, w') \<and> efs w' = efs w))
     \<and> (\<forall>cluster ef w. let k = ef_key cluster ef in
        if map_option ef_ResourceVersion (efs w k) = Some (ef_ResourceVersion ef) then
          (\<exists>r w' rv. api_UpdateEF api cluster (ef_Namespace ef) ef w = (Inr r, w')
             \<and> efs w' = (efs w)(k \<mapsto> ef\<lparr>ef_ResourceVersion := rv\<rparr>))
        else (\<exists>e w'. api_UpdateEF api cluster (ef_Namespace ef) ef w = (Inl e, w') \<and> efs w' = efs w))
     \<and> (\<forall>cluster ns name w. \<exists>e w'. api_DeleteEF api cluster ns name w = (e, w')
          \<and> efs w' = (efs w)((cluster, ns, name) := None))"

text \<open>A stored filter is the requested one up to its resource version and timestamp.\<close>

definition applied_as :: "EnvoyFilter \<Rightarrow> EnvoyFilter \<Rightarrow> bool" where
  "applied_as f g \<longleftrightarrow> (\<exists>rv now. g = f\<lparr>ef_ResourceVersion := rv, ef_Annotations := stamp now (ef_Annotations f)\<rparr>)"

lemma law_create:
  assumes "ef_laws api efs" "efs w (ef_key cluster ef) = None" "ef_ResourceVersion ef = []"
  shows "\<exists>r w' rv. api_CreateEF api cluster (ef_Namespace ef) ef w = (Inr r, w')
    \<and> efs w' = (efs w)(ef_key cluster ef \<mapsto> ef\<lparr>ef_ResourceVersion := rv\<rparr>)"
proof -
  have "\<forall>cluster ef w. efs w (ef_key cluster ef) = None \<and> ef_ResourceVersion ef = [] \<longrightarrow>
      (\<exists>r w' rv. api_CreateEF api cluster (ef_Namespace ef) ef w = (Inr r, w')
         \<and> efs w' = (efs w)(ef_key cluster ef \<mapsto> ef\<lparr>ef_ResourceVersion := rv\<rparr>))"
    using assms(1) unfolding ef_laws_def Let_def by presburger
  with assms show ?thesis by blast
qed

lemma Create_stores:
  assumes "ef_laws api efs" "ef_Annotations f \<noteq> None" "efs w (ef_key cluster f) = None" "ef_ResourceVersion f = []"
  obtains r w' g where "CreateEnvoyFilter api cluster f w = Some (r, w')" "efs w' = (efs w)(ef_key cluster f \<mapsto> g)"
    "applied_as f g"
proof -
  let ?f = "f\<lparr>ef_Annotations := stamp (api_Now api w) (ef_Annotations f)\<rparr>"
  have key: "ef_key cluster ?f = ef_key cluster f" by (simp add: ef_key_def)
  have "\<exists>r w' rv. api_CreateEF api cluster (ef_Namespace ?f) ?f w = (Inr r, w')
      \<and> efs w' = (efs w)(ef_key cluster ?f \<mapsto> ?f\<lparr>ef_ResourceVersion := rv\<rparr>)"
    by (rule law_create [OF assms(1)]) (use assms(3-) key in simp_all)
  then obtain r w' rv where c: "api_CreateEF api cluster (ef_Namespace ?f) ?f w = (Inr r, w')"
    "efs w' = (efs w)(ef_key cluster ?f \<mapsto> ?f\<lparr>ef_ResourceVersion := rv\<rparr>)" by blast
  show ?thesis
  proof (rule that)
    show "CreateEnvoyFilter api cluster f w = Some (Inr r, w')" using assms(2) c(1) by (simp add: CreateEnvoyFilter_def)
    show "efs w' = (efs w)(ef_key cluster f \<mapsto> ?f\<lparr>ef_ResourceVersion := rv\<rparr>)" using c(2) key by simp
    show "applied_as f (?f\<lparr>ef_ResourceVersion := rv\<rparr>)"
      unfolding applied_as_def by (intro exI [of _ rv] exI [of _ "api_Now api w"]) simp
  qed
qed

lemma law_update:
  assumes "ef_laws api efs" "map_option ef_ResourceVersion (efs w (ef_key cluster ef)) = Some (ef_ResourceVersion ef)"
  shows "\<exists>r w' rv. api_UpdateEF api cluster (ef_Namespace ef) ef w = (Inr r, w')
    \<and> efs w' = (efs w)(ef_key cluster ef \<mapsto> ef\<lparr>ef_ResourceVersion := rv\<rparr>)"
proof -
  have "\<forall>cluster ef w. map_option ef_ResourceVersion (efs w (ef_key cluster ef)) = Some (ef_ResourceVersion ef) \<longrightarrow>
      (\<exists>r w' rv. api_UpdateEF api cluster (ef_Namespace ef) ef w = (Inr r, w')
         \<and> efs w' = (efs w)(ef_key cluster ef \<mapsto> ef\<lparr>ef_ResourceVersion := rv\<rparr>))"
    using assms(1) unfolding ef_laws_def Let_def by presburger
  with assms show ?thesis by blast
qed

lemma Update_stores:
  assumes "ef_laws api efs" "ef_Annotations f \<noteq> None" "map_option ef_ResourceVersion (efs w (ef_key cluster f)) = Some (ef_ResourceVersion f)"
  obtains r w' g where "UpdateEnvoyFilter api cluster f w = Some (r, w')" "efs w' = (efs w)(ef_key cluster f \<mapsto> g)"
    "applied_as f g"
proof -
  let ?f = "f\<lparr>ef_Annotations := stamp (api_Now api w) (ef_Annotations f)\<rparr>"
  have key: "ef_key cluster ?f = ef_key cluster f" by (simp add: ef_key_def)
  have "\<exists>r w' rv. api_UpdateEF api cluster (ef_Namespace ?f) ?f w = (Inr r, w')
      \<and> efs w' = (efs w)(ef_key cluster ?f \<mapsto> ?f\<lparr>ef_ResourceVersion := rv\<rparr>)"
    by (rule law_update [OF assms(1)]) (use assms(3-) key in simp_all)
  then obtain r w' rv where c: "api_UpdateEF api cluster (ef_Namespace ?f) ?f w = (Inr r, w')"
    "efs w' = (efs w)(ef_key cluster ?f \<mapsto> ?f\<lparr>ef_ResourceVersion := rv\<rparr>)" by blast
  show ?thesis
  proof (rule that)
    show "UpdateEnvoyFilter api cluster f w = Some (Inr r, w')" using assms(2) c(1) by (simp add: UpdateEnvoyFilter_def)
    show "efs w' = (efs w)(ef_key cluster f \<mapsto> ?f\<lparr>ef_ResourceVersion := rv\<rparr>)" using c(2) key by simp
    show "applied_as f (?f\<lparr>ef_ResourceVersion := rv\<rparr>)"
      unfolding applied_as_def by (intro exI [of _ rv] exI [of _ "api_Now api w"]) simp
  qed
qed

lemma Delete_removes:
  assumes "ef_laws api efs"
  obtains e w' where "DeleteEnvoyFilter api cluster name ns w = (e, w')" "efs w' = (efs w)((cluster, ns, name) := None)"
  using assms unfolding ef_laws_def DeleteEnvoyFilter_def by metis

subsection \<open>The loops\<close>

lemma store_loop:
  assumes step: "\<And>f w. f \<in> set fs \<Longrightarrow> P f (efs w (key f)) \<Longrightarrow>
      \<exists>r w' g. wr f w = Some (r, w') \<and> efs w' = (efs w)(key f \<mapsto> g) \<and> applied_as f g"
    and "distinct (map key fs)" "\<forall>f \<in> set fs. P f (efs w (key f))"
  shows "\<exists>w'. foreach (\<lambda>f (e, w). do { (r, w') \<leftarrow> wr f w; Some (e, w') }) fs (e, w) = Some (e, w')
    \<and> (\<forall>k. k \<notin> key ` set fs \<longrightarrow> efs w' k = efs w k)
    \<and> (\<forall>f \<in> set fs. \<exists>g. efs w' (key f) = Some g \<and> applied_as f g)"
  using assms
proof (induction fs arbitrary: w)
  case Nil
  then show ?case by simp
next
  case (Cons f fs)
  have "P f (efs w (key f))" using Cons.prems(3) by simp
  then obtain r w1 g where one: "wr f w = Some (r, w1)" "efs w1 = (efs w)(key f \<mapsto> g)" "applied_as f g"
    using Cons.prems(1) [of f w] by (meson list.set_intros(1))
  have fresh: "key f \<notin> key ` set fs" and d: "distinct (map key fs)" using Cons.prems(2) by auto
  have "\<forall>h \<in> set fs. P h (efs w1 (key h))"
  proof
    fix h
    assume h: "h \<in> set fs"
    then have "key h \<noteq> key f" using fresh by (metis imageI)
    with h Cons.prems(3) show "P h (efs w1 (key h))" by (simp add: one(2))
  qed
  from Cons.IH [OF Cons.prems(1) d this] obtain w' where
    r: "foreach (\<lambda>f (e, w). do { (r, w') \<leftarrow> wr f w; Some (e, w') }) fs (e, w1) = Some (e, w')"
      "\<forall>k. k \<notin> key ` set fs \<longrightarrow> efs w' k = efs w1 k"
      "\<forall>f \<in> set fs. \<exists>g. efs w' (key f) = Some g \<and> applied_as f g" by auto
  have "efs w' (key f) = Some g" using r(2) fresh one(2) by simp
  with r one show ?case by (intro exI [of _ w']) auto
qed

lemma delete_loop:
  assumes "ef_laws api efs"
  obtains w' where "DeleteEnvoyFilters api cluster fs w = (None, w')"
    "efs w' = (\<lambda>k. if k \<in> ef_key cluster ` set fs then None else efs w k)"
proof -
  have "\<exists>w'. fold (\<lambda>f (errorList, w).
       (let (e, w') = DeleteEnvoyFilter api cluster (ef_Name f) (ef_Namespace f) w in (errorList, w')))
       fs (err, w) = (err, w') \<and> efs w' = (\<lambda>k. if k \<in> ef_key cluster ` set fs then None else efs w k)"
    for err :: "string option"
  proof (induction fs arbitrary: w)
    case Nil
    then show ?case by simp
  next
    case (Cons f fs)
    obtain e w1 where one: "DeleteEnvoyFilter api cluster (ef_Name f) (ef_Namespace f) w = (e, w1)"
      "efs w1 = (efs w)((cluster, ef_Namespace f, ef_Name f) := None)"
      by (rule Delete_removes [OF assms])
    from Cons.IH [of w1] obtain w' where "fold (\<lambda>f (errorList, w).
       (let (e, w') = DeleteEnvoyFilter api cluster (ef_Name f) (ef_Namespace f) w in (errorList, w')))
       fs (err, w1) = (err, w')" "efs w' = (\<lambda>k. if k \<in> ef_key cluster ` set fs then None else efs w1 k)"
      by blast
    with one show ?case by (intro exI [of _ w']) (auto simp: fun_eq_iff ef_key_def)
  qed
  with that show ?thesis unfolding DeleteEnvoyFilters_def by blast
qed

lemma checkIfPresent_iff: "checkIfPresent f fs \<longleftrightarrow> (\<exists>g \<in> set fs. EqualFold (ef_Name g) (ef_Name f))"
  by (induction fs) auto

lemma create_loop:
  assumes "ef_laws api efs" "distinct (map (ef_key cluster) fs)"
    and "\<forall>f \<in> set fs. ef_Annotations f \<noteq> None \<and> efs w (ef_key cluster f) = None \<and> ef_ResourceVersion f = []"
  obtains w' where "CreateEnvoyFilters api cluster fs w = Some (None, w')"
    "\<forall>k. k \<notin> ef_key cluster ` set fs \<longrightarrow> efs w' k = efs w k"
    "\<forall>f \<in> set fs. \<exists>g. efs w' (ef_key cluster f) = Some g \<and> applied_as f g"
proof -
  have "\<exists>r w' g. CreateEnvoyFilter api cluster f w = Some (r, w') \<and> efs w' = (efs w)(ef_key cluster f \<mapsto> g) \<and> applied_as f g"
    if "f \<in> set fs" "efs w (ef_key cluster f) = None" for f w
    using Create_stores [OF assms(1), of f w cluster] that assms(3) by metis
  from store_loop [of fs "\<lambda>f x. x = None" efs "ef_key cluster" "CreateEnvoyFilter api cluster" w None, OF this assms(2)]
  show ?thesis using assms(3) that unfolding CreateEnvoyFilters_def by blast
qed

lemma update_loop:
  assumes "ef_laws api efs" "distinct (map (ef_key cluster) fs)"
    and "\<forall>f \<in> set fs. ef_Annotations f \<noteq> None
      \<and> map_option ef_ResourceVersion (efs w (ef_key cluster f)) = Some (ef_ResourceVersion f)"
  obtains w' where "UpdateEnvoyFilters api cluster fs w = Some (None, w')"
    "\<forall>k. k \<notin> ef_key cluster ` set fs \<longrightarrow> efs w' k = efs w k"
    "\<forall>f \<in> set fs. \<exists>g. efs w' (ef_key cluster f) = Some g \<and> applied_as f g"
proof -
  have "\<exists>r w' g. UpdateEnvoyFilter api cluster f w = Some (r, w') \<and> efs w' = (efs w)(ef_key cluster f \<mapsto> g) \<and> applied_as f g"
    if "f \<in> set fs" "map_option ef_ResourceVersion (efs w (ef_key cluster f)) = Some (ef_ResourceVersion f)" for f w
    using Update_stores [OF assms(1), of f w cluster] that assms(3) by metis
  from store_loop [of fs "\<lambda>f x. map_option ef_ResourceVersion x = Some (ef_ResourceVersion f)" efs
      "ef_key cluster" "UpdateEnvoyFilter api cluster" w None, OF this assms(2)]
  show ?thesis using assms(3) that unfolding UpdateEnvoyFilters_def by blast
qed

text \<open>The three loops bring the stored filters in line with the requested ones.\<close>

lemma apply_converges:
  assumes "ef_laws api efs"
    and "distinct (map ef_Name requested)"
    and "\<forall>f \<in> set requested \<union> set existing. ef_Namespace f = ns \<and> ToLower (ef_Name f) = ef_Name f"
    and "\<forall>f \<in> set requested. ef_Annotations f \<noteq> None"
    and "\<forall>f \<in> set requested. if ef_Name f \<in> ef_Name ` set existing
      then map_option ef_ResourceVersion (efs w (ef_key cluster f)) = Some (ef_ResourceVersion f)
      else efs w (ef_key cluster f) = None \<and> ef_ResourceVersion f = []"
  shows "\<exists>w'. ApplyEnvoyFilters api cluster requested existing w = Some (None, w')
    \<and> (\<forall>f \<in> set requested. \<exists>g. efs w' (ef_key cluster f) = Some g \<and> applied_as f g)
    \<and> (\<forall>k. k \<notin> ef_key cluster ` set requested \<longrightarrow>
          efs w' k = (if k \<in> ef_key cluster ` set existing then None else efs w k))"
proof -
  let ?upd = "filter (\<lambda>f. checkIfPresent f existing) requested"
  let ?cre = "filter (\<lambda>f. \<not> checkIfPresent f existing) requested"
  let ?del = "filter (\<lambda>f. \<not> checkIfPresent f requested) existing"
  have present: "checkIfPresent f gs \<longleftrightarrow> ef_Name f \<in> ef_Name ` set gs"
    if "f \<in> set requested \<union> set existing" "set gs \<subseteq> set requested \<union> set existing" for f gs
  proof -
    have "ToLower (ef_Name f) = ef_Name f" "\<forall>g \<in> set gs. ToLower (ef_Name g) = ef_Name g"
      using that assms(3) by auto
    then show ?thesis unfolding checkIfPresent_iff EqualFold_def image_iff by metis
  qed
  have key: "ef_key cluster f = ef_key cluster g \<longleftrightarrow> ef_Name f = ef_Name g"
    if "f \<in> set requested \<union> set existing" "g \<in> set requested \<union> set existing" for f g
    using that assms(3) by (auto simp: ef_key_def)
  have dist: "distinct (map (ef_key cluster) requested)"
    using assms(2) key by (auto simp: distinct_map inj_on_def)
  then have dcre: "distinct (map (ef_key cluster) ?cre)" and dupd: "distinct (map (ef_key cluster) ?upd)"
    by (simp_all add: distinct_map_filter)
  have cre: "\<forall>f \<in> set ?cre. ef_Annotations f \<noteq> None \<and> efs w (ef_key cluster f) = None \<and> ef_ResourceVersion f = []"
    using assms(4,5) present by auto
  obtain w1 where w1: "CreateEnvoyFilters api cluster ?cre w = Some (None, w1)"
    "\<forall>k. k \<notin> ef_key cluster ` set ?cre \<longrightarrow> efs w1 k = efs w k"
    "\<forall>f \<in> set ?cre. \<exists>g. efs w1 (ef_key cluster f) = Some g \<and> applied_as f g"
    by (rule create_loop [OF assms(1) dcre cre])
  have apart: "ef_key cluster f \<notin> ef_key cluster ` set ?cre" if "f \<in> set ?upd" for f
  proof
    assume "ef_key cluster f \<in> ef_key cluster ` set ?cre"
    then obtain g where g: "g \<in> set ?cre" "ef_key cluster f = ef_key cluster g" by blast
    then have "ef_Name f = ef_Name g" using key [of f g] that by auto
    then show False using that g(1) by (auto simp: checkIfPresent_iff)
  qed
  have upd: "\<forall>f \<in> set ?upd. ef_Annotations f \<noteq> None
      \<and> map_option ef_ResourceVersion (efs w1 (ef_key cluster f)) = Some (ef_ResourceVersion f)"
  proof
    fix f
    assume f: "f \<in> set ?upd"
    then have "ef_Name f \<in> ef_Name ` set existing" using present [of f existing] by auto
    moreover have "efs w1 (ef_key cluster f) = efs w (ef_key cluster f)" using w1(2) apart [OF f] by blast
    moreover have "f \<in> set requested" using f by simp
    ultimately show "ef_Annotations f \<noteq> None
        \<and> map_option ef_ResourceVersion (efs w1 (ef_key cluster f)) = Some (ef_ResourceVersion f)"
      using assms(4,5) by simp
  qed
  obtain w2 where w2: "UpdateEnvoyFilters api cluster ?upd w1 = Some (None, w2)"
    "\<forall>k. k \<notin> ef_key cluster ` set ?upd \<longrightarrow> efs w2 k = efs w1 k"
    "\<forall>f \<in> set ?upd. \<exists>g. efs w2 (ef_key cluster f) = Some g \<and> applied_as f g"
    by (rule update_loop [OF assms(1) dupd upd])
  obtain w3 where w3: "DeleteEnvoyFilters api cluster ?del w2 = (None, w3)"
    "efs w3 = (\<lambda>k. if k \<in> ef_key cluster ` set ?del then None else efs w2 k)"
    by (rule delete_loop [OF assms(1)])
  have run: "ApplyEnvoyFilters api cluster requested existing w = Some (None, w3)"
  proof (cases requested)
    case Nil
    then have "CreateEnvoyFilters api cluster [] w = Some (None, w)" "w1 = w" "w2 = w1"
      using w1(1) w2(1) by (simp_all add: CreateEnvoyFilters_def UpdateEnvoyFilters_def)
    with Nil w3(1) show ?thesis
      by (cases existing) (simp_all add: ApplyEnvoyFilters_def DeleteEnvoyFilters_def)
  next
    case (Cons f fs)
    then have "length requested > 0" by simp
    moreover have "w1 = w" if "?cre = []" using w1(1) that by (simp add: CreateEnvoyFilters_def)
    moreover have "w2 = w1" if "?upd = []" using w2(1) that by (simp add: UpdateEnvoyFilters_def)
    moreover have "w3 = w2" if "?del = []" using w3(1) that by (simp add: DeleteEnvoyFilters_def)
    ultimately show ?thesis
      using w1(1) w2(1) w3(1)
      by (cases "?cre = []"; cases "?upd = []"; cases "?del = []") (simp_all add: ApplyEnvoyFilters_def Let_def)
  qed
  have del_req: "ef_key cluster f \<notin> ef_key cluster ` set ?del" if "f \<in> set requested" for f
  proof
    assume "ef_key cluster f \<in> ef_key cluster ` set ?del"
    then obtain g where g: "g \<in> set ?del" "ef_key cluster f = ef_key cluster g" by blast
    then have "ef_Name f = ef_Name g" using key [of f g] that by auto
    then show False using that g(1) by (auto simp: checkIfPresent_iff)
  qed
  have req: "\<exists>g. efs w3 (ef_key cluster f) = Some g \<and> applied_as f g" if f: "f \<in> set requested" for f
  proof (cases "checkIfPresent f existing")
    case True
    with f have "f \<in> set ?upd" by simp
    with w2(3) obtain g where "efs w2 (ef_key cluster f) = Some g" "applied_as f g" by blast
    with del_req [OF f] w3(2) show ?thesis by auto
  next
    case False
    with f have c: "f \<in> set ?cre" by simp
    with w1(3) obtain g where g: "efs w1 (ef_key cluster f) = Some g" "applied_as f g" by blast
    have "ef_key cluster f \<notin> ef_key cluster ` set ?upd" using apart c by (metis (no_types, lifting) imageE imageI)
    then have "efs w2 (ef_key cluster f) = Some g" using w2(2) g(1) by metis
    with g(2) del_req [OF f] w3(2) show ?thesis by auto
  qed
  have other: "efs w3 k = (if k \<in> ef_key cluster ` set existing then None else efs w k)"
    if k: "k \<notin> ef_key cluster ` set requested" for k
  proof -
    have "k \<notin> ef_key cluster ` set ?cre" "k \<notin> ef_key cluster ` set ?upd" using k by auto
    then have "efs w2 k = efs w k" using w1(2) w2(2) by metis
    moreover have "k \<in> ef_key cluster ` set ?del \<longleftrightarrow> k \<in> ef_key cluster ` set existing"
    proof
      assume "k \<in> ef_key cluster ` set existing"
      then obtain g where g: "g \<in> set existing" "k = ef_key cluster g" by blast
      have "ef_Name g \<notin> ef_Name ` set requested"
      proof
        assume "ef_Name g \<in> ef_Name ` set requested"
        then obtain f where "f \<in> set requested" "ef_Name f = ef_Name g" by auto
        then have "k = ef_key cluster f" using key [of f g] g by auto
        with k \<open>f \<in> set requested\<close> show False by blast
      qed
      then have "g \<in> set ?del" using present [of g requested] g(1) by auto
      then show "k \<in> ef_key cluster ` set ?del" using g(2) by blast
    qed auto
    ultimately show ?thesis by (simp add: w3(2))
  qed
  from run req other show ?thesis by blast
qed

text \<open>
  Keys that no loop may change: those of no existing filter whose requested filters are all sent to
  creation although the key is taken.
\<close>

definition holds_at :: "('w \<Rightarrow> object_key \<Rightarrow> EnvoyFilter option) \<Rightarrow> object_key set \<Rightarrow> (object_key \<Rightarrow> EnvoyFilter option) \<Rightarrow> 'w \<Rightarrow> bool" where
  "holds_at efs K v w \<longleftrightarrow> (\<forall>k \<in> K. efs w k = v k)"

lemma keeping_loop:
  assumes "\<And>f w. f \<in> set fs \<Longrightarrow> I w \<Longrightarrow> \<exists>r w'. wr f w = Some (r, w') \<and> I w'" "I w"
  shows "\<exists>w'. foreach (\<lambda>f (e, w). do { (r, w') \<leftarrow> wr f w; Some (e, w') }) fs (e, w) = Some (e, w') \<and> I w'"
  using assms
proof (induction fs arbitrary: w)
  case (Cons f fs)
  then obtain r w1 where "wr f w = Some (r, w1)" "I w1" by (meson list.set_intros(1))
  with Cons.IH [of w1] Cons.prems(1) show ?case by auto
qed simp

lemma create_keeps:
  assumes "ef_laws api efs" "ef_Annotations f \<noteq> None" "holds_at efs K v w" "ef_key c f \<in> K \<longrightarrow> v (ef_key c f) \<noteq> None"
  shows "\<exists>r w'. CreateEnvoyFilter api c f w = Some (r, w') \<and> holds_at efs K v w'"
proof -
  let ?f = "f\<lparr>ef_Annotations := stamp (api_Now api w) (ef_Annotations f)\<rparr>"
  have key: "ef_key c ?f = ef_key c f" by (simp add: ef_key_def)
  have "if efs w (ef_key c ?f) = None \<and> ef_ResourceVersion ?f = [] then
          (\<exists>r w' rv. api_CreateEF api c (ef_Namespace ?f) ?f w = (Inr r, w')
             \<and> efs w' = (efs w)(ef_key c ?f \<mapsto> ?f\<lparr>ef_ResourceVersion := rv\<rparr>))
        else (\<exists>e w'. api_CreateEF api c (ef_Namespace ?f) ?f w = (Inl e, w') \<and> efs w' = efs w)"
    using assms(1) unfolding ef_laws_def Let_def by blast
  then obtain r w' where w': "api_CreateEF api c (ef_Namespace ?f) ?f w = (r, w')"
    "efs w' = efs w \<or> efs w (ef_key c f) = None \<and> (\<exists>x. efs w' = (efs w)(ef_key c f \<mapsto> x))"
    unfolding key by (auto split: if_splits)
  have "holds_at efs K v w'" using w'(2) assms(3,4) by (auto simp: holds_at_def)
  with w'(1) assms(2) show ?thesis by (simp add: CreateEnvoyFilter_def)
qed

lemma update_keeps:
  assumes "ef_laws api efs" "ef_Annotations f \<noteq> None" "holds_at efs K v w" "ef_key c f \<notin> K"
  shows "\<exists>r w'. UpdateEnvoyFilter api c f w = Some (r, w') \<and> holds_at efs K v w'"
proof -
  let ?f = "f\<lparr>ef_Annotations := stamp (api_Now api w) (ef_Annotations f)\<rparr>"
  have key: "ef_key c ?f = ef_key c f" by (simp add: ef_key_def)
  have "if map_option ef_ResourceVersion (efs w (ef_key c ?f)) = Some (ef_ResourceVersion ?f) then
          (\<exists>r w' rv. api_UpdateEF api c (ef_Namespace ?f) ?f w = (Inr r, w')
             \<and> efs w' = (efs w)(ef_key c ?f \<mapsto> ?f\<lparr>ef_ResourceVersion := rv\<rparr>))
        else (\<exists>e w'. api_UpdateEF api c (ef_Namespace ?f) ?f w = (Inl e, w') \<and> efs w' = efs w)"
    using assms(1) unfolding ef_laws_def Let_def by blast
  then obtain r w' where w': "api_UpdateEF api c (ef_Namespace ?f) ?f w = (r, w')"
    "efs w' = efs w \<or> (\<exists>x. efs w' = (efs w)(ef_key c f \<mapsto> x))"
    unfolding key by (auto split: if_splits)
  have "holds_at efs K v w'" using w'(2) assms(3,4) by (auto simp: holds_at_def)
  with w'(1) assms(2) show ?thesis by (simp add: UpdateEnvoyFilter_def)
qed

lemma apply_keeps:
  assumes laws: "ef_laws api efs" and ann: "\<forall>f \<in> set requested. ef_Annotations f \<noteq> None"
    and ex: "\<forall>f \<in> set existing. ef_key c f \<notin> K"
    and req: "\<forall>f \<in> set requested. ef_key c f \<in> K \<longrightarrow> efs w (ef_key c f) \<noteq> None \<and> \<not> checkIfPresent f existing"
  shows "\<exists>w'. ApplyEnvoyFilters api c requested existing w = Some (None, w') \<and> (\<forall>k \<in> K. efs w' k = efs w k)"
proof -
  let ?I = "holds_at efs K (efs w)"
  have start: "?I w" by (simp add: holds_at_def)
  have cre: "\<exists>w1. CreateEnvoyFilters api c fs u = Some (None, w1) \<and> ?I w1"
    if "set fs \<subseteq> set requested" "?I u" for fs u
    unfolding CreateEnvoyFilters_def
    by (rule keeping_loop [where I = ?I, OF create_keeps [OF laws] that(2)]) (use that(1) ann req in auto)
  have upd: "\<exists>w2. UpdateEnvoyFilters api c fs u = Some (None, w2) \<and> ?I w2"
    if "\<forall>f \<in> set fs. f \<in> set requested \<and> checkIfPresent f existing" "?I u" for fs u
    unfolding UpdateEnvoyFilters_def
    by (rule keeping_loop [where I = ?I, OF update_keeps [OF laws] that(2)]) (use that(1) ann req in auto)
  have del: "\<exists>w3. DeleteEnvoyFilters api c fs u = (None, w3) \<and> ?I w3" if "set fs \<subseteq> set existing" "?I u" for fs u
  proof -
    obtain w3 where "DeleteEnvoyFilters api c fs u = (None, w3)"
      "efs w3 = (\<lambda>k. if k \<in> ef_key c ` set fs then None else efs u k)" by (rule delete_loop [OF laws])
    moreover have "k \<notin> ef_key c ` set fs" if "k \<in> K" for k using that ex \<open>set fs \<subseteq> set existing\<close> by auto
    ultimately show ?thesis using that(2) by (intro exI [of _ w3]) (simp add: holds_at_def)
  qed
  have keep: "(\<forall>k \<in> K. efs w' k = efs w k) \<longleftrightarrow> ?I w'" for w' by (simp add: holds_at_def)
  let ?cre = "if length requested > 0 then filter (\<lambda>f. \<not> checkIfPresent f existing) requested else []"
  let ?upd = "if length requested > 0 then filter (\<lambda>f. checkIfPresent f existing) requested else []"
  let ?del = "if length requested > 0 then filter (\<lambda>f. \<not> checkIfPresent f requested) existing else existing"
  obtain w1 where w1: "(if length ?cre > 0 then CreateEnvoyFilters api c ?cre w else Some (None, w)) = Some (None, w1)" "?I w1"
    using cre [of ?cre w] start by (cases "length ?cre > 0") auto
  obtain w2 where w2: "(if length ?upd > 0 then UpdateEnvoyFilters api c ?upd w1 else Some (None, w1)) = Some (None, w2)" "?I w2"
    using upd [of ?upd w1] w1(2) by (cases "length ?upd > 0") auto
  obtain w3 where w3: "(if length ?del > 0 then DeleteEnvoyFilters api c ?del w2 else (None, w2)) = (None, w3)" "?I w3"
    using del [OF _ w2(2), of ?del] w2(2) by (cases "length ?del > 0") (auto split: if_splits)
  have "ApplyEnvoyFilters api c requested existing w = Some (None, w3)"
    unfolding ApplyEnvoyFilters_def Let_def w1(1) by (simp only: bind.bind_lunit prod.case w2(1) w3(1))
  with w3(2) show ?thesis unfolding keep by blast
qed

text \<open>Applying filters panics only on a requested filter without annotations.\<close>

lemma apply_returns:
  assumes "\<forall>f \<in> set requested. ef_Annotations f \<noteq> None"
  shows "\<exists>e w'. ApplyEnvoyFilters api c requested existing w = Some (e, w')"
proof -
  have loop: "\<exists>x. foreach (\<lambda>f (e, w). do { (r, w') \<leftarrow> wr f w; Some (e, w') }) fs s = Some x"
    if "\<forall>f \<in> set fs. \<forall>w. wr f w \<noteq> None"
    for wr :: "EnvoyFilter \<Rightarrow> 'a \<Rightarrow> ((string + EnvoyFilter) \<times> 'a) option" and fs and s :: "string option \<times> 'a"
  proof -
    have "\<exists>t. foreach (\<lambda>f (e, w). do { (r, w') \<leftarrow> wr f w; Some (e, w') }) fs s = Some t \<and> True"
      by (rule foreach_returns) (use that in \<open>auto split: prod.split\<close>, metis bind.bind_lunit not_None_eq old.prod.case surj_pair)
    then show ?thesis by blast
  qed
  let ?cre = "if length requested > 0 then filter (\<lambda>f. \<not> checkIfPresent f existing) requested else []"
  let ?upd = "if length requested > 0 then filter (\<lambda>f. checkIfPresent f existing) requested else []"
  let ?del = "if length requested > 0 then filter (\<lambda>f. \<not> checkIfPresent f requested) existing else existing"
  have sub: "\<forall>f \<in> set ?cre. ef_Annotations f \<noteq> None" "\<forall>f \<in> set ?upd. ef_Annotations f \<noteq> None" using assms by auto
  have "\<exists>x. CreateEnvoyFilters api c ?cre w = Some x"
    unfolding CreateEnvoyFilters_def by (rule loop) (use sub(1) in \<open>auto simp: CreateEnvoyFilter_def Let_def split: prod.split\<close>)
  then obtain e1 w1 where w1: "(if length ?cre > 0 then CreateEnvoyFilters api c ?cre w else Some (None, w)) = Some (e1, w1)"
    by (cases "length ?cre > 0") auto
  have "\<exists>x. UpdateEnvoyFilters api c ?upd w1 = Some x"
    unfolding UpdateEnvoyFilters_def by (rule loop) (use sub(2) in \<open>auto simp: UpdateEnvoyFilter_def Let_def split: prod.split\<close>)
  then obtain e2 w2 where w2: "(if length ?upd > 0 then UpdateEnvoyFilters api c ?upd w1 else Some (None, w1)) = Some (e2, w2)"
    by (cases "length ?upd > 0") auto
  obtain e3 w3 where w3: "(if length ?del > 0 then DeleteEnvoyFilters api c ?del w2 else (None, w2)) = (e3, w3)" by fastforce
  have "ApplyEnvoyFilters api c requested existing w = Some (None, w3)"
    unfolding ApplyEnvoyFilters_def Let_def w1 by (simp only: bind.bind_lunit prod.case w2 w3)
  then show ?thesis by blast
qed

subsection \<open>Properties\<close>

text \<open>
  C16: when the requested filters have distinct lower-case names in one namespace, carry the stored
  resource version exactly when they are among the existing ones, and the existing list is what is
  stored of them, \<open>ApplyEnvoyFilters\<close> leaves every requested filter stored as requested (up to
  resource version and timestamp), removes every existing filter that was not requested, and touches
  nothing else of any cluster.
\<close>

theorem apply_envoy_filters_converges:
  assumes "ef_laws api efs"
    and "distinct (map ef_Name requested)"
    and "\<forall>f \<in> set requested \<union> set existing. ef_Namespace f = ns \<and> ToLower (ef_Name f) = ef_Name f"
    and "\<forall>f \<in> set requested. ef_Annotations f \<noteq> None"
    and "\<forall>f \<in> set requested. if ef_Name f \<in> ef_Name ` set existing
      then map_option ef_ResourceVersion (efs w (ef_key cluster f)) = Some (ef_ResourceVersion f)
      else efs w (ef_key cluster f) = None \<and> ef_ResourceVersion f = []"
  shows "\<exists>w'. ApplyEnvoyFilters api cluster requested existing w = Some (None, w')
    \<and> (\<forall>f \<in> set requested. \<exists>g. efs w' (ef_key cluster f) = Some g \<and> applied_as f g)
    \<and> (\<forall>k. k \<notin> ef_key cluster ` set requested \<longrightarrow>
          efs w' k = (if k \<in> ef_key cluster ` set existing then None else efs w k))"
  using assms by (rule apply_converges)

text \<open>
  No error ever reaches the callers of the envoy filter operations: whatever the API server
  answers, \<open>CreateEnvoyFilters\<close>, \<open>UpdateEnvoyFilters\<close>, \<open>DeleteEnvoyFilters\<close> and \<open>ApplyEnvoyFilters\<close>
  answer a nil error, because the joined error is dropped in each of them.
\<close>

theorem envoy_filter_errors_dropped:
  "(\<forall>e w'. CreateEnvoyFilters api cluster fs w = Some (e, w') \<longrightarrow> e = None)
   \<and> (\<forall>e w'. UpdateEnvoyFilters api cluster fs w = Some (e, w') \<longrightarrow> e = None)
   \<and> fst (DeleteEnvoyFilters api cluster fs w) = None
   \<and> (\<forall>e w'. ApplyEnvoyFilters api cluster fs gs w = Some (e, w') \<longrightarrow> e = None)"
proof -
  have loop: "e' = e" if "foreach (\<lambda>f (e, w). do { (r, w') \<leftarrow> wr f w; Some (e, w') }) fs (e, w) = Some (e', w')"
    for wr :: "EnvoyFilter \<Rightarrow> 'a \<Rightarrow> ((string + EnvoyFilter) \<times> 'a) option" and e e' :: "string option" and w w'
    using that by (induction fs arbitrary: w) (auto split: option.splits bind_splits prod.splits)
  have "fst (fold (\<lambda>f (errorList, w).
       (let (e, w') = DeleteEnvoyFilter api cluster (ef_Name f) (ef_Namespace f) w in (errorList, w')))
       fs (err, w)) = err" for err :: "string option" and w
    by (induction fs arbitrary: w) (auto simp: Let_def split: prod.splits)
  then have "fst (DeleteEnvoyFilters api cluster fs w) = None" by (simp add: DeleteEnvoyFilters_def)
  moreover have "e = None" if "ApplyEnvoyFilters api cluster fs gs w = Some (e, w')" for e w'
    using that by (auto simp: ApplyEnvoyFilters_def Let_def split: bind_splits prod.splits)
  ultimately show ?thesis
    unfolding CreateEnvoyFilters_def UpdateEnvoyFilters_def by (blast dest: loop)
qed

subsection \<open>Witnesses\<close>

text \<open>
  An API server that keeps its promises: two maps, resource versions that grow by one character with
  every write, and a fixed clock.  The version of a virtual service is kept beside the object.
\<close>

type_synonym server = "(object_key, EnvoyFilter) gomap \<times> (object_key, nat \<times> VirtualService) gomap"

definition versioned :: "nat \<times> VirtualService \<Rightarrow> VirtualService" where
  "versioned = (\<lambda>(n, v). v\<lparr>vs_ResourceVersion := replicate (Suc n) (CHR ''1'')\<rparr>)"

definition has_labels :: "selector \<Rightarrow> labels option \<Rightarrow> bool" where
  "has_labels sel ls = list_all (\<lambda>(k, v). \<exists>x \<in> set (elems ls). x = (k, v)) sel"

definition vs_key :: "string \<Rightarrow> VirtualService \<Rightarrow> object_key" where
  "vs_key cluster vs = (cluster, vs_Namespace vs, vs_Name vs)"

definition stored_as :: "object_key \<Rightarrow> EnvoyFilter \<Rightarrow> EnvoyFilter" where
  "stored_as k f = f\<lparr>ef_Namespace := fst (snd k), ef_Name := snd (snd k)\<rparr>"

definition sample_efs :: "server \<Rightarrow> object_key \<Rightarrow> EnvoyFilter option" where
  "sample_efs w k = map_option (stored_as k) (gm_get (fst w) k)"

definition sample_api :: "server istio_api" where
  "sample_api =
     \<lparr>api_Now = (\<lambda>_. ''now''),
      api_GetEF = (\<lambda>c ns n w. case sample_efs w (c, ns, n) of None \<Rightarrow> (None, Some ''not found'') | Some f \<Rightarrow> (Some f, None)),
      api_ListEF = (\<lambda>c ns sel w. (Some (filter (\<lambda>f. has_labels sel (ef_Labels f))
        (map (\<lambda>k. the (sample_efs w k)) (filter (\<lambda>k. fst k = c \<and> fst (snd k) = ns) (remdups (map fst (fst w)))))), None)),
      api_CreateEF = (\<lambda>c ns f w.
        if gm_get (fst w) (c, ns, ef_Name f) = None \<and> ef_ResourceVersion f = []
        then (Inr f, (gm_put (c, ns, ef_Name f) (f\<lparr>ef_ResourceVersion := ''1''\<rparr>) (fst w), snd w))
        else (Inl ''already exists'', w)),
      api_UpdateEF = (\<lambda>c ns f w.
        if map_option ef_ResourceVersion (gm_get (fst w) (c, ns, ef_Name f)) = Some (ef_ResourceVersion f)
        then (Inr f, (gm_put (c, ns, ef_Name f) (f\<lparr>ef_ResourceVersion := CHR ''1'' # ef_ResourceVersion f\<rparr>) (fst w), snd w))
        else (Inl ''conflict'', w)),
      api_DeleteEF = (\<lambda>c ns n w. (None, (gm_del (c, ns, n) (fst w), snd w))),
      api_GetVS = (\<lambda>c ns n w. case gm_get (snd w) (c, ns, n) of None \<Rightarrow> (None, Some ''not found'') | Some v \<Rightarrow> (Some (versioned v), None)),
      api_CreateVS = (\<lambda>c ns v w.
        if gm_get (snd w) (c, ns, vs_Name v) = None \<and> vs_ResourceVersion v = []
        then (Inr v, (fst w, gm_put (c, ns, vs_Name v) (0, v) (snd w)))
        else (Inl ''already exists'', w)),
      api_UpdateVS = (\<lambda>c ns v w.
        if map_option (\<lambda>x. vs_ResourceVersion (versioned x)) (gm_get (snd w) (c, ns, vs_Name v)) = Some (vs_ResourceVersion v)
        then (Inr v, (fst w, gm_put (c, ns, vs_Name v) (length (vs_ResourceVersion v), v) (snd w)))
        else (Inl ''conflict'', w)),
      api_DeleteVS = (\<lambda>c ns n w. (None, (fst w, gm_del (c, ns, n) (snd w))))\<rparr>"

lemma sample_efs_put: "sample_efs (gm_put k f a, b) = (sample_efs (a, b))(k \<mapsto> stored_as k f)"
  and sample_efs_del: "sample_efs (gm_del k a, b) = (sample_efs (a, b))(k := None)"
  by (auto simp: sample_efs_def fun_eq_iff)

lemma sample_efs_None: "sample_efs w k = None \<longleftrightarrow> gm_get (fst w) k = None"
  and sample_efs_rv: "map_option ef_ResourceVersion (sample_efs w k) = map_option ef_ResourceVersion (gm_get (fst w) k)"
  by (simp_all add: sample_efs_def option.map_comp comp_def stored_as_def)

lemma sample_ef_laws: "ef_laws sample_api sample_efs"
proof -
  have own: "stored_as (cluster, ef_Namespace f, ef_Name f) (f\<lparr>ef_ResourceVersion := rv\<rparr>) = f\<lparr>ef_ResourceVersion := rv\<rparr>"
    for cluster rv f by (simp add: stored_as_def)
  show ?thesis
    unfolding ef_laws_def Let_def ef_key_def
  proof (intro conjI allI)
    fix cluster ef w
    show "if sample_efs w (cluster, ef_Namespace ef, ef_Name ef) = None \<and> ef_ResourceVersion ef = [] then
          (\<exists>r w' rv. api_CreateEF sample_api cluster (ef_Namespace ef) ef w = (Inr r, w')
             \<and> sample_efs w' = (sample_efs w)((cluster, ef_Namespace ef, ef_Name ef) \<mapsto> ef\<lparr>ef_ResourceVersion := rv\<rparr>))
        else (\<exists>e w'. api_CreateEF sample_api cluster (ef_Namespace ef) ef w = (Inl e, w') \<and> sample_efs w' = sample_efs w)"
      by (cases w) (auto simp: sample_api_def sample_efs_put sample_efs_None own)
    show "if map_option ef_ResourceVersion (sample_efs w (cluster, ef_Namespace ef, ef_Name ef)) = Some (ef_ResourceVersion ef) then
          (\<exists>r w' rv. api_UpdateEF sample_api cluster (ef_Namespace ef) ef w = (Inr r, w')
             \<and> sample_efs w' = (sample_efs w)((cluster, ef_Namespace ef, ef_Name ef) \<mapsto> ef\<lparr>ef_ResourceVersion := rv\<rparr>))
        else (\<exists>e w'. api_UpdateEF sample_api cluster (ef_Namespace ef) ef w = (Inl e, w') \<and> sample_efs w' = sample_efs w)"
      by (cases w) (auto simp: sample_api_def sample_efs_put sample_efs_rv own)
  next
    fix cluster ns name w
    show "\<exists>e w'. api_DeleteEF sample_api cluster ns name w = (e, w') \<and> sample_efs w' = (sample_efs w)((cluster, ns, name) := None)"
      by (cases w) (simp add: sample_api_def sample_efs_del)
  qed
qed

definition sample_filter :: "string \<Rightarrow> string \<Rightarrow> EnvoyFilter" where
  "sample_filter name rv =
     \<lparr>ef_Name = name, ef_Namespace = ''istio-system'', ef_ResourceVersion = rv, ef_Annotations = Some [],
      ef_Labels = Some [], ef_Priority = 0, ef_WorkloadSelector = [], ef_ConfigPatches = []\<rparr>"

definition sample_server :: server where
  "sample_server = ([((''c1'', ''istio-system'', ''a''), sample_filter ''a'' ''7''),
     ((''c1'', ''istio-system'', ''b''), sample_filter ''b'' ''9'')], [])"

theorem apply_envoy_filters_converges_witness:
  "\<exists>w'. ApplyEnvoyFilters sample_api ''c1'' [sample_filter ''a'' ''7'', sample_filter ''c'' []]
      [sample_filter ''a'' ''7'', sample_filter ''b'' ''9''] sample_server = Some (None, w')
    \<and> sample_efs w' (''c1'', ''istio-system'', ''b'') = None
    \<and> sample_efs w' (''c1'', ''istio-system'', ''c'') \<noteq> None"
proof -
  let ?req = "[sample_filter ''a'' ''7'', sample_filter ''c'' []]"
  let ?ex = "[sample_filter ''a'' ''7'', sample_filter ''b'' ''9'']"
  have low: "ToLower ''a'' = ''a''" "ToLower ''b'' = ''b''" "ToLower ''c'' = ''c''" by code_simp+
  have "\<exists>w'. ApplyEnvoyFilters sample_api ''c1'' ?req ?ex sample_server = Some (None, w')
    \<and> (\<forall>f \<in> set ?req. \<exists>g. sample_efs w' (ef_key ''c1'' f) = Some g \<and> applied_as f g)
    \<and> (\<forall>k. k \<notin> ef_key ''c1'' ` set ?req \<longrightarrow>
          sample_efs w' k = (if k \<in> ef_key ''c1'' ` set ?ex then None else sample_efs sample_server k))"
    by (rule apply_envoy_filters_converges [OF sample_ef_laws, where ns = "''istio-system''"])
      (use low in \<open>simp_all add: sample_filter_def sample_server_def ef_key_def gm_get_Cons gm_get_def sample_efs_def stored_as_def\<close>)
  then obtain w' where w': "ApplyEnvoyFilters sample_api ''c1'' ?req ?ex sample_server = Some (None, w')"
    "\<forall>f \<in> set ?req. \<exists>g. sample_efs w' (ef_key ''c1'' f) = Some g"
    "\<forall>k. k \<notin> ef_key ''c1'' ` set ?req \<longrightarrow>
        sample_efs w' k = (if k \<in> ef_key ''c1'' ` set ?ex then None else sample_efs sample_server k)"
    by blast
  have "sample_efs w' (''c1'', ''istio-system'', ''b'') = None"
    using w'(3) [rule_format, of "(''c1'', ''istio-system'', ''b'')"] by (simp add: ef_key_def sample_filter_def)
  moreover have "sample_efs w' (''c1'', ''istio-system'', ''c'') \<noteq> None"
    using w'(2) by (simp add: ef_key_def sample_filter_def)
  ultimately show ?thesis using w'(1) by blast
qed

text \<open>With a server that refuses every write, applying a filter stores nothing and reports success.\<close>

definition refusing_api :: "server istio_api" where
  "refusing_api = sample_api\<lparr>api_CreateEF := (\<lambda>c ns f w. (Inl ''forbidden'', w))\<rparr>"

theorem envoy_filter_errors_dropped_witness:
  "\<exists>w'. ApplyEnvoyFilters refusing_api ''c1'' [sample_filter ''c'' []] [] ([], []) = Some (None, w') \<and> fst w' = []"
proof -
  obtain e w' where r: "ApplyEnvoyFilters refusing_api ''c1'' [sample_filter ''c'' []] [] ([], []) = Some (e, w')" "fst w' = []"
    by (simp add: ApplyEnvoyFilters_def CreateEnvoyFilters_def CreateEnvoyFilter_def refusing_api_def sample_filter_def Let_def)
  moreover have "e = None"
    using envoy_filter_errors_dropped [of refusing_api "''c1''" "[sample_filter ''c'' []]" "([], [])" "[]"] r(1) by blast
  ultimately show ?thesis by blast
qed

end
