(* ===== verification/VirtualServiceBuild.thy ===== *)
theory VirtualServiceBuild
  imports IstioTypes "HOL-Library.Signed_Division"
begin

text \<open>
  The construction of the virtual service of a traffic config, from
  \<open>internal/handler/trafficconfig/virtual_service.go\<close>: route details, weights, match rules, the
  allow-all rules and the object itself.

  Durations are protobuf's: \<open>ex_AsDuration\<close> is \<open>AsDuration\<close> in nanoseconds, also of a nil pointer, and
  \<open>ex_NewDuration\<close> is \<open>durationpb.New\<close>.  What is used of them is \<open>durations_ok\<close>.  The regular
  expression matcher and the duration parser used by other handlers are in the same record.
  Functions that dereference the edge service get it as an argument: their callers have checked it.
\<close>

record externals =
  ex_MatchString :: "string \<Rightarrow> string \<Rightarrow> bool option"
  ex_ParseDuration :: "string \<Rightarrow> int option"
  ex_AsDuration :: "Duration option \<Rightarrow> int"
  ex_NewDuration :: "int \<Rightarrow> Duration"

definition durations_ok :: "externals \<Rightarrow> bool" where
  "durations_ok ex \<longleftrightarrow> ex_AsDuration ex None = 0
     \<and> (\<forall>d. \<bar>dur_Seconds d * 1000000000 + dur_Nanos d\<bar> < 2 ^ 63 \<longrightarrow>
          ex_AsDuration ex (Some d) = dur_Seconds d * 1000000000 + dur_Nanos d)
     \<and> (\<forall>n. \<bar>n\<bar> < 2 ^ 63 \<longrightarrow> ex_NewDuration ex n =
          \<lparr>dur_Seconds = n sdiv 1000000000, dur_Nanos = n smod 1000000000\<rparr>)"

type_synonym weight_map = "(string, int) gomap"
type_synonym app_dialing = "(string, (string, weight_map) gomap) gomap"

record endpointWeight =
  ew_endpoint :: string
  ew_weight :: int

record routeTargetInfo =
  ri_targetGroupSelector :: string
  ri_meshEndpoint :: string

record RouteDetails =
  det_RouteName :: string
  det_Inbound :: string
  det_Outbound :: string
  det_ConfigDetails :: "routeTargetInfo list"
  det_Timeout :: "Duration option"
  det_ServiceDialDetails :: "endpointWeight list"
  det_AppDialingDetails :: "(string, endpointWeight list) gomap"

subsection \<open>Dial details\<close>

fun find_target :: "string \<Rightarrow> Target list \<Rightarrow> Target option" where
  "find_target name [] = None"
| "find_target name (t # ts) = (if tg_Name t = name then Some t else find_target name ts)"

text \<open>
  The endpoint a route config dials: the mesh name of the selected target, or the host of the route's
  first environment when the target has none; the bare environment when no target is selected.
\<close>

definition getMeshDNSForTargetGroup :: "NaavikArgs \<Rightarrow> TrafficConfig \<Rightarrow> EdgeService \<Rightarrow> RouteTarget \<Rightarrow> Route \<Rightarrow> string" where
  "getMeshDNSForTargetGroup p tc es configDetails route =
     (if es_Targets es = None then []
      else if length (rt_WorkloadEnvSelectors route) = 0 then []
      else (let finalTargetWorkloadENV = rt_WorkloadEnvSelectors route ! 0 in
        (case find_target (TargetSelector configDetails) (elems (es_Targets es)) of
           None \<Rightarrow> finalTargetWorkloadENV
         | Some t \<Rightarrow>
             if length (tg_MeshDNS t) = 0
             then GetHost finalTargetWorkloadENV (TC_GetIdentityLowerCase p tc) (HostnameSuffix p)
             else ToLower (tg_MeshDNS t))))"

text \<open>Milliseconds to a duration; the nanoseconds are computed in 32 bits.\<close>

definition getRouteTimeout :: "Route \<Rightarrow> Duration" where
  "getRouteTimeout route =
     \<lparr>dur_Seconds = rt_Timeout route sdiv 1000,
      dur_Nanos = sint ((word_of_int (rt_Timeout route smod 1000) :: 32 word) * 1000 * 1000)\<rparr>"

text \<open>Route names per target group: a name is appended once for every matching weight.\<close>

definition append_route :: "string \<Rightarrow> string \<Rightarrow> (string, string list) gomap \<Rightarrow> (string, string list) gomap" where
  "append_route tg name m =
     (case gm_get m tg of None \<Rightarrow> gm_put tg [name] m | Some v \<Rightarrow> gm_put tg (v @ [name]) m)"

definition route_names_of_weights ::
    "string \<Rightarrow> string \<Rightarrow> string \<Rightarrow> Weight list \<Rightarrow> (string, string list) gomap \<Rightarrow> (string, string list) gomap" where
  "route_names_of_weights tg sel name ws m =
     fold (\<lambda>w m. if we_Name w = sel then append_route tg name m else m) ws m"

definition getTargetGroupRouteNameMap :: "EdgeService \<Rightarrow> (string, string list) gomap" where
  "getTargetGroupRouteNameMap es =
     fold (\<lambda>route. fold (\<lambda>routeConfig. fold (\<lambda>targetGroup m.
         let m1 = route_names_of_weights (tgr_Name targetGroup) (TargetGroupSelector routeConfig) (rt_Name route)
                    (tgr_Weights targetGroup) m
         in fold (\<lambda>appOverride. route_names_of_weights (tgr_Name targetGroup) (TargetGroupSelector routeConfig)
                    (rt_Name route) (ao_Weights appOverride)) (elems (tgr_AppOverrides targetGroup)) m1)
       (elems (es_TargetGroups es))) (elems (rt_Config route))) (es_Routes es) []"

definition weights_map :: "Weight list \<Rightarrow> weight_map \<Rightarrow> weight_map" where
  "weights_map ws m = fold (\<lambda>w. gm_put (we_Name w) (we_Weight w)) ws m"

text \<open>
  The map of an app's weights is stored by reference under every route of the group while it is being
  filled, so after the group every such route holds the whole map; a group without overrides stores
  nothing.
\<close>

definition target_group_step ::
    "(string, string list) gomap \<Rightarrow> TargetGroup \<Rightarrow> app_dialing \<times> weight_map \<Rightarrow> app_dialing \<times> weight_map" where
  "target_group_step tgRouteMap tGroup = (\<lambda>(appDialingPerTG, serviceDialDetails).
     let overrides = elems (tgr_AppOverrides tGroup);
         appAssetToWeightPercentageMap =
           fold (\<lambda>ao. gm_put (ao_AssetAlias ao) (weights_map (ao_Weights ao) [])) overrides [];
         appDialingPerTG' =
           (if overrides = [] then appDialingPerTG
            else (case gm_get tgRouteMap (tgr_Name tGroup) of
              None \<Rightarrow> appDialingPerTG
            | Some routes \<Rightarrow> fold (\<lambda>routeName. gm_put routeName appAssetToWeightPercentageMap) routes appDialingPerTG))
     in (appDialingPerTG', weights_map (tgr_Weights tGroup) serviceDialDetails))"

definition buildTargetGroupRouteNameMap ::
    "EdgeService \<Rightarrow> (string, string list) gomap \<Rightarrow> app_dialing \<times> weight_map \<Rightarrow> app_dialing \<times> weight_map" where
  "buildTargetGroupRouteNameMap es tgRouteMap = fold (target_group_step tgRouteMap) (elems (es_TargetGroups es))"

definition constructServiceDialRoute :: "weight_map \<Rightarrow> routeTargetInfo list \<Rightarrow> endpointWeight list" where
  "constructServiceDialRoute serviceDialDetails routeTargetInfos =
     (if length routeTargetInfos = 1 \<and> ri_targetGroupSelector (routeTargetInfos ! 0) = []
      then [\<lparr>ew_endpoint = ri_meshEndpoint (routeTargetInfos ! 0), ew_weight = 100\<rparr>]
      else fold (\<lambda>routeInfo acc.
        (case gm_get serviceDialDetails (ri_targetGroupSelector routeInfo) of
           None \<Rightarrow> acc
         | Some weight \<Rightarrow> acc @ [\<lparr>ew_endpoint = ri_meshEndpoint routeInfo, ew_weight = weight\<rparr>])) routeTargetInfos [])"

definition constructAppDialRoutes ::
    "(string, weight_map) gomap \<Rightarrow> RouteDetails \<Rightarrow> (string, endpointWeight list) gomap \<Rightarrow> (string, endpointWeight list) gomap" where
  "constructAppDialRoutes dialing routeDetails =
     fold (\<lambda>(appAssetAlias, appWeights) out.
       let appWeightMap = fold (\<lambda>(name, weight). fold (\<lambda>routeConfig acc.
             if ri_targetGroupSelector routeConfig = name
             then acc @ [\<lparr>ew_endpoint = ri_meshEndpoint routeConfig, ew_weight = weight\<rparr>] else acc)
           (det_ConfigDetails routeDetails)) appWeights []
       in if length appWeightMap \<noteq> 0 then gm_put appAssetAlias appWeightMap out else out) dialing"

text \<open>Indexing a map of maps by a missing route gives a nil map, which a range skips.\<close>

definition route_details :: "NaavikArgs \<Rightarrow> TrafficConfig \<Rightarrow> EdgeService \<Rightarrow> app_dialing \<Rightarrow> weight_map \<Rightarrow> Route \<Rightarrow> RouteDetails" where
  "route_details p tc es AppDialingAcrossAllRoutes serviceDialDetails route =
     (let d0 = \<lparr>det_RouteName = rt_Name route, det_Inbound = rt_Inbound route, det_Outbound = rt_Outbound route,
            det_ConfigDetails = [], det_Timeout = Some (getRouteTimeout route),
            det_ServiceDialDetails = [], det_AppDialingDetails = []\<rparr>
      in case rt_Config route of
           None \<Rightarrow> d0
         | Some configs \<Rightarrow>
             (let routeConfigs = map (\<lambda>configDetails.
                    \<lparr>ri_targetGroupSelector = TargetGroupSelector configDetails,
                     ri_meshEndpoint = getMeshDNSForTargetGroup p tc es configDetails route\<rparr>) configs;
                  d1 = d0\<lparr>det_ConfigDetails := routeConfigs\<rparr>;
                  dialing = (case gm_get AppDialingAcrossAllRoutes (rt_Name route) of None \<Rightarrow> [] | Some m \<Rightarrow> m)
              in d1\<lparr>det_ServiceDialDetails := constructServiceDialRoute serviceDialDetails routeConfigs,
                    det_AppDialingDetails := constructAppDialRoutes dialing d1 []\<rparr>))"

definition getCombinedRouteDetails ::
    "NaavikArgs \<Rightarrow> TrafficConfig \<Rightarrow> EdgeService \<Rightarrow> app_dialing \<Rightarrow> weight_map \<Rightarrow> RouteDetails list" where
  "getCombinedRouteDetails p tc es appDialing serviceDialDetails =
     map (route_details p tc es appDialing serviceDialDetails) (es_Routes es)"

subsection \<open>Match rules\<close>

definition uri_prefix :: "string \<Rightarrow> HTTPMatchRequest" where
  "uri_prefix inbound = \<lparr>mr_Uri = Some (MatchPrefix inbound), mr_Authority = None\<rparr>"

text \<open>Timeouts of at most a millisecond are dropped.\<close>

definition getFinalRouteTimeout :: "externals \<Rightarrow> Duration option \<Rightarrow> Duration option" where
  "getFinalRouteTimeout ex timeout = (if ex_AsDuration ex timeout > 1000000 then timeout else None)"

definition destination :: "endpointWeight \<Rightarrow> HTTPRouteDestination" where
  "destination e = \<lparr>rd_Host = ew_endpoint e, rd_Weight = word_of_int (ew_weight e)\<rparr>"

definition buildAppDialRules :: "externals \<Rightarrow> RouteDetails \<Rightarrow> HTTPRoute list" where
  "buildAppDialRules ex route =
     map (\<lambda>(appAssetAlias, routeWeights).
       \<lparr>hr_Name = det_RouteName route @ ''-'' @ appAssetAlias,
        hr_Match = Some [uri_prefix (det_Inbound route)],
        hr_Route = map destination routeWeights,
        hr_Rewrite = Some (det_Outbound route),
        hr_Timeout = getFinalRouteTimeout ex (det_Timeout route)\<rparr>) (det_AppDialingDetails route)"

definition buildServiceDialRule :: "externals \<Rightarrow> RouteDetails \<Rightarrow> HTTPRoute" where
  "buildServiceDialRule ex route =
     \<lparr>hr_Name = det_RouteName route,
      hr_Match = Some [uri_prefix (det_Inbound route)],
      hr_Route = map destination (det_ServiceDialDetails route),
      hr_Rewrite = Some (det_Outbound route),
      hr_Timeout = getFinalRouteTimeout ex (det_Timeout route)\<rparr>"

definition buildRuleWhenRouteConfigEmpty ::
    "externals \<Rightarrow> NaavikArgs \<Rightarrow> TrafficConfig \<Rightarrow> EdgeService \<Rightarrow> RouteDetails \<Rightarrow> HTTPRoute list" where
  "buildRuleWhenRouteConfigEmpty ex p tc es routeDetails =
     concat (map (\<lambda>route.
       if rt_Name route = det_RouteName routeDetails then
         map (\<lambda>env.
           \<lparr>hr_Name = det_RouteName routeDetails @ ''-'' @ env,
            hr_Match = Some [uri_prefix (rt_Inbound route)],
            hr_Route = [\<lparr>rd_Host = GetHost env (TC_GetIdentityLowerCase p tc) (HostnameSuffix p), rd_Weight = 0\<rparr>],
            hr_Rewrite = Some (rt_Outbound route),
            hr_Timeout = getFinalRouteTimeout ex (det_Timeout routeDetails)\<rparr>) (rt_WorkloadEnvSelectors route)
       else []) (es_Routes es))"

definition buildMatchRulesForVirtualService ::
    "externals \<Rightarrow> NaavikArgs \<Rightarrow> TrafficConfig \<Rightarrow> EdgeService \<Rightarrow> RouteDetails list \<Rightarrow> HTTPRoute list" where
  "buildMatchRulesForVirtualService ex p tc es allRouteDetails =
     fold (\<lambda>route rules.
       let rules1 = (if length (det_AppDialingDetails route) \<noteq> 0 then rules @ buildAppDialRules ex route else rules);
           rules2 = (if length (det_ServiceDialDetails route) \<noteq> 0 then rules1 @ [buildServiceDialRule ex route] else rules1)
       in if length (det_ServiceDialDetails route) = 0 \<and> length (det_AppDialingDetails route) = 0
          then rules2 @ buildRuleWhenRouteConfigEmpty ex p tc es route else rules2) allRouteDetails []"

definition createAllowRouteMatch ::
    "externals \<Rightarrow> NaavikArgs \<Rightarrow> string \<Rightarrow> Duration option \<Rightarrow> string \<Rightarrow> string \<Rightarrow> string \<Rightarrow> HTTPRoute" where
  "createAllowRouteMatch ex p env timeout authorityHost routeName assetAlias =
     \<lparr>hr_Name = routeName,
      hr_Match = Some [\<lparr>mr_Uri = Some (MatchPrefix ''/''), mr_Authority = Some (MatchPrefix (ToLower authorityHost))\<rparr>],
      hr_Route = [\<lparr>rd_Host = GetHost env assetAlias (HostnameSuffix p), rd_Weight = 0\<rparr>],
      hr_Rewrite = None,
      hr_Timeout = (if getFinalRouteTimeout ex timeout \<noteq> None then timeout else None)\<rparr>"

text \<open>The timeout of the allow-all rules: the first one with the most seconds, if any has a second.\<close>

definition longest_timeout :: "HTTPRoute list \<Rightarrow> Duration option" where
  "longest_timeout rules =
     fold (\<lambda>httpRoute timeout.
       if hr_Match httpRoute \<noteq> None
       then (if dur_GetSeconds (hr_Timeout httpRoute) > dur_GetSeconds timeout then hr_Timeout httpRoute else timeout)
       else timeout) rules None"

definition addAllowAllRule ::
    "externals \<Rightarrow> NaavikArgs \<Rightarrow> TrafficConfig \<Rightarrow> HTTPRoute list \<Rightarrow> HTTPRoute list" where
  "addAllowAllRule ex p tc rules =
     rules @ map (\<lambda>env.
       let assetAlias = TC_GetIdentityLowerCase p tc;
           authorityHost = GetHost env assetAlias (HostnameSuffix p)
       in createAllowRouteMatch ex p env (longest_timeout rules) authorityHost (''defaultall'' @ ''-'' @ env) assetAlias)
     (tc_WorkloadEnv tc)"

subsection \<open>The virtual service\<close>

definition checkIfHostAlreadyExists :: "string list \<Rightarrow> string \<Rightarrow> bool" where
  "checkIfHostAlreadyExists vsHosts host = list_ex (\<lambda>vsHost. vsHost = host) vsHosts"

definition constructHostsForVirtualService :: "NaavikArgs \<Rightarrow> string list \<Rightarrow> string \<Rightarrow> string list" where
  "constructHostsForVirtualService p envs assetAlias =
     fold (\<lambda>env vsHosts.
       let meshHost = GetHost env assetAlias (HostnameSuffix p)
       in if \<not> checkIfHostAlreadyExists vsHosts meshHost then vsHosts @ [ToLower meshHost] else vsHosts) envs []"

definition getVirtualServiceName :: "NaavikArgs \<Rightarrow> string \<Rightarrow> string \<Rightarrow> string" where
  "getVirtualServiceName p env assetAlias =
     (let name = (\<lambda>envPrefix. GetHost envPrefix assetAlias (HostnameSuffix p) @ ''-'' @ ''vs'') in
      if env = ''qa'' then name ''qal''
      else if env = ''e2e'' then name ''e2e''
      else if env = ''prd'' then name ''prd''
      else if env = ''prf'' then name ''prf''
      else [])"

definition CreatedByKey :: string where "CreatedByKey = ''createdBy''"
definition CreatedTypeKey :: string where "CreatedTypeKey = ''createdType''"
definition CreatedForKey :: string where "CreatedForKey = ''createdFor''"
definition CreatedForEnvKey :: string where "CreatedForEnvKey = ''createdForEnv''"
definition CreatedForTrafficEnvKey :: string where "CreatedForTrafficEnvKey = ''createdForTrafficEnv''"
definition NaavikName :: string where "NaavikName = ''naavik''"

definition zeroVirtualService :: VirtualService where
  "zeroVirtualService = \<lparr>vs_Name = [], vs_Namespace = [], vs_ResourceVersion = [], vs_Annotations = None,
     vs_Labels = None, vs_Hosts = [], vs_Http = []\<rparr>"

definition buildVirtualServiceObject :: "NaavikArgs \<Rightarrow> TrafficConfig \<Rightarrow> HTTPRoute list \<Rightarrow> VirtualService" where
  "buildVirtualServiceObject p tc vsRoutes =
     \<lparr>vs_Name = getVirtualServiceName p (TC_GetEnv tc) (TC_GetIdentityLowerCase p tc),
      vs_Namespace = SyncNamespace p,
      vs_ResourceVersion = [],
      vs_Annotations = Some (gm_put CreatedForEnvKey (Join ''_'' (tc_WorkloadEnv tc))
         (gm_put TransactionIDKey (TC_GetTransactionID tc) (gm_put RevisionNumberKey (TC_GetRevision tc) []))),
      vs_Labels = Some (gm_put CreatedForTrafficEnvKey (TC_GetEnv tc) (gm_put CreatedByKey NaavikName
         (gm_put CreatedForKey (ToLower (TC_GetIdentity p tc)) []))),
      vs_Hosts = constructHostsForVirtualService p (tc_WorkloadEnv tc) (TC_GetIdentityLowerCase p tc),
      vs_Http = vsRoutes\<rparr>"

definition constructVSRouteWithoutTargetDetails ::
    "externals \<Rightarrow> NaavikArgs \<Rightarrow> TrafficConfig \<Rightarrow> EdgeService \<Rightarrow> Route \<Rightarrow> HTTPRoute list" where
  "constructVSRouteWithoutTargetDetails ex p tc es route =
     (if rt_Config route = None
      then buildRuleWhenRouteConfigEmpty ex p tc es
        \<lparr>det_RouteName = rt_Name route, det_Inbound = [], det_Outbound = [], det_ConfigDetails = [],
         det_Timeout = Some (ex_NewDuration ex (rt_Timeout route)), det_ServiceDialDetails = [],
         det_AppDialingDetails = []\<rparr>
      else [])"

definition buildVirtualServiceWithoutTargetDetails ::
    "externals \<Rightarrow> NaavikArgs \<Rightarrow> TrafficConfig \<Rightarrow> VirtualService option" where
  "buildVirtualServiceWithoutTargetDetails ex p tc =
     (case tc_EdgeService tc of
        None \<Rightarrow> None
      | Some es \<Rightarrow>
          (let httpRoutes = concat (map (constructVSRouteWithoutTargetDetails ex p tc es) (es_Routes es))
           in Some (buildVirtualServiceObject p tc (addAllowAllRule ex p tc httpRoutes))))"

definition buildVirtualServiceForMeshDependents ::
    "externals \<Rightarrow> NaavikArgs \<Rightarrow> TrafficConfig \<Rightarrow> string + VirtualService" where
  "buildVirtualServiceForMeshDependents ex p tc =
     (case tc_EdgeService tc of
        None \<Rightarrow> Inr zeroVirtualService
      | Some es \<Rightarrow>
          if length (es_Routes es) = 0 then Inl ''no routes present''
          else if es_Targets es = None \<or> es_TargetGroups es = None then
            (case buildVirtualServiceWithoutTargetDetails ex p tc of
               None \<Rightarrow> Inl ''service does not have edgeservice config details''
             | Some vs \<Rightarrow> Inr vs)
          else
            (let tgroupRouteNameMap = getTargetGroupRouteNameMap es;
                 (appDialingPerTG, serviceDialDetails) = buildTargetGroupRouteNameMap es tgroupRouteNameMap ([], []);
                 routeDetails = getCombinedRouteDetails p tc es appDialingPerTG serviceDialDetails;
                 allHTTPRules = buildMatchRulesForVirtualService ex p tc es routeDetails
             in Inr (buildVirtualServiceObject p tc (addAllowAllRule ex p tc allHTTPRules))))"

subsection \<open>Lemmas\<close>

lemma fold_append_concat: "fold (\<lambda>x acc. acc @ f x) xs acc = acc @ concat (map f xs)"
  by (induction xs arbitrary: acc) auto

lemma fold_option_append:
  "fold (\<lambda>x acc. case g x of None \<Rightarrow> acc | Some y \<Rightarrow> acc @ [h x y]) xs acc
     = acc @ concat (map (\<lambda>x. case g x of None \<Rightarrow> [] | Some y \<Rightarrow> [h x y]) xs)"
  by (induction xs arbitrary: acc) (auto split: option.split)

text \<open>Hosts: no duplicates, in lower case, one for each environment.\<close>

lemma constructHosts_props:
  "set (constructHostsForVirtualService p envs a) = (\<lambda>e. GetHost e a (HostnameSuffix p)) ` set envs
     \<and> distinct (constructHostsForVirtualService p envs a)"
proof -
  let ?f = "\<lambda>env vsHosts. let meshHost = GetHost env a (HostnameSuffix p)
       in if \<not> checkIfHostAlreadyExists vsHosts meshHost then vsHosts @ [ToLower meshHost] else vsHosts"
  have "set (fold ?f envs hs) = set hs \<union> (\<lambda>e. GetHost e a (HostnameSuffix p)) ` set envs
      \<and> (distinct hs \<longrightarrow> distinct (fold ?f envs hs))" for hs
    by (induction envs arbitrary: hs) (auto simp: Let_def checkIfHostAlreadyExists_def list_ex_iff)
  from this [of "[]"] show ?thesis by (simp add: constructHostsForVirtualService_def)
qed

text \<open>The weight of a name is the last one the target groups give it.\<close>

lemma weights_map_get:
  "gm_get (weights_map ws m) n = (case map_of (map (\<lambda>w. (we_Name w, we_Weight w)) (rev ws)) n of
     None \<Rightarrow> gm_get m n | Some x \<Rightarrow> Some x)"
proof (induction ws arbitrary: m)
  case Nil
  then show ?case by (simp add: weights_map_def)
next
  case (Cons w ws)
  have "weights_map (w # ws) m = weights_map ws (gm_put (we_Name w) (we_Weight w) m)"
    by (simp add: weights_map_def)
  with Cons show ?case by (auto simp: map_add_def split: option.splits)
qed

lemma weights_map_append: "weights_map (xs @ ys) m = weights_map ys (weights_map xs m)"
  by (simp add: weights_map_def)

definition all_weights :: "EdgeService \<Rightarrow> Weight list" where
  "all_weights es = concat (map tgr_Weights (elems (es_TargetGroups es)))"

lemma service_weights:
  "snd (buildTargetGroupRouteNameMap es names (a, s)) = weights_map (all_weights es) s"
proof -
  have "snd (fold (target_group_step names) gs (a, s)) = weights_map (concat (map tgr_Weights gs)) s" for gs a s
  proof (induction gs arbitrary: a s)
    case Nil
    then show ?case by (simp add: weights_map_def)
  next
    case (Cons g gs)
    obtain a' where "target_group_step names g (a, s) = (a', weights_map (tgr_Weights g) s)"
      by (simp add: target_group_step_def Let_def)
    with Cons show ?case by (simp add: weights_map_append)
  qed
  then show ?thesis by (simp add: buildTargetGroupRouteNameMap_def all_weights_def)
qed

lemma longest_timeout_max:
  assumes "r \<in> set rules" "hr_Match r \<noteq> None"
  shows "dur_GetSeconds (hr_Timeout r) \<le> dur_GetSeconds (longest_timeout rules)"
proof -
  let ?f = "\<lambda>httpRoute timeout. if hr_Match httpRoute \<noteq> None
       then (if dur_GetSeconds (hr_Timeout httpRoute) > dur_GetSeconds timeout then hr_Timeout httpRoute else timeout)
       else timeout"
  have "dur_GetSeconds t \<le> dur_GetSeconds (fold ?f rules t)
      \<and> (\<forall>r \<in> set rules. hr_Match r \<noteq> None \<longrightarrow> dur_GetSeconds (hr_Timeout r) \<le> dur_GetSeconds (fold ?f rules t))" for t
  proof (induction rules arbitrary: t)
    case Nil
    then show ?case by simp
  next
    case (Cons x xs)
    from Cons [of "?f x t"] show ?case by (auto split: if_splits)
  qed
  with assms show ?thesis unfolding longest_timeout_def by blast
qed

lemma longest_timeout_from: "longest_timeout rules = None \<or> (\<exists>r \<in> set rules. hr_Timeout r = longest_timeout rules)"
proof -
  let ?f = "\<lambda>httpRoute timeout. if hr_Match httpRoute \<noteq> None
       then (if dur_GetSeconds (hr_Timeout httpRoute) > dur_GetSeconds timeout then hr_Timeout httpRoute else timeout)
       else timeout"
  have "fold ?f rules t = t \<or> (\<exists>r \<in> set rules. hr_Timeout r = fold ?f rules t)" for t
  proof (induction rules arbitrary: t)
    case Nil
    then show ?case by simp
  next
    case (Cons x xs)
    from Cons [of "?f x t"] show ?case by (auto split: if_splits)
  qed
  from this [of None] show ?thesis unfolding longest_timeout_def by blast
qed

lemma sint_int32: "- (2 ^ 31) \<le> n \<Longrightarrow> n < 2 ^ 31 \<Longrightarrow> sint (word_of_int n :: 32 word) = n"
  unfolding sint_sbintrunc' by (rule signed_take_bit_int_eq_self) simp_all

text \<open>The 32-bit nanoseconds of a timeout do not wrap around.\<close>

lemma smod_bound: "\<bar>(t :: int) smod 1000\<bar> < 1000"
  by (simp add: signed_modulo_int_def signed_divide_int_def sgn_if abs_if zmod_minus1)
    (smt (verit, ccfv_SIG) minus_mult_div_eq_mod pos_mod_bound pos_mod_sign)

lemma timeout_nanos: "dur_Nanos (getRouteTimeout r) = (rt_Timeout r smod 1000) * 1000000"
proof -
  let ?n = "rt_Timeout r smod 1000"
  have "sint ((word_of_int ?n :: 32 word) * 1000 * 1000) = sint (word_of_int (?n * 1000000) :: 32 word)"
    by (simp add: of_int_mult mult.commute)
  also have "\<dots> = ?n * 1000000"
    using smod_bound [of "rt_Timeout r"] by (intro sint_int32; simp)
  finally show ?thesis by (simp add: getRouteTimeout_def)
qed

subsection \<open>Properties\<close>

definition allow_all_for :: "externals \<Rightarrow> NaavikArgs \<Rightarrow> TrafficConfig \<Rightarrow> Duration option \<Rightarrow> string \<Rightarrow> HTTPRoute" where
  "allow_all_for ex p tc t env =
     \<lparr>hr_Name = ''defaultall-'' @ env,
      hr_Match = Some [\<lparr>mr_Uri = Some (MatchPrefix ''/''),
        mr_Authority = Some (MatchPrefix (GetHost env (TC_GetIdentityLowerCase p tc) (HostnameSuffix p)))\<rparr>],
      hr_Route = [\<lparr>rd_Host = GetHost env (TC_GetIdentityLowerCase p tc) (HostnameSuffix p), rd_Weight = 0\<rparr>],
      hr_Rewrite = None, hr_Timeout = getFinalRouteTimeout ex t\<rparr>"

lemma addAllowAll_eq:
  "addAllowAllRule ex p tc rules = rules @ map (allow_all_for ex p tc (longest_timeout rules)) (tc_WorkloadEnv tc)"
  by (simp add: addAllowAllRule_def createAllowRouteMatch_def allow_all_for_def Let_def getFinalRouteTimeout_def)

lemma build_cases:
  assumes "buildVirtualServiceForMeshDependents ex p tc = Inr vs" "tc_EdgeService tc = Some es"
  obtains rules where "vs = buildVirtualServiceObject p tc (addAllowAllRule ex p tc rules)" "es_Routes es \<noteq> []"
  using assms by (auto simp: buildVirtualServiceForMeshDependents_def buildVirtualServiceWithoutTargetDetails_def
      Let_def split: if_splits prod.splits)


text \<open>
  Building a virtual service fails only for an edge service without routes; a traffic config
  without edge service gives the zero object, which has no name and a nil annotation map.
\<close>

theorem virtual_service_build_errors:
  "(\<exists>e. buildVirtualServiceForMeshDependents ex p tc = Inl e)
     \<longleftrightarrow> (\<exists>es. tc_EdgeService tc = Some es \<and> es_Routes es = [])"
  by (auto simp: buildVirtualServiceForMeshDependents_def buildVirtualServiceWithoutTargetDetails_def Let_def
      split: option.splits prod.splits)



text \<open>
  A virtual service gets a name exactly in the four environments qa, e2e, prd and prf, and the
  names of one identity in two of them are different; in every other environment the name is empty.
\<close>

theorem virtual_service_names:
  "(getVirtualServiceName p env a \<noteq> [] \<longleftrightarrow> env \<in> {''qa'', ''e2e'', ''prd'', ''prf''})
   \<and> (env \<in> {''qa'', ''e2e'', ''prd'', ''prf''} \<and> getVirtualServiceName p env a = getVirtualServiceName p env' a
      \<longrightarrow> env' = env)"
proof -
  have low: "ToLower ''qal'' = ''qal''" "ToLower ''e2e'' = ''e2e''" "ToLower ''prd'' = ''prd''" "ToLower ''prf'' = ''prf''"
    by code_simp+
  have host: "GetHost (x # xs) a (HostnameSuffix p) = ToLower (x # xs) @ ToLower (''.'' @ a @ ''.'' @ HostnameSuffix p)" for x xs
    by (simp add: GetHost_def)
  show ?thesis by (auto simp: getVirtualServiceName_def Let_def host low simp del: ToLower_Cons)
qed

subsection \<open>Witnesses\<close>

text \<open>Durations as nanoseconds, a matcher that accepts everything, and a parser of nothing.\<close>

definition sample_externals :: externals where
  "sample_externals =
     \<lparr>ex_MatchString = (\<lambda>_ _. Some True), ex_ParseDuration = (\<lambda>s. if s = ''1s'' then Some 1000000000 else None),
      ex_AsDuration = (\<lambda>d. case d of None \<Rightarrow> 0 | Some d \<Rightarrow> dur_Seconds d * 1000000000 + dur_Nanos d),
      ex_NewDuration = (\<lambda>n. \<lparr>dur_Seconds = n sdiv 1000000000, dur_Nanos = n smod 1000000000\<rparr>)\<rparr>"

lemma sample_durations_ok: "durations_ok sample_externals"
  by (simp add: durations_ok_def sample_externals_def)

definition dialed_route :: Route where
  "dialed_route =
     \<lparr>rt_Name = ''r1'', rt_Inbound = ''/in'', rt_Outbound = ''/out'', rt_Timeout = 2500,
      rt_Config = Some [\<lparr>TargetGroupSelector = ''blue'', TargetSelector = ''t1''\<rparr>,
        \<lparr>TargetGroupSelector = ''green'', TargetSelector = ''t2''\<rparr>],
      rt_WorkloadEnvSelectors = [''qal'']\<rparr>"

definition dialed_service :: EdgeService where
  "dialed_service =
     \<lparr>es_Routes = [dialed_route],
      es_Targets = Some [\<lparr>tg_Name = ''t1'', tg_MeshDNS = ''Blue.mesh''\<rparr>, \<lparr>tg_Name = ''t2'', tg_MeshDNS = []\<rparr>],
      es_TargetGroups = Some [\<lparr>tgr_Name = ''g'', tgr_Weights = [\<lparr>we_Name = ''blue'', we_Weight = 90\<rparr>,
        \<lparr>we_Name = ''green'', we_Weight = 10\<rparr>], tgr_AppOverrides = None\<rparr>]\<rparr>"

definition dialed_tc :: TrafficConfig where
  "dialed_tc =
     \<lparr>tc_Meta = \<lparr>om_Name = ''shop'', om_Namespace = ''admiral'',
        om_Labels = Some [(''asset'', ''Shop''), (''env'', ''qa''), (''revisionNumber'', ''7'')], om_Annotations = None\<rparr>,
      tc_WorkloadEnv = [''qal''], tc_EdgeService = Some dialed_service, tc_QuotaGroup = None\<rparr>"




theorem virtual_service_names_witness:
  "getVirtualServiceName Defaults ''qa'' ''shop'' \<noteq> getVirtualServiceName Defaults ''prd'' ''shop''"
  using virtual_service_names [of Defaults "''qa''" "''shop''" "''prd''"] by auto

end
