(* ===== verification/RateLimitBuild.thy ===== *)
theory RateLimitBuild
  imports WorkloadCache VirtualServiceBuild
begin

text \<open>
  The construction of rate limit filters, from
  \<open>internal/handler/trafficconfig/rate_limiting_helper.go\<close> and \<open>rate_limiting_handler.go\<close>: header
  matchers, descriptors, token buckets, the configuration patches and the labels of a workload.

  A protobuf message is turned into a \<open>structpb\<close> value by protojson, the parameter \<open>pj\<close>, which panics
  (\<open>None\<close>) when it cannot marshal.  Durations and \<open>time.ParseDuration\<close> are those of \<open>externals\<close>.
\<close>

datatype StringMatcher = SM_Exact string | SM_Prefix string | SM_Suffix string | SM_Contains string | SM_Regex string

record HeaderMatcher =
  hm_Name :: string
  hm_StringMatch :: "StringMatcher option"

record TokenBucket =
  tb_MaxTokens :: "32 word"
  tb_FillInterval :: Duration
  tb_TokensPerFill :: "32 word"

record DescriptorEntry =
  de_Key :: string
  de_Value :: string

record LocalRateLimitDescriptor =
  lr_TokenBucket :: TokenBucket
  lr_Entries :: "DescriptorEntry list"

text \<open>A \<open>RateLimit_Action\<close> with a header value match, the only kind the program builds.\<close>

record RateLimitAction =
  ac_DescriptorKey :: string
  ac_DescriptorValue :: string
  ac_Headers :: "HeaderMatcher list"

record RateLimit = rl_Actions :: "RateLimitAction list"

datatype proto_message = MsgDescriptor LocalRateLimitDescriptor | MsgRateLimit RateLimit | MsgTokenBucket TokenBucket

subsection \<open>Helpers\<close>

fun slice_contains :: "string list \<Rightarrow> string \<Rightarrow> bool" where
  "slice_contains [] key = False"
| "slice_contains (k # ks) key = (if k = key then True else slice_contains ks key)"

definition getDescriptorKey :: "string list \<Rightarrow> string" where
  "getDescriptorKey s = EncodeToString (Join '':'' s)"

definition getPathRegex :: "string \<Rightarrow> string" where
  "getPathRegex path = ReplaceAll (ReplaceAll path ''.*'' ''*'') ''*'' ''.*''"

definition getMethodRegex :: "string list \<Rightarrow> string" where
  "getMethodRegex methods =
     (if length methods = 0 then ''.*''
      else Join ''|'' (fold (\<lambda>m acc. (acc @ [ToLower m]) @ [ToUpper m]) methods []))"

definition getHeaderMatcher :: "string \<Rightarrow> string \<Rightarrow> string \<Rightarrow> HeaderMatcher" where
  "getHeaderMatcher name val condition =
     \<lparr>hm_Name = name, hm_StringMatch =
       (if condition = ''exact'' then Some (SM_Exact val)
        else if condition = ''prefix'' then Some (SM_Prefix val)
        else if condition = ''suffix'' then Some (SM_Suffix val)
        else if condition = ''contains'' then Some (SM_Contains val)
        else if condition = ''regex'' then Some (SM_Regex val)
        else None)\<rparr>"

text \<open>The conversions to \<open>uint32\<close> wrap around.\<close>

definition getTokenBucket :: "externals \<Rightarrow> int \<Rightarrow> int \<Rightarrow> int \<Rightarrow> TokenBucket" where
  "getTokenBucket ex maxTokens tokensPerFill fillInterval =
     \<lparr>tb_MaxTokens = word_of_int maxTokens, tb_FillInterval = ex_NewDuration ex fillInterval,
      tb_TokensPerFill = word_of_int tokensPerFill\<rparr>"

definition globalBucket :: "externals \<Rightarrow> TokenBucket" where
  "globalBucket ex = getTokenBucket ex 1000000 1000000 1000000000"

text \<open>The labels of the deployment, or else of the rollout, of an identity in an environment.\<close>

definition workload_labels :: "string \<Rightarrow> string \<Rightarrow> string \<Rightarrow> labels" where
  "workload_labels app identity env = gm_put ''env'' env (gm_put ''assetAlias'' identity (gm_put ''app'' app []))"

definition app_label :: "Workload option \<Rightarrow> string option" where
  "app_label w = (case w of None \<Rightarrow> None
     | Some w \<Rightarrow> (case om_Labels (wl_Meta w) of None \<Rightarrow> None | Some ls \<Rightarrow> gm_get ls ''app''))"

definition getWorkLoadLabels ::
    "NaavikArgs \<Rightarrow> Workload cluster_map \<Rightarrow> Workload cluster_map \<Rightarrow> string \<Rightarrow> string \<Rightarrow> string \<Rightarrow> string + labels" where
  "getWorkLoadLabels p deployments rollouts clusterID identity workLoadEnv =
     (case app_label (Deployments_GetByClusterIdentityEnv deployments clusterID identity workLoadEnv) of
        Some val \<Rightarrow> Inr (workload_labels val identity workLoadEnv)
      | None \<Rightarrow>
          (if ArgoRolloutsEnabled p then
             (case app_label (Rollouts_GetByClusterIdentityEnv rollouts clusterID identity workLoadEnv) of
                Some val \<Rightarrow> Inr (workload_labels val identity workLoadEnv)
              | None \<Rightarrow> Inl (''matching workload does not exist for identity='' @ identity @ '' and workloadEnv='' @ workLoadEnv))
           else Inl (''matching workload does not exist for identity='' @ identity @ '' and workloadEnv='' @ workLoadEnv)))"

subsection \<open>Descriptors and actions\<close>

definition getQuotaDescriptorEntry :: "string \<Rightarrow> string \<Rightarrow> DescriptorEntry" where
  "getQuotaDescriptorEntry tcgName quotaName =
     (let descriptorKey = getDescriptorKey [tcgName, quotaName] in \<lparr>de_Key = descriptorKey, de_Value = descriptorKey\<rparr>)"

definition getAssociatedAppDescriptorEntry :: "string \<Rightarrow> string \<Rightarrow> string \<Rightarrow> DescriptorEntry option" where
  "getAssociatedAppDescriptorEntry tcgName quotaName associatedApp =
     (if associatedApp = [] then None
      else (let descriptorKey = getDescriptorKey [tcgName, quotaName, associatedApp]
            in Some \<lparr>de_Key = descriptorKey, de_Value = descriptorKey\<rparr>))"

definition getDescriptorConfig :: "externals \<Rightarrow> string \<Rightarrow> string \<Rightarrow> Quota \<Rightarrow> int \<Rightarrow> LocalRateLimitDescriptor" where
  "getDescriptorConfig ex tcgName associatedApp quota timePeriod =
     (let quotaEntry = getQuotaDescriptorEntry tcgName (q_Name quota);
          appEntry = getAssociatedAppDescriptorEntry tcgName (q_Name quota) associatedApp;
          entries = (case appEntry of None \<Rightarrow> [quotaEntry] | Some e \<Rightarrow> [quotaEntry] @ [e])
      in \<lparr>lr_TokenBucket = getTokenBucket ex (q_MaxAmount quota) (q_MaxAmount quota) timePeriod, lr_Entries = entries\<rparr>)"

definition getQuotaAction :: "string \<Rightarrow> Quota \<Rightarrow> RateLimitAction" where
  "getQuotaAction tcgName quota =
     (let pathMatcher = getHeaderMatcher '':path'' (getPathRegex (q_Path quota)) ''regex'';
          methodMatcher = getHeaderMatcher '':method'' (getMethodRegex (q_Methods quota)) ''regex'';
          descriptorKey = getDescriptorKey [tcgName, q_Name quota]
      in \<lparr>ac_DescriptorKey = descriptorKey, ac_DescriptorValue = descriptorKey,
          ac_Headers = [pathMatcher, methodMatcher]
            @ map (\<lambda>h. getHeaderMatcher (qh_Name h) (qh_Value h) (qh_Condition h)) (q_Headers quota)\<rparr>)"

definition getAssociatedAppAction :: "NaavikArgs \<Rightarrow> string \<Rightarrow> string \<Rightarrow> string \<Rightarrow> RateLimitAction option" where
  "getAssociatedAppAction p tcgName quotaName associatedApp =
     (if associatedApp = [] then None
      else Some \<lparr>ac_DescriptorKey = getDescriptorKey [tcgName, quotaName, associatedApp],
        ac_DescriptorValue = getDescriptorKey [tcgName, quotaName, associatedApp],
        ac_Headers = [getHeaderMatcher (TrafficConfigIdentityKey p) associatedApp ''exact'']\<rparr>)"

definition getRateLimitConfig :: "NaavikArgs \<Rightarrow> string \<Rightarrow> string \<Rightarrow> Quota \<Rightarrow> RateLimit" where
  "getRateLimitConfig p tcgName associatedApp quota =
     (let quotaAction = getQuotaAction tcgName quota;
          appAction = getAssociatedAppAction p tcgName (q_Name quota) associatedApp
      in \<lparr>rl_Actions = (case appAction of None \<Rightarrow> [quotaAction] | Some a \<Rightarrow> [quotaAction] @ [a])\<rparr>)"

subsection \<open>Patches\<close>

definition createProxyMatch :: "string \<Rightarrow> string" where
  "createProxyMatch proxyVersion =
     ''^'' @ ReplaceAll proxyVersion ''.'' [char_of (92 :: nat), CHR ''.''] @ ''.*''"

definition getRouteConfig :: "string \<Rightarrow> object_match" where
  "getRouteConfig inboundPort = RouteConfigurationVhost (''inbound|http|'' @ inboundPort)"

definition createRouteMatch :: "string \<Rightarrow> ConfigObjectMatch" where
  "createRouteMatch inboundPort =
     (if inboundPort = []
      then \<lparr>cm_Context = SIDECAR_INBOUND, cm_Proxy = None, cm_ObjectTypes = None\<rparr>
      else \<lparr>cm_Context = SIDECAR_INBOUND, cm_Proxy = None, cm_ObjectTypes = Some (getRouteConfig inboundPort)\<rparr>)"

definition TypedStruct :: string where "TypedStruct = ''type.googleapis.com/udpa.type.v1.TypedStruct''"

definition LocalRateLimitURL :: string where
  "LocalRateLimitURL = ''type.googleapis.com/envoy.extensions.filters.http.local_ratelimit.v3.LocalRateLimit''"

definition createFilterPatch :: "string \<Rightarrow> ConfigPatch" where
  "createFilterPatch proxyVersion =
     \<lparr>cp_ApplyTo = HTTP_FILTER,
      cp_Match = \<lparr>cm_Context = SIDECAR_INBOUND, cm_Proxy = Some (createProxyMatch proxyVersion),
        cm_ObjectTypes = Some (ListenerFilter ''envoy.filters.network.http_connection_manager'' ''envoy.filters.http.router'')\<rparr>,
      cp_Patch = \<lparr>pa_Operation = INSERT_BEFORE,
        pa_Value = PbStruct [
          (''name'', PbString ''envoy.filters.http.local_ratelimit''),
          (''typed_config'', PbStruct [
            (''@type'', PbString TypedStruct),
            (''type_url'', PbString LocalRateLimitURL),
            (''value'', PbStruct [(''stat_prefix'', PbString ''http_local_rate_limiter'')])])]\<rparr>\<rparr>"

definition hundred_percent :: "string \<Rightarrow> pb_value" where
  "hundred_percent runtime_key = PbStruct [
     (''runtime_key'', PbString runtime_key),
     (''default_value'', PbStruct [(''numerator'', PbNumber 100), (''denominator'', PbString ''HUNDRED'')])]"

definition createRoutePatch ::
    "externals \<Rightarrow> (proto_message \<Rightarrow> pb_value option) \<Rightarrow> pb_value list \<Rightarrow> pb_value list \<Rightarrow> Patch option" where
  "createRoutePatch ex pj rateLimits descriptors = do {
     bucket \<leftarrow> pj (MsgTokenBucket (globalBucket ex));
     Some \<lparr>pa_Operation = MERGE,
       pa_Value = PbStruct [
         (''route'', PbStruct [(''rate_limits'', PbList rateLimits)]),
         (''typed_per_filter_config'', PbStruct [
           (''envoy.filters.http.local_ratelimit'', PbStruct [
             (''@type'', PbString TypedStruct),
             (''type_url'', PbString LocalRateLimitURL),
             (''value'', PbStruct [
               (''stat_prefix'', PbString ''http_local_rate_limiter''),
               (''descriptors'', PbList descriptors),
               (''token_bucket'', bucket),
               (''filter_enabled'', hundred_percent ''local_rate_limit_enabled''),
               (''filter_enforced'', hundred_percent ''local_rate_limit_enforced'')])])])]\<rparr>
   }"

definition IncludeInboundPortsAnnotation :: string where
  "IncludeInboundPortsAnnotation = ''admiral.io/inboundPorts''"

definition getInboundPorts ::
    "Workload cluster_map \<Rightarrow> Workload cluster_map \<Rightarrow> string \<Rightarrow> string \<Rightarrow> string \<Rightarrow> string list" where
  "getInboundPorts deployments rollouts clusterID identity env =
     (case Deployments_GetByClusterIdentityEnv deployments clusterID identity env of
        Some deploy \<Rightarrow> Split (CHR '','') (gm_str (om_Annotations (wl_Template deploy)) IncludeInboundPortsAnnotation)
      | None \<Rightarrow>
     (case Rollouts_GetByClusterIdentityEnv rollouts clusterID identity env of
        Some rollout \<Rightarrow> Split (CHR '','') (gm_str (om_Annotations (wl_Template rollout)) IncludeInboundPortsAnnotation)
      | None \<Rightarrow> []))"

text \<open>
  One quota: its descriptor and its rate limit are appended together, or neither when its time
  period does not parse.
\<close>

definition add_quota ::
    "externals \<Rightarrow> (proto_message \<Rightarrow> pb_value option) \<Rightarrow> NaavikArgs \<Rightarrow> string \<Rightarrow> string
       \<Rightarrow> Quota \<Rightarrow> pb_value list \<times> pb_value list \<Rightarrow> (pb_value list \<times> pb_value list) option" where
  "add_quota ex pj p grp app quota = (\<lambda>(descriptors, rateLimits).
     case ex_ParseDuration ex (q_TimePeriod quota) of
       None \<Rightarrow> Some (descriptors, rateLimits)
     | Some timePeriod \<Rightarrow> do {
         d \<leftarrow> pj (MsgDescriptor (getDescriptorConfig ex grp app quota timePeriod));
         r \<leftarrow> pj (MsgRateLimit (getRateLimitConfig p grp app quota));
         Some (descriptors @ [d], rateLimits @ [r])
       })"

definition quota_lists ::
    "externals \<Rightarrow> (proto_message \<Rightarrow> pb_value option) \<Rightarrow> NaavikArgs \<Rightarrow> string \<Rightarrow> QuotaGroup
       \<Rightarrow> (pb_value list \<times> pb_value list) option" where
  "quota_lists ex pj p env qg = do {
     acc \<leftarrow> foreach (\<lambda>tcg acc.
       if \<not> slice_contains (tq_WorkloadEnvSelectors tcg) env then Some acc
       else foreach (add_quota ex pj p (tq_Name tcg) []) (tq_Quotas tcg) acc) (qg_Total qg) ([], []);
     foreach (\<lambda>aqg acc.
       if \<not> slice_contains (aq_WorkloadEnvSelectors aqg) env then Some acc
       else foreach (\<lambda>app. foreach (add_quota ex pj p (aq_Name aqg) app) (aq_Quotas aqg)) (aq_AssociatedApps aqg) acc)
       (qg_App qg) acc
   }"

text \<open>A traffic config without quota group is dereferenced here: a panic.\<close>

definition createRoutePatches ::
    "externals \<Rightarrow> (proto_message \<Rightarrow> pb_value option) \<Rightarrow> NaavikArgs \<Rightarrow> Workload cluster_map \<Rightarrow> Workload cluster_map
       \<Rightarrow> string \<Rightarrow> TrafficConfig \<Rightarrow> string \<Rightarrow> ConfigPatch list option" where
  "createRoutePatches ex pj p deployments rollouts env tc clusterID =
     (case tc_QuotaGroup tc of
        None \<Rightarrow> None
      | Some qg \<Rightarrow> do {
          (descriptors, rateLimits) \<leftarrow> quota_lists ex pj p env qg;
          routePatch \<leftarrow> createRoutePatch ex pj rateLimits descriptors;
          let inboundPorts = getInboundPorts deployments rollouts clusterID (TC_GetIdentity p tc) env;
          Some (map (\<lambda>inboundPort. \<lparr>cp_ApplyTo = HTTP_ROUTE, cp_Match = createRouteMatch inboundPort, cp_Patch = routePatch\<rparr>)
            inboundPorts)
        })"

definition createConfigPatches ::
    "externals \<Rightarrow> (proto_message \<Rightarrow> pb_value option) \<Rightarrow> NaavikArgs \<Rightarrow> Workload cluster_map \<Rightarrow> Workload cluster_map
       \<Rightarrow> string \<Rightarrow> string \<Rightarrow> TrafficConfig \<Rightarrow> string \<Rightarrow> ConfigPatch list option" where
  "createConfigPatches ex pj p deployments rollouts env proxyVersion tc clusterID = do {
     patches \<leftarrow> createRoutePatches ex pj p deployments rollouts env tc clusterID;
     Some ([createFilterPatch proxyVersion] @ patches)
   }"

subsection \<open>Lemmas\<close>

lemma concat_map_filter_if: "concat (map (\<lambda>x. if P x then g x else []) xs) = concat (map g (filter P xs))"
  by (induction xs) auto

lemma slice_contains_iff [simp]: "slice_contains ks k \<longleftrightarrow> k \<in> set ks"
  by (induction ks) auto

text \<open>
  The quotas of a quota group that apply in an environment, in the order of the loops: total quotas,
  then application quotas once for each associated application, each with its parsed time period.
\<close>

definition timed :: "externals \<Rightarrow> string \<Rightarrow> string \<Rightarrow> Quota list \<Rightarrow> (string \<times> string \<times> Quota \<times> int) list" where
  "timed ex grp app quotas = concat (map (\<lambda>q. case ex_ParseDuration ex (q_TimePeriod q) of
     None \<Rightarrow> [] | Some t \<Rightarrow> [(grp, app, q, t)]) quotas)"

definition selected_quotas :: "externals \<Rightarrow> string \<Rightarrow> QuotaGroup \<Rightarrow> (string \<times> string \<times> Quota \<times> int) list" where
  "selected_quotas ex env qg =
     concat (map (\<lambda>g. timed ex (tq_Name g) [] (tq_Quotas g))
       (filter (\<lambda>g. env \<in> set (tq_WorkloadEnvSelectors g)) (qg_Total qg)))
     @ concat (map (\<lambda>g. concat (map (\<lambda>app. timed ex (aq_Name g) app (aq_Quotas g)) (aq_AssociatedApps g)))
       (filter (\<lambda>g. env \<in> set (aq_WorkloadEnvSelectors g)) (qg_App qg)))"

definition quota_descriptor :: "externals \<Rightarrow> string \<times> string \<times> Quota \<times> int \<Rightarrow> LocalRateLimitDescriptor" where
  "quota_descriptor ex = (\<lambda>(grp, app, q, t). getDescriptorConfig ex grp app q t)"

definition quota_rate_limit :: "NaavikArgs \<Rightarrow> string \<times> string \<times> Quota \<times> int \<Rightarrow> RateLimit" where
  "quota_rate_limit p = (\<lambda>(grp, app, q, t). getRateLimitConfig p grp app q)"

text \<open>What the loops append, when every message can be marshalled.\<close>

definition quota_values ::
    "externals \<Rightarrow> NaavikArgs \<Rightarrow> (proto_message \<Rightarrow> pb_value) \<Rightarrow> (string \<times> string \<times> Quota \<times> int) list
       \<Rightarrow> pb_value list \<times> pb_value list" where
  "quota_values ex p f sel =
     (map (\<lambda>x. f (MsgDescriptor (quota_descriptor ex x))) sel, map (\<lambda>x. f (MsgRateLimit (quota_rate_limit p x))) sel)"

definition pair_append :: "'a list \<times> 'b list \<Rightarrow> 'a list \<times> 'b list \<Rightarrow> 'a list \<times> 'b list" where
  "pair_append a b = (fst a @ fst b, snd a @ snd b)"

lemma quota_values_append: "quota_values ex p f (a @ b) = pair_append (quota_values ex p f a) (quota_values ex p f b)"
  by (simp add: quota_values_def pair_append_def)

lemma pair_append_assoc: "pair_append (pair_append a b) c = pair_append a (pair_append b c)"
  by (simp add: pair_append_def)

lemma pair_append_empty [simp]: "pair_append acc (quota_values ex p f []) = acc" "pair_append ([], []) acc = acc"
  by (simp_all add: quota_values_def pair_append_def)

text \<open>A loop whose body appends the values of a list appends the values of the concatenation.\<close>

lemma foreach_quotas:
  assumes "\<And>x acc. x \<in> set xs \<Longrightarrow> body x acc = Some (pair_append acc (quota_values ex p f (sel x)))"
  shows "foreach body xs acc = Some (pair_append acc (quota_values ex p f (concat (map sel xs))))"
  using assms
proof (induction xs arbitrary: acc)
  case Nil
  then show ?case by simp
next
  case (Cons x xs)
  have "body x acc = Some (pair_append acc (quota_values ex p f (sel x)))" by (rule Cons.prems) simp
  moreover have "foreach body xs a = Some (pair_append a (quota_values ex p f (concat (map sel xs))))" for a
    by (rule Cons.IH) (rule Cons.prems, simp)
  ultimately show ?case by (simp add: quota_values_append pair_append_assoc)
qed

lemma add_quota_values:
  "add_quota ex (\<lambda>m. Some (f m)) p grp app q acc = Some (pair_append acc (quota_values ex p f (timed ex grp app [q])))"
  by (cases acc) (auto simp: add_quota_def timed_def quota_values_def pair_append_def quota_descriptor_def
      quota_rate_limit_def split: option.split)

lemma timed_concat: "concat (map (\<lambda>q. timed ex grp app [q]) qs) = timed ex grp app qs"
  by (induction qs) (simp_all add: timed_def)

lemma quota_loop:
  "foreach (add_quota ex (\<lambda>m. Some (f m)) p grp app) qs acc
     = Some (pair_append acc (quota_values ex p f (timed ex grp app qs)))"
  using foreach_quotas [of qs "add_quota ex (\<lambda>m. Some (f m)) p grp app" ex p f "\<lambda>q. timed ex grp app [q]" acc]
  by (simp add: add_quota_values timed_concat)

lemma quota_lists_values:
  "quota_lists ex (\<lambda>m. Some (f m)) p env qg = Some (quota_values ex p f (selected_quotas ex env qg))"
proof -
  have total: "foreach (\<lambda>tcg acc.
       if \<not> slice_contains (tq_WorkloadEnvSelectors tcg) env then Some acc
       else foreach (add_quota ex (\<lambda>m. Some (f m)) p (tq_Name tcg) []) (tq_Quotas tcg) acc) (qg_Total qg) ([], [])
     = Some (quota_values ex p f (concat (map (\<lambda>g. timed ex (tq_Name g) [] (tq_Quotas g))
         (filter (\<lambda>g. env \<in> set (tq_WorkloadEnvSelectors g)) (qg_Total qg)))))"
    by (subst foreach_quotas [where ex = ex and p = p and f = f and
          sel = "\<lambda>g. if env \<in> set (tq_WorkloadEnvSelectors g) then timed ex (tq_Name g) [] (tq_Quotas g) else []"])
      (simp_all add: quota_loop concat_map_filter_if)
  have app: "foreach (\<lambda>aqg acc.
       if \<not> slice_contains (aq_WorkloadEnvSelectors aqg) env then Some acc
       else foreach (\<lambda>app. foreach (add_quota ex (\<lambda>m. Some (f m)) p (aq_Name aqg) app) (aq_Quotas aqg)) (aq_AssociatedApps aqg) acc)
       (qg_App qg) acc
     = Some (pair_append acc (quota_values ex p f (concat (map (\<lambda>g. concat (map (\<lambda>app. timed ex (aq_Name g) app (aq_Quotas g)) (aq_AssociatedApps g)))
         (filter (\<lambda>g. env \<in> set (aq_WorkloadEnvSelectors g)) (qg_App qg))))))" for acc
  proof (subst foreach_quotas [where ex = ex and p = p and f = f and
          sel = "\<lambda>g. if env \<in> set (aq_WorkloadEnvSelectors g)
            then concat (map (\<lambda>app. timed ex (aq_Name g) app (aq_Quotas g)) (aq_AssociatedApps g)) else []"])
    fix g a
    show "(if \<not> slice_contains (aq_WorkloadEnvSelectors g) env then Some a
       else foreach (\<lambda>app. foreach (add_quota ex (\<lambda>m. Some (f m)) p (aq_Name g) app) (aq_Quotas g)) (aq_AssociatedApps g) a)
      = Some (pair_append a (quota_values ex p f (if env \<in> set (aq_WorkloadEnvSelectors g)
            then concat (map (\<lambda>app. timed ex (aq_Name g) app (aq_Quotas g)) (aq_AssociatedApps g)) else [])))"
      using foreach_quotas [of "aq_AssociatedApps g"
          "\<lambda>app. foreach (add_quota ex (\<lambda>m. Some (f m)) p (aq_Name g) app) (aq_Quotas g)" ex p f
          "\<lambda>app. timed ex (aq_Name g) app (aq_Quotas g)" a]
      by (simp add: quota_loop)
  qed (simp add: concat_map_filter_if)
  show ?thesis
    unfolding quota_lists_def total bind.bind_lunit app
    by (simp add: selected_quotas_def quota_values_append)
qed

lemma createConfigPatches_total:
  "tc_QuotaGroup tc = Some qg \<Longrightarrow>
     \<exists>ps. createConfigPatches ex (\<lambda>m. Some (f m)) p ds rs e v tc c = Some ps"
  by (simp add: createConfigPatches_def createRoutePatches_def createRoutePatch_def quota_lists_values quota_values_def)

text \<open>The entries of a descriptor are the keys and values its rate limit generates.\<close>

definition action_entry :: "RateLimitAction \<Rightarrow> DescriptorEntry" where
  "action_entry a = \<lparr>de_Key = ac_DescriptorKey a, de_Value = ac_DescriptorValue a\<rparr>"

lemma descriptor_entries:
  "lr_Entries (getDescriptorConfig ex grp app q t) = map action_entry (rl_Actions (getRateLimitConfig p grp app q))"
  by (auto simp: getDescriptorConfig_def getRateLimitConfig_def getQuotaDescriptorEntry_def
      getAssociatedAppDescriptorEntry_def getQuotaAction_def getAssociatedAppAction_def action_entry_def Let_def)

text \<open>Descriptor keys of parts without a colon determine the parts.\<close>

definition plain :: "string \<Rightarrow> bool" where "plain s \<longleftrightarrow> CHR '':'' \<notin> set s"

lemma getDescriptorKey_inj:
  assumes "getDescriptorKey xs = getDescriptorKey ys" "xs \<noteq> []" "ys \<noteq> []" "\<forall>x \<in> set xs. plain x" "\<forall>y \<in> set ys. plain y"
  shows "xs = ys"
  using assms Join_inj [of "CHR '':''" xs ys] by (simp add: getDescriptorKey_def EncodeToString_inj plain_def)

lemma descriptor_entries_inj:
  assumes "lr_Entries (getDescriptorConfig ex g a q t) = lr_Entries (getDescriptorConfig ex g' a' q' t')"
    and "plain g" "plain a" "plain (q_Name q)" "plain g'" "plain a'" "plain (q_Name q')"
  shows "g = g' \<and> a = a' \<and> q_Name q = q_Name q'"
proof -
  have one: "getDescriptorKey [g, q_Name q] = getDescriptorKey [g', q_Name q']"
    using assms(1) by (simp add: getDescriptorConfig_def getQuotaDescriptorEntry_def Let_def split: option.splits)
  then have "[g, q_Name q] = [g', q_Name q']"
    by (rule getDescriptorKey_inj) (use assms in simp_all)
  moreover have "a = a'"
  proof (cases "a = [] \<or> a' = []")
    case True
    with assms(1) show ?thesis
      by (auto simp: getDescriptorConfig_def getAssociatedAppDescriptorEntry_def Let_def split: if_splits)
  next
    case False
    then have "getDescriptorKey [g, q_Name q, a] = getDescriptorKey [g', q_Name q', a']"
      using assms(1) by (simp add: getDescriptorConfig_def getAssociatedAppDescriptorEntry_def Let_def)
    then have "[g, q_Name q, a] = [g', q_Name q', a']"
      by (rule getDescriptorKey_inj) (use assms in simp_all)
    then show ?thesis by simp
  qed
  ultimately show ?thesis by simp
qed

subsection \<open>Path expressions\<close>

definition star :: char where "star = CHR ''*''"

definition expand_stars :: "string \<Rightarrow> string" where
  "expand_stars t = concat (map (\<lambda>x. if x = star then ''.*'' else [x]) t)"

lemma expand_stars_simps [simp]:
  "expand_stars [] = []" "expand_stars (x # t) = (if x = star then ''.*'' else [x]) @ expand_stars t"
  by (simp_all add: expand_stars_def)

lemma getPathRegex_eq: "getPathRegex s = expand_stars (ReplaceAll s ''.*'' ''*'')"
  by (simp add: getPathRegex_def ReplaceAll_char expand_stars_def star_def)

lemma expand_stars_head: "\<not> HasPrefix (expand_stars t) ''*''"
  by (cases t) (auto simp: star_def)

lemma collapse_expand: "ReplaceAll (expand_stars t) ''.*'' ''*'' = t"
  by (induction t) (use expand_stars_head in \<open>auto simp: star_def\<close>)

text \<open>After expansion every star follows a dot.\<close>

lemma expand_stars_dotted:
  "i < length (expand_stars t) \<Longrightarrow> expand_stars t ! i = star \<Longrightarrow> 0 < i \<and> expand_stars t ! (i - 1) = CHR ''.''"
proof (induction t arbitrary: i)
  case Nil
  then show ?case by simp
next
  case (Cons x t)
  define u where "u = expand_stars t"
  have IH: "j < length u \<Longrightarrow> u ! j = star \<Longrightarrow> 0 < j \<and> u ! (j - 1) = CHR ''.''" for j
    using Cons.IH by (simp add: u_def)
  show ?case
  proof (cases "x = star")
    case True
    then have e: "expand_stars (x # t) = CHR ''.'' # star # u" by (simp add: star_def u_def)
    have s: "i < Suc (Suc (length u))" "(CHR ''.'' # star # u) ! i = star" using Cons.prems unfolding e by simp_all
    then have "i \<noteq> 0" by (cases i) (simp_all add: star_def)
    show ?thesis
    proof (cases "i = 1")
      case True
      then show ?thesis unfolding e by simp
    next
      case False
      with \<open>i \<noteq> 0\<close> obtain j where i: "i = Suc (Suc j)" by (metis One_nat_def not0_implies_Suc)
      with s have "j < length u" "u ! j = star" by simp_all
      from IH [OF this] show ?thesis unfolding e by (cases j) (simp_all add: i)
    qed
  next
    case False
    then have e: "expand_stars (x # t) = x # u" by (simp add: u_def)
    have s: "i < Suc (length u)" "(x # u) ! i = star" using Cons.prems unfolding e by simp_all
    with False obtain j where i: "i = Suc j" by (cases i) auto
    with s have "j < length u" "u ! j = star" by simp_all
    from IH [OF this] show ?thesis unfolding e by (cases j) (simp_all add: i)
  qed
qed

subsection \<open>Properties\<close>

text \<open>
  C33: the route patch of an environment limits exactly the quotas that select it.  When every message
  can be marshalled, the descriptors and the rate limits are two lists over the same quotas, those of
  the selecting quota groups whose time period parses, in the same order; the entries of a descriptor
  are, key by key, what the actions of its rate limit generate; the bucket of a descriptor holds the
  quota's amount for its period; and the descriptors of two quotas have the same entries only when
  group, application and quota name agree, provided none of these contains a colon.
\<close>

theorem quota_lists_match:
  "quota_lists ex (\<lambda>m. Some (f m)) p env qg =
     Some (map (\<lambda>x. f (MsgDescriptor (quota_descriptor ex x))) (selected_quotas ex env qg),
           map (\<lambda>x. f (MsgRateLimit (quota_rate_limit p x))) (selected_quotas ex env qg))
   \<and> lr_Entries (getDescriptorConfig ex g a q t) = map action_entry (rl_Actions (getRateLimitConfig p g a q))
   \<and> lr_TokenBucket (getDescriptorConfig ex g a q t) = getTokenBucket ex (q_MaxAmount q) (q_MaxAmount q) t
   \<and> (plain g \<and> plain a \<and> plain (q_Name q) \<and> plain g' \<and> plain a' \<and> plain (q_Name q')
      \<and> lr_Entries (getDescriptorConfig ex g a q t) = lr_Entries (getDescriptorConfig ex g' a' q' t')
      \<longrightarrow> g = g' \<and> a = a' \<and> q_Name q = q_Name q')"
  using descriptor_entries_inj [of ex g a q t g' a' q' t']
  by (auto simp: quota_lists_values quota_values_def descriptor_entries [where p = p])
    (simp add: getDescriptorConfig_def Let_def)

text \<open>
  A traffic config without quota group panics; with one, the patches of a filter are the filter
  patch followed by one route patch for each inbound port of the deployment of the identity in the
  environment, or of its rollout when there is no deployment, all with the same merged value; a
  workload that does not exist has no port, and one without the annotation has the empty port, whose
  match names no route.
\<close>

theorem config_patches_shape:
  "case tc_QuotaGroup tc of
     None \<Rightarrow> createConfigPatches ex pj p ds rs env version tc c = None
   | Some qg \<Rightarrow>
       (\<exists>patch. createConfigPatches ex (\<lambda>m. Some (f m)) p ds rs env version tc c =
          Some (createFilterPatch version # map (\<lambda>port. \<lparr>cp_ApplyTo = HTTP_ROUTE, cp_Match = createRouteMatch port, cp_Patch = patch\<rparr>)
             (case Deployments_GetByClusterIdentityEnv ds c (TC_GetIdentity p tc) env of
                Some w \<Rightarrow> Split (CHR '','') (gm_str (om_Annotations (wl_Template w)) IncludeInboundPortsAnnotation)
              | None \<Rightarrow> (case Rollouts_GetByClusterIdentityEnv rs c (TC_GetIdentity p tc) env of
                  Some w \<Rightarrow> Split (CHR '','') (gm_str (om_Annotations (wl_Template w)) IncludeInboundPortsAnnotation)
                | None \<Rightarrow> [])))
          \<and> pa_Operation patch = MERGE)"
  by (auto simp: createConfigPatches_def createRoutePatches_def createRoutePatch_def quota_lists_values
      quota_values_def getInboundPorts_def Let_def split: option.split)

text \<open>
  A path of a quota becomes a regular expression in which every star follows a dot; a path that
  is already such an expression is kept, so translating twice changes nothing.
\<close>

theorem path_regex_normal:
  "getPathRegex (getPathRegex s) = getPathRegex s
   \<and> (\<forall>i < length (getPathRegex s). getPathRegex s ! i = CHR ''*'' \<longrightarrow> 0 < i \<and> getPathRegex s ! (i - 1) = CHR ''.'')"
proof -
  have "getPathRegex (getPathRegex s) = getPathRegex s" by (simp add: getPathRegex_eq collapse_expand)
  then show ?thesis using expand_stars_dotted by (simp add: getPathRegex_eq star_def)
qed

text \<open>
  The labels that select the workload of a filter exist exactly when the deployment of the
  identity in the environment has an \<open>app\<close> label or, with Argo rollouts enabled, its rollout has one; the
  deployment's label wins, and the labels name the application, the identity and the environment.
\<close>

lemma workload_labels_found:
  "getWorkLoadLabels p ds rs c i e =
     (case app_label (Deployments_GetByClusterIdentityEnv ds c i e) of
        Some app \<Rightarrow> Inr [(''app'', app), (''assetAlias'', i), (''env'', e)]
      | None \<Rightarrow>
          (case (if ArgoRolloutsEnabled p then app_label (Rollouts_GetByClusterIdentityEnv rs c i e) else None) of
             Some app \<Rightarrow> Inr [(''app'', app), (''assetAlias'', i), (''env'', e)]
           | None \<Rightarrow> Inl (''matching workload does not exist for identity='' @ i @ '' and workloadEnv='' @ e)))"
  by (simp add: getWorkLoadLabels_def workload_labels_def gm_put_def split: option.split)

subsection \<open>Witnesses\<close>

definition sample_quota :: "string \<Rightarrow> Quota" where
  "sample_quota name = \<lparr>q_Name = name, q_TimePeriod = ''1s'', q_MaxAmount = 10, q_Path = ''/v1/*'', q_Methods = [''GET''],
     q_Headers = []\<rparr>"

theorem quota_lists_match_witness:
  "lr_Entries (getDescriptorConfig sample_externals ''total'' [] (sample_quota ''q1'') 1)
     \<noteq> lr_Entries (getDescriptorConfig sample_externals ''total'' [] (sample_quota ''q2'') 1)"
  using quota_lists_match [of sample_externals "\<lambda>_. PbNumber 0" Defaults "''qal''" "\<lparr>qg_Total = [], qg_App = []\<rparr>"
      "''total''" "[]" "sample_quota ''q1''" 1 "''total''" "[]" "sample_quota ''q2''" 1]
  by (auto simp: plain_def sample_quota_def)

theorem path_regex_normal_witness:
  "getPathRegex ''/v1/*/x'' = ''/v1/.*/x'' \<and> getPathRegex ''/v1/.*/x'' = ''/v1/.*/x''"
proof -
  have "getPathRegex ''/v1/*/x'' = ''/v1/.*/x''" by code_simp
  with path_regex_normal [of "''/v1/*/x''"] show ?thesis by simp
qed

end
