(* ===== verification/SystemState.thy ===== *)
theory SystemState
  imports WorkloadCache IdentityCache TrafficConfigCache EventStatus RemoteClusters LeaseChecker
    IstioClient VirtualServiceBuild RateLimitBuild
begin

text \<open>
  The global state of the program, its package-level caches, and what its handlers read besides: the
  configuration, the clock, and the third-party functions they call.

  The clients of a remote cluster are addressed by its id; the API servers of all clusters are one
  world of type \<open>'w\<close>, on which the functions of \<open>istio_api\<close> act.  A handler gets a Kubernetes object
  behind Go's empty interface; \<open>k8s_object\<close> has the dynamic types the program registers handlers for,
  and the casts answer \<open>None\<close> where the type assertion of the source fails.
\<close>

record ('cc, 'w) system =
  sy_Deployments :: "Workload cluster_map"
  sy_Rollouts :: "Workload cluster_map"
  sy_Services :: "Service cluster_map"
  sy_IdentityCluster :: set_map
  sy_IdentityDependency :: dependency_cache
  sy_TrafficConfigs :: tc_cache
  sy_Registry :: "'cc registry"
  sy_Lease :: LeaseState
  sy_World :: 'w

record 'w environment =
  en_Params :: NaavikArgs
  en_StartUpTime :: int
  en_Now :: "'w \<Rightarrow> int"
  en_Ext :: externals
  en_Marshal :: "proto_message \<Rightarrow> pb_value option"
  en_Api :: "'w istio_api"

definition cache_warm :: "'w environment \<Rightarrow> ('cc, 'w) system \<Rightarrow> bool" where
  "cache_warm env st = IsCacheWarmedUp (en_Params env) (en_StartUpTime env) (en_Now env (sy_World st))"

definition cluster_scope :: "'w environment \<Rightarrow> string \<Rightarrow> bool option" where
  "cluster_scope env cluster = IsClusterInAllowedScope (ex_MatchString (en_Ext env)) (en_Params env) cluster"

datatype k8s_object = ObjTrafficConfig TrafficConfig | ObjDeployment Workload | ObjRollout Workload
  | ObjService Service | ObjDependency Dependency | ObjSecret Secret

fun as_TrafficConfig :: "k8s_object option \<Rightarrow> TrafficConfig option" where
  "as_TrafficConfig (Some (ObjTrafficConfig tc)) = Some tc"
| "as_TrafficConfig _ = None"

fun as_Deployment :: "k8s_object option \<Rightarrow> Workload option" where
  "as_Deployment (Some (ObjDeployment w)) = Some w"
| "as_Deployment _ = None"

fun as_Rollout :: "k8s_object option \<Rightarrow> Workload option" where
  "as_Rollout (Some (ObjRollout w)) = Some w"
| "as_Rollout _ = None"

fun as_Service :: "k8s_object option \<Rightarrow> Service option" where
  "as_Service (Some (ObjService s)) = Some s"
| "as_Service _ = None"

fun as_Dependency :: "k8s_object option \<Rightarrow> Dependency option" where
  "as_Dependency (Some (ObjDependency d)) = Some d"
| "as_Dependency _ = None"

fun as_Secret :: "k8s_object option \<Rightarrow> Secret option" where
  "as_Secret (Some (ObjSecret s)) = Some s"
| "as_Secret _ = None"

text \<open>What every handler answers: its status, the state and the channels, or a panic.\<close>

type_synonym ('cc, 'w) handled = "(EventStatus \<times> ('cc, 'w) system \<times> chans) option"

text \<open>The last step of every handler: \<open>NewEventProcessStatus().SkipClose(statusChan)\<close>.\<close>

definition finish :: "nat option \<Rightarrow> ('cc, 'w) system \<Rightarrow> chans \<Rightarrow> ('cc, 'w) handled" where
  "finish statusChan st cs =
     map_option (\<lambda>(status, cs'). (status, st, cs')) (SkipClose NewEventProcessStatus statusChan cs)"

lemma finish_open:
  "chan_open c cs \<Longrightarrow> finish (Some c) st cs =
     Some (EventSkip, st, close_with c (NewEventProcessStatus\<lparr>eps_Status := EventSkip\<rparr>) cs)"
  by (simp add: finish_def SkipClose_open)

lemma finish_state: "finish ch st cs = Some (status, st', cs') \<Longrightarrow> st' = st"
  by (auto simp: finish_def)

text \<open>
  A state is well formed when each of its components is.
\<close>

definition system_ok :: "NaavikArgs \<Rightarrow> ('cc, 'w) system \<Rightarrow> bool" where
  "system_ok p st \<longleftrightarrow> cc_ok (sy_Deployments st) \<and> cc_ok (sy_Rollouts st) \<and> cc_ok (sy_Services st)
     \<and> sm_ok (sy_IdentityCluster st) \<and> dc_ok (sy_IdentityDependency st) \<and> tcc_ok p (sy_TrafficConfigs st)
     \<and> reg_ok (sy_Registry st)"

text \<open>The state at start-up.\<close>

definition initial_system :: "'w \<Rightarrow> ('cc, 'w) system" where
  "initial_system w = \<lparr>sy_Deployments = Deployments_Reset, sy_Rollouts = Rollouts_Reset, sy_Services = Services_Reset,
     sy_IdentityCluster = IdentityCluster_Reset, sy_IdentityDependency = IdentityDependency_Reset,
     sy_TrafficConfigs = TCCache_Reset, sy_Registry = emptyRegistry, sy_Lease = initialLeaseState, sy_World = w\<rparr>"

text \<open>The clusters a handler writes to: in scope and in the cache.\<close>

definition reachable_cluster :: "'w environment \<Rightarrow> 'cc registry \<Rightarrow> string \<Rightarrow> bool" where
  "reachable_cluster env reg c \<longleftrightarrow> cluster_scope env c = Some True \<and> RC_GetCluster (reg_clusters reg) c \<noteq> None"

lemma RC_Get_id:
  assumes "reg_ok reg" "RC_GetCluster (reg_clusters reg) c = Some rc"
  shows "GetClusterID rc = ToLower c"
  using assms unfolding reg_ok_def RC_GetCluster_def by blast

subsection \<open>A sample system\<close>

text \<open>Two clusters of one dependent; the witnesses of the handlers start from it.\<close>

definition sample_env :: "server environment" where
  "sample_env = \<lparr>en_Params = InitializeNaavikArgs None, en_StartUpTime = 0, en_Now = (\<lambda>_. 2 * minute),
     en_Ext = sample_externals, en_Marshal = (\<lambda>_. Some (PbNumber 0)), en_Api = sample_api\<rparr>"

definition sample_remote :: "string \<Rightarrow> unit RemoteCluster" where
  "sample_remote c = CreateRemoteCluster c ''ctx'' ''ns/clusters'' ''host'' ()"

definition sample_system :: "server \<Rightarrow> (unit, server) system" where
  "sample_system w = (initial_system w)
     \<lparr>sy_IdentityCluster := AddClusterToIdentity ''web'' ''c2'' (AddClusterToIdentity ''web'' ''c1'' IdentityCluster_Reset),
      sy_IdentityDependency := AddDependentToIdentity ''Shop'' ''web'' IdentityDependency_Reset,
      sy_Registry := AddRemoteClusterToCache (sample_remote ''c2'') (AddRemoteClusterToCache (sample_remote ''c1'') emptyRegistry)\<rparr>"

lemma sample_system_ok: "system_ok (en_Params sample_env) (sample_system w)"
  by (simp add: system_ok_def sample_system_def initial_system_def Deployments_Reset_def Rollouts_Reset_def
      Services_Reset_def TCCache_Reset_def id_cluster.ok_add id_cluster.ok_emp dep_graph.bwd.ok_add
      dep_graph.bwd.ok_emp reg_ok_AddCluster reg_ok_empty)

lemma sample_scope: "cluster_scope sample_env c = Some True"
  by (simp add: cluster_scope_def sample_env_def sample_externals_def IsClusterInAllowedScope_def
      InitializeNaavikArgs_def Let_def getValueOrDefaultSlice_def zeroArgs_def Defaults_def)

end
