(* ===== verification/VirtualServiceHandler.thy ===== *)
theory VirtualServiceHandler
  imports SystemState
begin

text \<open>
  The virtual service handler of \<open>internal/handler/trafficconfig/virtual_service.go\<close>: which clusters a
  traffic config concerns, and the creation, update or deletion of its virtual service there.

  The virtual service is one object for all clusters, so it is threaded through the loop together with
  the API servers.  The clusters are visited in the order of the map's list.
\<close>

text \<open>The clusters of the dependents; a context without Go context panics when it is asked for the source.\<close>

definition source_of :: "context_t \<Rightarrow> string" where
  "source_of ctx = (case ctx_SourceIdentity ctx of None \<Rightarrow> [] | Some s \<Rightarrow> s)"

definition dependentClusters ::
    "NaavikArgs \<Rightarrow> set_map \<Rightarrow> context_t \<Rightarrow> string list \<Rightarrow> (string, string) gomap option" where
  "dependentClusters p identityCluster ctx dependents =
     foreach (\<lambda>depIdentity m.
       if IsAssetIgnored p depIdentity then Some m
       else if \<not> ctx_Context ctx then None
       else (let sourceIdentity = source_of ctx in
         if length sourceIdentity > 0 \<and> sourceIdentity \<noteq> depIdentity then Some m
         else Some (fold (\<lambda>cluster m. gm_put cluster cluster m) (GetClustersForIdentity identityCluster depIdentity) m)))
       dependents []"

definition createUpdateDeleteVirtualServices ::
    "'w environment \<Rightarrow> 'cc RemoteCluster \<Rightarrow> TrafficConfig \<Rightarrow> VirtualService \<times> 'w \<Rightarrow> (VirtualService \<times> 'w) option" where
  "createUpdateDeleteVirtualServices env rc tc = (\<lambda>(vs, w).
     let api = en_Api env; c = GetClusterID rc; ns = SyncNamespace (en_Params env) in
     if TC_IsDisabled tc then (let (e, w') = DeleteVirtualService api c (vs_Name vs) ns w in Some (vs, w'))
     else (case GetVirtualService api c (vs_Name vs) ns w of
         (Some existingVs, None) \<Rightarrow> do {
           let vs1 = vs\<lparr>vs_ResourceVersion := vs_ResourceVersion existingVs\<rparr>;
           (r, vs2, w') \<leftarrow> UpdateVirtualService api c vs1 w;
           Some (vs2, w')
         }
       | _ \<Rightarrow> do {
           (r, vs2, w') \<leftarrow> CreateVirtualService api c vs w;
           Some (vs2, w')
         }))"

definition virtual_service_cluster ::
    "'w environment \<Rightarrow> 'cc registry \<Rightarrow> TrafficConfig \<Rightarrow> string \<times> string \<Rightarrow> VirtualService \<times> 'w
       \<Rightarrow> (VirtualService \<times> 'w) option" where
  "virtual_service_cluster env reg tc = (\<lambda>(clusterID, _) s. do {
     allowed \<leftarrow> cluster_scope env clusterID;
     if \<not> allowed then Some s
     else (case RC_GetCluster (reg_clusters reg) clusterID of
         None \<Rightarrow> Some s
       | Some rc \<Rightarrow> createUpdateDeleteVirtualServices env rc tc s)
   })"

definition handleVirtualServiceForMeshDependents ::
    "'w environment \<Rightarrow> context_t \<Rightarrow> string list \<Rightarrow> TrafficConfig \<Rightarrow> ('cc, 'w) system \<Rightarrow> ('cc, 'w) system option" where
  "handleVirtualServiceForMeshDependents env ctx dependents tc st = do {
     clusters \<leftarrow> dependentClusters (en_Params env) (sy_IdentityCluster st) ctx dependents;
     if length clusters = 0 then Some st
     else (case buildVirtualServiceForMeshDependents (en_Ext env) (en_Params env) tc of
         Inl err \<Rightarrow> Some st
       | Inr vs \<Rightarrow> do {
           (vs', w) \<leftarrow> foreach (virtual_service_cluster env (sy_Registry st) tc) clusters (vs, sy_World st);
           Some (st\<lparr>sy_World := w\<rparr>)
         })
   }"

definition HandleVirtualServiceForTrafficConfig ::
    "'w environment \<Rightarrow> context_t \<Rightarrow> TrafficConfig \<Rightarrow> ('cc, 'w) system \<Rightarrow> ('cc, 'w) system option" where
  "HandleVirtualServiceForTrafficConfig env ctx tc st =
     (if length (TC_GetEnv tc) = 0 then Some st
      else (let dependents = GetDependentsForIdentity (sy_IdentityDependency st) (TC_GetIdentity (en_Params env) tc) in
        if length dependents = 0 then Some st
        else handleVirtualServiceForMeshDependents env ctx dependents tc st))"

subsection \<open>The clusters concerned\<close>

lemma fold_put_same: "gm_ok m \<Longrightarrow> gm_ok (fold (\<lambda>c m. gm_put c c m) cs m)
    \<and> fst ` set (fold (\<lambda>c m. gm_put c c m) cs m) = fst ` set m \<union> set cs"
proof (induction cs arbitrary: m)
  case Nil
  then show ?case by simp
next
  case (Cons c cs)
  have "gm_ok (gm_put c c m)" using Cons.prems by simp
  moreover have "fst ` set (gm_put c c m) = insert c (fst ` set m)" by (simp add: gm_put_def dom_update)
  ultimately show ?case using Cons.IH [of "gm_put c c m"] by auto
qed

text \<open>Without a source identity, the clusters are those of the dependents that are not ignored.\<close>

lemma dependentClusters_set:
  assumes "ctx_Context ctx" "source_of ctx = []"
  obtains m where "dependentClusters p ic ctx deps = Some m" "distinct (map fst m)"
    "fst ` set m = (\<Union>d \<in> {d \<in> set deps. \<not> IsAssetIgnored p d}. set (GetClustersForIdentity ic d))"
proof -
  let ?f = "\<lambda>depIdentity m.
       if IsAssetIgnored p depIdentity then Some m
       else if \<not> ctx_Context ctx then None
       else (let sourceIdentity = source_of ctx in
         if length sourceIdentity > 0 \<and> sourceIdentity \<noteq> depIdentity then Some m
         else Some (fold (\<lambda>cluster m. gm_put cluster cluster m) (GetClustersForIdentity ic depIdentity) m))"
  have "\<exists>m'. foreach ?f deps m = Some m' \<and> gm_ok m'
      \<and> fst ` set m' = fst ` set m \<union> (\<Union>d \<in> {d \<in> set deps. \<not> IsAssetIgnored p d}. set (GetClustersForIdentity ic d))"
    if "gm_ok m" for m :: "(string, string) gomap"
    using that
  proof (induction deps arbitrary: m)
    case Nil
    then show ?case by simp
  next
    case (Cons d deps)
    show ?case
    proof (cases "IsAssetIgnored p d")
      case True
      then have "{x \<in> set (d # deps). \<not> IsAssetIgnored p x} = {x \<in> set deps. \<not> IsAssetIgnored p x}" by auto
      with Cons True show ?thesis by simp
    next
      case False
      let ?m = "fold (\<lambda>c m. gm_put c c m) (GetClustersForIdentity ic d) m"
      have m: "gm_ok ?m" "fst ` set ?m = fst ` set m \<union> set (GetClustersForIdentity ic d)"
        using fold_put_same [OF Cons.prems] by auto
      have "{x \<in> set (d # deps). \<not> IsAssetIgnored p x} = insert d {x \<in> set deps. \<not> IsAssetIgnored p x}"
        using False by auto
      with Cons.IH [OF m(1)] m(2) False assms show ?thesis by (auto simp: Un_assoc)
    qed
  qed
  from this [of "[]"] show ?thesis using that by (auto simp: dependentClusters_def gm_ok_def)
qed

subsection \<open>What the API server promises about virtual services\<close>

text \<open>
  As for envoy filters; besides, reading a missing object answers an error, a stored object is read
  back, and a stored object has a resource version.
\<close>

definition vs_laws :: "'w istio_api \<Rightarrow> ('w \<Rightarrow> object_key \<Rightarrow> VirtualService option) \<Rightarrow> bool" where
  "vs_laws api vss \<longleftrightarrow>
     (\<forall>cluster ns name w. case vss w (cluster, ns, name) of
        None \<Rightarrow> snd (api_GetVS api cluster ns name w) \<noteq> None
      | Some v \<Rightarrow> api_GetVS api cluster ns name w = (Some v, None) \<and> vs_ResourceVersion v \<noteq> [])
     \<and> (\<forall>cluster v w.
          if vss w (vs_key cluster v) = None \<and> vs_ResourceVersion v = [] then
            (\<exists>r w' rv. api_CreateVS api cluster (vs_Namespace v) v w = (Inr r, w')
               \<and> vss w' = (vss w)(vs_key cluster v \<mapsto> v\<lparr>vs_ResourceVersion := rv\<rparr>))
          else (\<exists>e w'. api_CreateVS api cluster (vs_Namespace v) v w = (Inl e, w') \<and> vss w' = vss w))
     \<and> (\<forall>cluster v w.
          if map_option vs_ResourceVersion (vss w (vs_key cluster v)) = Some (vs_ResourceVersion v) then
            (\<exists>r w' rv. api_UpdateVS api cluster (vs_Namespace v) v w = (Inr r, w')
               \<and> vss w' = (vss w)(vs_key cluster v \<mapsto> v\<lparr>vs_ResourceVersion := rv\<rparr>))
          else (\<exists>e w'. api_UpdateVS api cluster (vs_Namespace v) v w = (Inl e, w') \<and> vss w' = vss w))
     \<and> (\<forall>cluster ns name w. \<exists>e w'. api_DeleteVS api cluster ns name w = (e, w')
          \<and> vss w' = (vss w)((cluster, ns, name) := None))"

lemma vs_law_get:
  "vs_laws api vss \<Longrightarrow> case vss w (cluster, ns, name) of
        None \<Rightarrow> snd (api_GetVS api cluster ns name w) \<noteq> None
      | Some v \<Rightarrow> api_GetVS api cluster ns name w = (Some v, None) \<and> vs_ResourceVersion v \<noteq> []"
  unfolding vs_laws_def by (elim conjE allE)

lemma vs_law_create:
  "vs_laws api vss \<Longrightarrow>
     if vss w (vs_key cluster v) = None \<and> vs_ResourceVersion v = [] then
       (\<exists>r w' rv. api_CreateVS api cluster (vs_Namespace v) v w = (Inr r, w')
          \<and> vss w' = (vss w)(vs_key cluster v \<mapsto> v\<lparr>vs_ResourceVersion := rv\<rparr>))
     else (\<exists>e w'. api_CreateVS api cluster (vs_Namespace v) v w = (Inl e, w') \<and> vss w' = vss w)"
  unfolding vs_laws_def by (elim conjE allE)

lemma vs_law_update:
  "vs_laws api vss \<Longrightarrow>
     if map_option vs_ResourceVersion (vss w (vs_key cluster v)) = Some (vs_ResourceVersion v) then
       (\<exists>r w' rv. api_UpdateVS api cluster (vs_Namespace v) v w = (Inr r, w')
          \<and> vss w' = (vss w)(vs_key cluster v \<mapsto> v\<lparr>vs_ResourceVersion := rv\<rparr>))
     else (\<exists>e w'. api_UpdateVS api cluster (vs_Namespace v) v w = (Inl e, w') \<and> vss w' = vss w)"
  unfolding vs_laws_def by (elim conjE allE)

lemma vs_law_delete:
  "vs_laws api vss \<Longrightarrow> \<exists>e w'. api_DeleteVS api cluster ns name w = (e, w') \<and> vss w' = (vss w)((cluster, ns, name) := None)"
  unfolding vs_laws_def by (elim conjE allE)

text \<open>
  \<open>vs_like vs v\<close>: \<open>v\<close> is the object \<open>vs\<close> as the loop may have left it, with another resource version
  and perhaps a timestamp; \<open>vs_applied vs g\<close>: \<open>g\<close> is \<open>vs\<close> as it was written.
\<close>

definition vs_applied :: "VirtualService \<Rightarrow> VirtualService \<Rightarrow> bool" where
  "vs_applied vs g \<longleftrightarrow> (\<exists>rv now. g = vs\<lparr>vs_ResourceVersion := rv, vs_Annotations := stamp now (vs_Annotations vs)\<rparr>)"

definition vs_like :: "VirtualService \<Rightarrow> VirtualService \<Rightarrow> bool" where
  "vs_like vs v \<longleftrightarrow> vs_applied vs v \<or> (\<exists>rv. v = vs\<lparr>vs_ResourceVersion := rv\<rparr>)"

lemma stamp_stamp: "stamp now (stamp t a) = stamp now a"
proof -
  have "gm_put k v (gm_put k u m) = gm_put k v m" for k v u and m :: labels
    unfolding gm_put_def by (induction m) auto
  then show ?thesis by (cases a) (simp_all add: stamp_def)
qed

lemma vs_like_refl [simp]: "vs_like vs vs"
proof -
  have "vs = vs\<lparr>vs_ResourceVersion := vs_ResourceVersion vs\<rparr>" by simp
  then show ?thesis unfolding vs_like_def by blast
qed

text \<open>Stamping an object the loop has left, with any resource version, writes the requested object.\<close>

lemma vs_like_stamped:
  assumes "vs_like vs v"
  shows "vs_applied vs (v\<lparr>vs_ResourceVersion := rv, vs_Annotations := stamp now (vs_Annotations v)\<rparr>)"
  unfolding vs_applied_def
  by (rule exI [of _ rv], rule exI [of _ now]) (use assms in \<open>auto simp: vs_like_def vs_applied_def stamp_stamp\<close>)

lemma vs_like_stamped':
  assumes "vs_like vs v"
  shows "vs_applied vs (v\<lparr>vs_Annotations := stamp now (vs_Annotations v), vs_ResourceVersion := rv\<rparr>)"
    "vs_applied vs (v\<lparr>vs_Annotations := stamp now (vs_Annotations v)\<rparr>)"
  using vs_like_stamped [OF assms, where rv = rv and now = now]
    vs_like_stamped [OF assms, where rv = "vs_ResourceVersion v" and now = now]
  by (cases v, simp)+

lemma vs_like_fields:
  "vs_like vs v \<Longrightarrow> vs_Name v = vs_Name vs \<and> vs_Namespace v = vs_Namespace vs \<and> (vs_Annotations v = None) = (vs_Annotations vs = None)"
  by (auto simp: vs_like_def vs_applied_def stamp_def)

subsection \<open>One cluster\<close>

text \<open>
  Writing one cluster: an existing object is replaced and its resource version stays in the shared
  object; a missing one is created unless the shared object already has a resource version.
\<close>

lemma update_one:
  assumes "vs_laws api vss" "vs_like vs v" "vs_Annotations vs \<noteq> None" "vss w (vs_key c vs) = Some old"
  obtains r v' w' g where "UpdateVirtualService api c (v\<lparr>vs_ResourceVersion := vs_ResourceVersion old\<rparr>) w = Some (r, v', w')"
    "vs_like vs v'" "vs_ResourceVersion v' = vs_ResourceVersion old" "vss w' = (vss w)(vs_key c vs \<mapsto> g)" "vs_applied vs g"
proof -
  let ?v = "v\<lparr>vs_ResourceVersion := vs_ResourceVersion old, vs_Annotations := stamp (api_Now api w) (vs_Annotations v)\<rparr>"
  note f = vs_like_fields [OF assms(2)]
  have key: "vs_key c ?v = vs_key c vs" using f by (simp add: vs_key_def)
  from vs_law_update [OF assms(1), of w c ?v] assms(4) obtain r w' rv where
    u: "api_UpdateVS api c (vs_Namespace ?v) ?v w = (Inr r, w')" "vss w' = (vss w)(vs_key c vs \<mapsto> ?v\<lparr>vs_ResourceVersion := rv\<rparr>)"
    unfolding key by (auto split: if_splits)
  have "UpdateVirtualService api c (v\<lparr>vs_ResourceVersion := vs_ResourceVersion old\<rparr>) w = Some (Inr r, ?v, w')"
    using f assms(3) u(1) by (simp add: UpdateVirtualService_def Let_def)
  moreover have "vs_applied vs ?v" "vs_applied vs (?v\<lparr>vs_ResourceVersion := rv\<rparr>)"
    using vs_like_stamped [OF assms(2)] vs_like_stamped' [OF assms(2)] by simp_all
  ultimately show ?thesis using u(2) that by (simp add: vs_like_def)
qed

lemma create_one:
  assumes "vs_laws api vss" "vs_like vs v" "vs_Annotations vs \<noteq> None" "vss w (vs_key c vs) = None"
  obtains r v' w' where "CreateVirtualService api c v w = Some (r, v', w')" "vs_like vs v'"
    "vs_ResourceVersion v' = vs_ResourceVersion v"
    "if vs_ResourceVersion v = [] then \<exists>g. vss w' = (vss w)(vs_key c vs \<mapsto> g) \<and> vs_applied vs g else vss w' = vss w"
proof -
  let ?v = "v\<lparr>vs_Annotations := stamp (api_Now api w) (vs_Annotations v)\<rparr>"
  note f = vs_like_fields [OF assms(2)]
  have key: "vs_key c ?v = vs_key c vs" using f by (simp add: vs_key_def)
  obtain r w' where call: "api_CreateVS api c (vs_Namespace ?v) ?v w = (r, w')" by fastforce
  have "CreateVirtualService api c v w = Some (r, ?v, w')"
    using f assms(3) call by (simp add: CreateVirtualService_def Let_def)
  moreover have like: "vs_applied vs ?v" "vs_applied vs (?v\<lparr>vs_ResourceVersion := rv\<rparr>)" for rv
    using vs_like_stamped [OF assms(2)] vs_like_stamped' [OF assms(2)] by simp_all
  moreover have "if vs_ResourceVersion v = [] then \<exists>g. vss w' = (vss w)(vs_key c vs \<mapsto> g) \<and> vs_applied vs g else vss w' = vss w"
    using vs_law_create [OF assms(1), of w c ?v] assms(4) call like unfolding key by (auto split: if_splits)
  ultimately show ?thesis using that by (simp add: vs_like_def)
qed

definition vs_written_to :: "VirtualService \<Rightarrow> string \<Rightarrow> (object_key \<Rightarrow> VirtualService option)
    \<Rightarrow> (object_key \<Rightarrow> VirtualService option) \<Rightarrow> bool" where
  "vs_written_to vs c before after \<longleftrightarrow> (\<exists>g. after = before(vs_key c vs \<mapsto> g) \<and> vs_applied vs g)"

lemma write_one:
  assumes "vs_laws (en_Api env) vss" "vs_like vs v" "vs_Annotations vs \<noteq> None" "\<not> TC_IsDisabled tc"
    and "vs_Namespace vs = SyncNamespace (en_Params env)" "GetClusterID rc = c"
  obtains v' w' where "createUpdateDeleteVirtualServices env rc tc (v, w) = Some (v', w')" "vs_like vs v'"
    "if vss w (vs_key c vs) \<noteq> None then vs_written_to vs c (vss w) (vss w') \<and> vs_ResourceVersion v' \<noteq> []
     else vs_ResourceVersion v' = vs_ResourceVersion v
       \<and> (if vs_ResourceVersion v = [] then vs_written_to vs c (vss w) (vss w') else vss w' = vss w)"
proof -
  let ?api = "en_Api env"
  note f = vs_like_fields [OF assms(2)]
  have name: "(c, SyncNamespace (en_Params env), vs_Name v) = vs_key c vs" using f assms(5) by (simp add: vs_key_def)
  have get: "case vss w (vs_key c vs) of
        None \<Rightarrow> snd (api_GetVS ?api c (SyncNamespace (en_Params env)) (vs_Name v) w) \<noteq> None
      | Some old \<Rightarrow> api_GetVS ?api c (SyncNamespace (en_Params env)) (vs_Name v) w = (Some old, None) \<and> vs_ResourceVersion old \<noteq> []"
    using vs_law_get [OF assms(1), where w = w and cluster = c and ns = "SyncNamespace (en_Params env)" and name = "vs_Name v"] unfolding name .
  show ?thesis
  proof (cases "vss w (vs_key c vs)")
    case (Some old)
    obtain r v' w' g where u: "UpdateVirtualService ?api c (v\<lparr>vs_ResourceVersion := vs_ResourceVersion old\<rparr>) w = Some (r, v', w')"
      "vs_like vs v'" "vs_ResourceVersion v' = vs_ResourceVersion old" "vss w' = (vss w)(vs_key c vs \<mapsto> g)" "vs_applied vs g"
      by (rule update_one [OF assms(1-3) Some])
    have "createUpdateDeleteVirtualServices env rc tc (v, w) = Some (v', w')"
      using get Some u(1) assms(4,6) by (simp add: createUpdateDeleteVirtualServices_def GetVirtualService_def Let_def)
    with u get Some show ?thesis by (intro that [of v' w']) (auto simp: vs_written_to_def)
  next
    case None
    obtain r v' w' where n: "CreateVirtualService ?api c v w = Some (r, v', w')" "vs_like vs v'"
      "vs_ResourceVersion v' = vs_ResourceVersion v"
      "if vs_ResourceVersion v = [] then \<exists>g. vss w' = (vss w)(vs_key c vs \<mapsto> g) \<and> vs_applied vs g else vss w' = vss w"
      by (rule create_one [OF assms(1-3) None])
    obtain x e where "api_GetVS ?api c (SyncNamespace (en_Params env)) (vs_Name v) w = (x, Some e)"
      using get None by (cases "api_GetVS ?api c (SyncNamespace (en_Params env)) (vs_Name v) w") auto
    then have "createUpdateDeleteVirtualServices env rc tc (v, w) = Some (v', w')"
      using n(1) assms(4,6) by (cases x) (simp_all add: createUpdateDeleteVirtualServices_def GetVirtualService_def Let_def)
    with n None show ?thesis by (intro that [of v' w']) (auto simp: vs_written_to_def)
  qed
qed

subsection \<open>All clusters\<close>

text \<open>
  Which of the target clusters get the virtual service, in the order of the visit: once a cluster that
  already has the object was updated, its resource version stays in the shared object and creating
  it in a cluster that does not have it fails.
\<close>

fun clusters_written :: "(string \<Rightarrow> bool) \<Rightarrow> bool \<Rightarrow> string list \<Rightarrow> string list" where
  "clusters_written has leaked [] = []"
| "clusters_written has leaked (c # cs) =
     (if has c then c # clusters_written has True cs
      else if leaked then clusters_written has leaked cs
      else c # clusters_written has False cs)"

lemma clusters_written_leaked: "clusters_written has True cs = filter has cs"
  by (induction cs) auto

lemma clusters_written_set: "set (clusters_written has l cs) \<subseteq> set cs"
  by (induction has l cs rule: clusters_written.induct) auto

lemma clusters_written_mem:
  "distinct (us @ c # vs) \<Longrightarrow>
     c \<in> set (clusters_written has False (us @ c # vs)) \<longleftrightarrow> has c \<or> (\<forall>u \<in> set us. \<not> has u)"
proof (induction us)
  case Nil
  then show ?case by simp
next
  case (Cons u us)
  then show ?case by (auto simp: clusters_written_leaked)
qed

lemma clusters_written_cong:
  "(\<And>c. c \<in> set cs \<Longrightarrow> f c = g c) \<Longrightarrow> clusters_written f l cs = clusters_written g l cs"
  by (induction cs arbitrary: l) auto

lemma clusters_written_uniform: "(\<forall>c \<in> set cs. has c = b) \<Longrightarrow> clusters_written has False cs = cs"
  by (induction cs; cases b) (auto simp: clusters_written_leaked)

lemma write_clusters:
  assumes "vs_laws (en_Api env) vss" "vs_like vs v" "vs_Annotations vs \<noteq> None" "\<not> TC_IsDisabled tc"
    and "vs_Namespace vs = SyncNamespace (en_Params env)" "reg_ok reg"
    and "distinct (map fst m)" "\<forall>c \<in> fst ` set m. ToLower c = c \<and> cluster_scope env c \<noteq> None"
  shows "\<exists>v' w'. foreach (virtual_service_cluster env reg tc) m (v, w) = Some (v', w')
    \<and> (let written = clusters_written (\<lambda>c. vss w (vs_key c vs) \<noteq> None) (vs_ResourceVersion v \<noteq> [])
             (filter (reachable_cluster env reg) (map fst m)) in
         (\<forall>c \<in> set written. \<exists>g. vss w' (vs_key c vs) = Some g \<and> vs_applied vs g)
         \<and> (\<forall>k. k \<notin> (\<lambda>c. vs_key c vs) ` set written \<longrightarrow> vss w' k = vss w k))"
  using assms(2,7,8)
proof (induction m arbitrary: v w)
  case Nil
  then show ?case by simp
next
  case (Cons x m)
  obtain c d where x: "x = (c, d)" by fastforce
  have low: "ToLower c = c" and dist: "distinct (map fst m)" "c \<notin> fst ` set m"
    and rest: "\<forall>c \<in> fst ` set m. ToLower c = c \<and> cluster_scope env c \<noteq> None"
    using Cons.prems by (auto simp: x)
  obtain b where b: "cluster_scope env c = Some b" using Cons.prems(3) by (auto simp: x)
  show ?case
  proof (cases "reachable_cluster env reg c")
    case False
    then have "virtual_service_cluster env reg tc x (v, w) = Some (v, w)"
      using b by (auto simp: virtual_service_cluster_def x reachable_cluster_def)
    with Cons.IH [OF Cons.prems(1) dist(1) rest, of w] False show ?thesis by (simp add: x)
  next
    case True
    then obtain rc where rc: "RC_GetCluster (reg_clusters reg) c = Some rc" "cluster_scope env c = Some True"
      by (auto simp: reachable_cluster_def)
    have id: "GetClusterID rc = c" using RC_Get_id [OF assms(6) rc(1)] low by simp
    obtain v1 w1 where one: "createUpdateDeleteVirtualServices env rc tc (v, w) = Some (v1, w1)" "vs_like vs v1"
      "if vss w (vs_key c vs) \<noteq> None then vs_written_to vs c (vss w) (vss w1) \<and> vs_ResourceVersion v1 \<noteq> []
       else vs_ResourceVersion v1 = vs_ResourceVersion v
         \<and> (if vs_ResourceVersion v = [] then vs_written_to vs c (vss w) (vss w1) else vss w1 = vss w)"
      by (rule write_one [OF assms(1) Cons.prems(1) assms(3,4,5) id])
    have step: "virtual_service_cluster env reg tc x (v, w) = Some (v1, w1)"
      using rc one(1) by (simp add: virtual_service_cluster_def x)
    have keys: "vs_key e vs = vs_key c vs \<longleftrightarrow> e = c" for e by (auto simp: vs_key_def)
    let ?cs = "filter (reachable_cluster env reg) (map fst m)"
    define rest_written where
      "rest_written = clusters_written (\<lambda>c. vss w1 (vs_key c vs) \<noteq> None) (vs_ResourceVersion v1 \<noteq> []) ?cs"
    have "set rest_written \<subseteq> set ?cs" unfolding rest_written_def by (rule clusters_written_set)
    then have fresh: "c \<notin> set rest_written" using dist(2) by auto
    obtain v' w' where r: "foreach (virtual_service_cluster env reg tc) m (v1, w1) = Some (v', w')"
      "\<forall>e \<in> set rest_written. \<exists>g. vss w' (vs_key e vs) = Some g \<and> vs_applied vs g"
      "\<forall>k. k \<notin> (\<lambda>e. vs_key e vs) ` set rest_written \<longrightarrow> vss w' k = vss w1 k"
      using Cons.IH [OF one(2) dist(1) rest, of w1] unfolding Let_def rest_written_def by blast
    have same: "vss w1 (vs_key e vs) = vss w (vs_key e vs)" if "e \<noteq> c" for e
      using one(3) that keys [of e] by (auto simp: vs_written_to_def split: if_splits)
    have has: "clusters_written (\<lambda>c. vss w1 (vs_key c vs) \<noteq> None) l ?cs
        = clusters_written (\<lambda>c. vss w (vs_key c vs) \<noteq> None) l ?cs" for l
    proof (rule clusters_written_cong)
      fix e
      assume "e \<in> set ?cs"
      with dist(2) have "e \<noteq> c" by auto
      then show "(vss w1 (vs_key e vs) \<noteq> None) = (vss w (vs_key e vs) \<noteq> None)" by (simp add: same)
    qed
    let ?all = "clusters_written (\<lambda>c. vss w (vs_key c vs) \<noteq> None) (vs_ResourceVersion v \<noteq> [])
        (filter (reachable_cluster env reg) (map fst (x # m)))"
    consider (written) "?all = c # rest_written" "vs_written_to vs c (vss w) (vss w1)" | (skipped) "?all = rest_written" "vss w1 = vss w"
      using one(3) True by (cases "vss w (vs_key c vs) = None"; cases "vs_ResourceVersion v = []")
        (simp_all add: x has rest_written_def del: not_None_eq)
    then show ?thesis
    proof cases
      case written
      then obtain g where g: "vss w1 = (vss w)(vs_key c vs \<mapsto> g)" "vs_applied vs g" by (auto simp: vs_written_to_def)
      have "vs_key c vs \<notin> (\<lambda>e. vs_key e vs) ` set rest_written" using fresh keys by (metis imageE)
      then have "vss w' (vs_key c vs) = vss w1 (vs_key c vs)" by (rule r(3) [rule_format])
      then have "vss w' (vs_key c vs) = Some g" unfolding g(1) by simp
      moreover have "vss w' k = vss w k" if "k \<noteq> vs_key c vs" "k \<notin> (\<lambda>e. vs_key e vs) ` set rest_written" for k
      proof -
        have "vss w' k = vss w1 k" by (rule r(3) [rule_format, OF that(2)])
        then show ?thesis unfolding g(1) using that(1) by simp
      qed
      moreover have "foreach (virtual_service_cluster env reg tc) (x # m) (v, w) = Some (v', w')" using step r(1) by simp
      moreover have "\<exists>g. vss w' (vs_key e vs) = Some g \<and> vs_applied vs g" if "e \<in> set (c # rest_written)" for e
        using that r(2) g(2) calculation(1) by auto
      ultimately show ?thesis unfolding written(1) Let_def by (intro exI [of _ v'] exI [of _ w']) auto
    next
      case skipped
      moreover have "foreach (virtual_service_cluster env reg tc) (x # m) (v, w) = Some (v', w')" using step r(1) by simp
      ultimately show ?thesis unfolding skipped(1) Let_def using r(2,3) by (intro exI [of _ v'] exI [of _ w']) simp
    qed
  qed
qed

subsection \<open>Properties\<close>

text \<open>The clusters in which the virtual service of a traffic config is wanted.\<close>

definition virtual_service_targets :: "'w environment \<Rightarrow> ('cc, 'w) system \<Rightarrow> TrafficConfig \<Rightarrow> string set" where
  "virtual_service_targets env st tc =
     {c. \<exists>d. d \<in> set (GetDependentsForIdentity (sy_IdentityDependency st) (TC_GetIdentity (en_Params env) tc))
        \<and> \<not> IsAssetIgnored (en_Params env) d \<and> c \<in> set (GetClustersForIdentity (sy_IdentityCluster st) d)
        \<and> reachable_cluster env (sy_Registry st) c}"

lemma built_object:
  assumes "tc_EdgeService tc = Some es" "es_Routes es \<noteq> []"
  obtains vs where "buildVirtualServiceForMeshDependents ex p tc = Inr vs" "vs_Annotations vs \<noteq> None"
    "vs_Namespace vs = SyncNamespace p" "vs_ResourceVersion vs = []"
proof (cases "buildVirtualServiceForMeshDependents ex p tc")
  case (Inl e)
  then show ?thesis using assms by (auto simp: buildVirtualServiceForMeshDependents_def
        buildVirtualServiceWithoutTargetDetails_def Let_def split: if_splits prod.splits)
next
  case (Inr vs)
  obtain rules where "vs = buildVirtualServiceObject p tc (addAllowAllRule ex p tc rules)"
    by (rule build_cases [OF Inr assms(1)])
  then show ?thesis using Inr that by (simp add: buildVirtualServiceObject_def)
qed

lemma target_clusters:
  assumes "system_ok p st" "ctx_Context ctx" "source_of ctx = []"
  obtains m where "dependentClusters p (sy_IdentityCluster st) ctx deps = Some m" "distinct (map fst m)"
    "fst ` set m = (\<Union>d \<in> {d \<in> set deps. \<not> IsAssetIgnored p d}. set (GetClustersForIdentity (sy_IdentityCluster st) d))"
    "\<forall>c \<in> fst ` set m. ToLower c = c"
proof -
  have "sm_ok (sy_IdentityCluster st)" using assms(1) by (simp add: system_ok_def)
  then have "ToLower c = c" if "c \<in> set (GetClustersForIdentity (sy_IdentityCluster st) d)" for c d
    using id_cluster.items_lower that by blast
  moreover obtain m where m: "dependentClusters p (sy_IdentityCluster st) ctx deps = Some m" "distinct (map fst m)"
    "fst ` set m = (\<Union>d \<in> {d \<in> set deps. \<not> IsAssetIgnored p d}. set (GetClustersForIdentity (sy_IdentityCluster st) d))"
    by (rule dependentClusters_set [OF assms(2,3)])
  ultimately have "\<forall>c \<in> fst ` set m. ToLower c = c" unfolding m(3) by blast
  with m show ?thesis by (rule that)
qed

text \<open>The whole handler, for traffic configs that are not disabled and for disabled ones.\<close>

lemma write_virtual_services:
  assumes laws: "vs_laws (en_Api env) vss" and ok: "system_ok (en_Params env) st"
    and ctx: "ctx_Context ctx" "source_of ctx = []"
    and tc: "TC_GetEnv tc \<noteq> []" "\<not> TC_IsDisabled tc" "tc_EdgeService tc = Some es" "es_Routes es \<noteq> []"
    and scope: "\<forall>c. cluster_scope env c \<noteq> None"
  shows "\<exists>vs st' order. buildVirtualServiceForMeshDependents (en_Ext env) (en_Params env) tc = Inr vs
    \<and> HandleVirtualServiceForTrafficConfig env ctx tc st = Some st' \<and> st' = st\<lparr>sy_World := sy_World st'\<rparr>
    \<and> distinct order \<and> set order = virtual_service_targets env st tc
    \<and> (\<forall>us c rest. order = us @ c # rest \<longrightarrow>
          (if vss (sy_World st) (vs_key c vs) \<noteq> None \<or> (\<forall>u \<in> set us. vss (sy_World st) (vs_key u vs) = None)
           then \<exists>g. vss (sy_World st') (vs_key c vs) = Some g \<and> vs_applied vs g
           else vss (sy_World st') (vs_key c vs) = None))
    \<and> (\<forall>k. k \<notin> (\<lambda>c. vs_key c vs) ` virtual_service_targets env st tc \<longrightarrow> vss (sy_World st') k = vss (sy_World st) k)"
proof -
  let ?p = "en_Params env" and ?w = "sy_World st"
  let ?deps = "GetDependentsForIdentity (sy_IdentityDependency st) (TC_GetIdentity ?p tc)"
  obtain vs where vs: "buildVirtualServiceForMeshDependents (en_Ext env) ?p tc = Inr vs" "vs_Annotations vs \<noteq> None"
    "vs_Namespace vs = SyncNamespace ?p" "vs_ResourceVersion vs = []"
    by (rule built_object [OF tc(3,4)])
  obtain m where m: "dependentClusters ?p (sy_IdentityCluster st) ctx ?deps = Some m" "distinct (map fst m)"
    "fst ` set m = (\<Union>d \<in> {d \<in> set ?deps. \<not> IsAssetIgnored ?p d}. set (GetClustersForIdentity (sy_IdentityCluster st) d))"
    "\<forall>c \<in> fst ` set m. ToLower c = c"
    by (rule target_clusters [OF ok ctx])
  define order where "order = filter (reachable_cluster env (sy_Registry st)) (map fst m)"
  define has where "has c \<longleftrightarrow> vss ?w (vs_key c vs) \<noteq> None" for c
  have reg: "reg_ok (sy_Registry st)" using ok by (simp add: system_ok_def)
  have "\<forall>c \<in> fst ` set m. ToLower c = c \<and> cluster_scope env c \<noteq> None" using m(4) scope by blast
  from write_clusters [OF laws vs_like_refl vs(2) tc(2) vs(3) reg m(2) this, of ?w]
  obtain v' w' where run: "foreach (virtual_service_cluster env (sy_Registry st) tc) m (vs, ?w) = Some (v', w')"
    "\<forall>c \<in> set (clusters_written has False order). \<exists>g. vss w' (vs_key c vs) = Some g \<and> vs_applied vs g"
    "\<forall>k. k \<notin> (\<lambda>c. vs_key c vs) ` set (clusters_written has False order) \<longrightarrow> vss w' k = vss ?w k"
    unfolding Let_def vs(4) order_def has_def by auto
  have targets: "set order = virtual_service_targets env st tc"
    unfolding order_def virtual_service_targets_def using m(3) by (auto simp: image_iff)
  have call: "HandleVirtualServiceForTrafficConfig env ctx tc st = Some (st\<lparr>sy_World := w'\<rparr>)"
  proof -
    have "w' = ?w" if "m = []" using run(1) that by simp
    moreover have "m = []" if "?deps = []" using m(1) that by (simp add: dependentClusters_def)
    ultimately show ?thesis
      using run(1) m(1) vs(1) tc(1)
      by (auto simp: HandleVirtualServiceForTrafficConfig_def handleVirtualServiceForMeshDependents_def Let_def)
  qed
  have dist: "distinct order" unfolding order_def using m(2) by simp
  have each: "if has c \<or> (\<forall>u \<in> set us. \<not> has u)
      then \<exists>g. vss w' (vs_key c vs) = Some g \<and> vs_applied vs g else vss w' (vs_key c vs) = None"
    if o: "order = us @ c # rest" for us c rest
  proof -
    have mem: "c \<in> set (clusters_written has False order) \<longleftrightarrow> has c \<or> (\<forall>u \<in> set us. \<not> has u)"
      unfolding o by (rule clusters_written_mem) (use dist o in simp)
    show ?thesis
    proof (cases "c \<in> set (clusters_written has False order)")
      case True
      with run(2) mem show ?thesis by auto
    next
      case False
      then have "vs_key c vs \<notin> (\<lambda>c. vs_key c vs) ` set (clusters_written has False order)"
        by (auto simp: vs_key_def)
      then have "vss w' (vs_key c vs) = vss ?w (vs_key c vs)" by (rule run(3) [rule_format])
      with False mem show ?thesis by (auto simp: has_def)
    qed
  qed
  have rest: "vss w' k = vss ?w k" if "k \<notin> (\<lambda>c. vs_key c vs) ` virtual_service_targets env st tc" for k
    by (rule run(3) [rule_format]) (use that clusters_written_set [of has False order] targets in auto)
  show ?thesis
    by (intro exI [of _ vs] exI [of _ "st\<lparr>sy_World := w'\<rparr>"] exI [of _ order] conjI allI impI)
      (use vs(1) call dist targets rest each [unfolded has_def] in simp_all)
qed


lemma targets_order:
  assumes ok: "system_ok (en_Params env) st" and ctx: "ctx_Context ctx" "source_of ctx = []"
  obtains m where "dependentClusters (en_Params env) (sy_IdentityCluster st) ctx
      (GetDependentsForIdentity (sy_IdentityDependency st) (TC_GetIdentity (en_Params env) tc)) = Some m"
    "distinct (map fst m)" "\<forall>c \<in> fst ` set m. ToLower c = c"
    "virtual_service_targets env st tc = {c \<in> fst ` set m. reachable_cluster env (sy_Registry st) c}"
  by (rule target_clusters [OF ok ctx, of "GetDependentsForIdentity (sy_IdentityDependency st) (TC_GetIdentity (en_Params env) tc)"])
    (rule that, auto simp: virtual_service_targets_def)

lemma write_nil:
  "\<not> TC_IsDisabled tc \<Longrightarrow> vs_Annotations v = None \<Longrightarrow> createUpdateDeleteVirtualServices env rc tc (v, w) = None"
  by (simp add: createUpdateDeleteVirtualServices_def UpdateVirtualService_def CreateVirtualService_def
      Let_def split: prod.split option.split)

text \<open>
  Handling a traffic config without edge service panics as soon as there is a cluster to write to,
  on creation and on update alike: the object is the zero object, whose annotations are nil.
\<close>

theorem nil_edge_service_panics:
  assumes ok: "system_ok (en_Params env) st" and ctx: "ctx_Context ctx" "source_of ctx = []"
    and tc: "TC_GetEnv tc \<noteq> []" "\<not> TC_IsDisabled tc" "tc_EdgeService tc = None"
    and target: "virtual_service_targets env st tc \<noteq> {}"
  shows "HandleVirtualServiceForTrafficConfig env ctx tc st = None"
proof -
  let ?deps = "GetDependentsForIdentity (sy_IdentityDependency st) (TC_GetIdentity (en_Params env) tc)"
  obtain m where m: "dependentClusters (en_Params env) (sy_IdentityCluster st) ctx ?deps = Some m" "distinct (map fst m)"
    "\<forall>c \<in> fst ` set m. ToLower c = c"
    "virtual_service_targets env st tc = {c \<in> fst ` set m. reachable_cluster env (sy_Registry st) c}"
    by (rule targets_order [OF ok ctx, of tc])
  obtain c d where cd: "(c, d) \<in> set m" "reachable_cluster env (sy_Registry st) c"
    using target m(4) by fastforce
  then obtain rc where rc: "RC_GetCluster (reg_clusters (sy_Registry st)) c = Some rc" "cluster_scope env c = Some True"
    by (auto simp: reachable_cluster_def)
  have "foreach (virtual_service_cluster env (sy_Registry st) tc) xs (v, w) = None"
    if "(c, d) \<in> set xs" "vs_Annotations v = None" for xs v w
    using that
  proof (induction xs)
    case Nil
    then show ?case by simp
  next
    case (Cons x xs)
    show ?case
    proof (cases "x = (c, d)")
      case True
      then show ?thesis using rc by (simp add: virtual_service_cluster_def write_nil [OF tc(2) Cons.prems(2)])
    next
      case False
      obtain a b where x: "x = (a, b)" by fastforce
      have "virtual_service_cluster env (sy_Registry st) tc x (v, w) \<in> {None, Some (v, w)}"
        by (auto simp: virtual_service_cluster_def x write_nil [OF tc(2) Cons.prems(2)] split: bind_splits option.splits)
      with Cons False show ?thesis by auto
    qed
  qed
  from this [OF cd(1), of zeroVirtualService] have
    "foreach (virtual_service_cluster env (sy_Registry st) tc) m (zeroVirtualService, sy_World st) = None"
    by (simp add: zeroVirtualService_def)
  moreover have "m \<noteq> []" "?deps \<noteq> []" using cd(1) m(1) by (auto simp: dependentClusters_def)
  moreover have "buildVirtualServiceForMeshDependents (en_Ext env) (en_Params env) tc = Inr zeroVirtualService"
    using tc(3) by (simp add: buildVirtualServiceForMeshDependents_def)
  ultimately show ?thesis
    using m(1) tc(1) by (simp add: HandleVirtualServiceForTrafficConfig_def handleVirtualServiceForMeshDependents_def Let_def)
qed

lemma delete_virtual_services:
  assumes laws: "vs_laws (en_Api env) vss" and ok: "system_ok (en_Params env) st"
    and ctx: "ctx_Context ctx" "source_of ctx = []"
    and tc: "TC_GetEnv tc \<noteq> []" "TC_IsDisabled tc" "tc_EdgeService tc = Some es" "es_Routes es \<noteq> []"
    and scope: "\<forall>c. cluster_scope env c \<noteq> None"
  shows "\<exists>vs st'. buildVirtualServiceForMeshDependents (en_Ext env) (en_Params env) tc = Inr vs
    \<and> HandleVirtualServiceForTrafficConfig env ctx tc st = Some st' \<and> st' = st\<lparr>sy_World := sy_World st'\<rparr>
    \<and> vss (sy_World st') = (\<lambda>k. if k \<in> (\<lambda>c. vs_key c vs) ` virtual_service_targets env st tc then None
        else vss (sy_World st) k)"
proof -
  let ?p = "en_Params env" and ?w = "sy_World st" and ?reg = "sy_Registry st"
  let ?deps = "GetDependentsForIdentity (sy_IdentityDependency st) (TC_GetIdentity ?p tc)"
  obtain vs where vs: "buildVirtualServiceForMeshDependents (en_Ext env) ?p tc = Inr vs" "vs_Namespace vs = SyncNamespace ?p"
    by (rule built_object [OF tc(3,4)]) blast
  obtain m where m: "dependentClusters ?p (sy_IdentityCluster st) ctx ?deps = Some m" "distinct (map fst m)"
    "\<forall>c \<in> fst ` set m. ToLower c = c"
    "virtual_service_targets env st tc = {c \<in> fst ` set m. reachable_cluster env ?reg c}"
    by (rule targets_order [OF ok ctx, of tc])
  have reg: "reg_ok ?reg" using ok by (simp add: system_ok_def)
  have "\<exists>w'. foreach (virtual_service_cluster env ?reg tc) xs (vs, w) = Some (vs, w')
      \<and> vss w' = (\<lambda>k. if k \<in> (\<lambda>c. vs_key c vs) ` {c \<in> fst ` set xs. reachable_cluster env ?reg c} then None else vss w k)"
    if "\<forall>c \<in> fst ` set xs. ToLower c = c" for xs w
    using that
  proof (induction xs arbitrary: w)
    case Nil
    then show ?case by simp
  next
    case (Cons x xs)
    obtain c d where x: "x = (c, d)" by fastforce
    obtain b where b: "cluster_scope env c = Some b" using scope by (meson not_None_eq)
    show ?case
    proof (cases "reachable_cluster env ?reg c")
      case False
      then have "virtual_service_cluster env ?reg tc x (vs, w) = Some (vs, w)"
        using b by (auto simp: virtual_service_cluster_def x reachable_cluster_def)
      moreover have "{e \<in> fst ` set (x # xs). reachable_cluster env ?reg e} = {e \<in> fst ` set xs. reachable_cluster env ?reg e}"
        using False by (auto simp: x)
      ultimately show ?thesis using Cons by simp
    next
      case True
      then obtain rc where rc: "RC_GetCluster (reg_clusters ?reg) c = Some rc" "cluster_scope env c = Some True"
        by (auto simp: reachable_cluster_def)
      have id: "GetClusterID rc = c" using RC_Get_id [OF reg rc(1)] Cons.prems by (simp add: x)
      obtain e w1 where del: "api_DeleteVS (en_Api env) c (SyncNamespace ?p) (vs_Name vs) w = (e, w1)"
        "vss w1 = (vss w)(vs_key c vs := None)"
        using vs_law_delete [OF laws] vs(2) unfolding vs_key_def by metis
      have one: "virtual_service_cluster env ?reg tc x (vs, w) = Some (vs, w1)"
        using rc id del(1) tc(2)
        by (simp add: virtual_service_cluster_def x createUpdateDeleteVirtualServices_def DeleteVirtualService_def Let_def)
      obtain w' where more: "foreach (virtual_service_cluster env ?reg tc) xs (vs, w1) = Some (vs, w')"
        "vss w' = (\<lambda>k. if k \<in> (\<lambda>c. vs_key c vs) ` {c \<in> fst ` set xs. reachable_cluster env ?reg c} then None else vss w1 k)"
        using Cons.IH [of w1] Cons.prems by auto
      have set: "{e \<in> fst ` set (x # xs). reachable_cluster env ?reg e} = insert c {e \<in> fst ` set xs. reachable_cluster env ?reg e}"
        using True by (auto simp: x)
      have "vss w' = (\<lambda>k. if k \<in> (\<lambda>c. vs_key c vs) ` insert c {e \<in> fst ` set xs. reachable_cluster env ?reg e} then None else vss w k)"
        unfolding more(2) del(2) by (rule ext) simp
      with one more(1) show ?thesis unfolding set by (intro exI [of _ w']) simp
    qed
  qed
  from this [OF m(3), of ?w] obtain w' where run: "foreach (virtual_service_cluster env ?reg tc) m (vs, ?w) = Some (vs, w')"
    "vss w' = (\<lambda>k. if k \<in> (\<lambda>c. vs_key c vs) ` virtual_service_targets env st tc then None else vss ?w k)"
    unfolding m(4) by blast
  have "HandleVirtualServiceForTrafficConfig env ctx tc st = Some (st\<lparr>sy_World := w'\<rparr>)"
  proof -
    have "w' = ?w" if "m = []" using run(1) that by simp
    moreover have "m = []" if "?deps = []" using m(1) that by (simp add: dependentClusters_def)
    ultimately show ?thesis
      using run(1) m(1) vs(1) tc(1)
      by (auto simp: HandleVirtualServiceForTrafficConfig_def handleVirtualServiceForMeshDependents_def Let_def)
  qed
  with vs(1) run(2) show ?thesis by (intro exI [of _ vs] exI [of _ "st\<lparr>sy_World := w'\<rparr>"]) simp
qed

text \<open>
  Handling a disabled traffic config with routes deletes the virtual service of its name from
  every target cluster and leaves everything else as it is.
\<close>

theorem disabled_virtual_services_deleted:
  assumes laws: "vs_laws (en_Api env) vss" and ok: "system_ok (en_Params env) st"
    and ctx: "ctx_Context ctx" "source_of ctx = []"
    and tc: "TC_GetEnv tc \<noteq> []" "TC_IsDisabled tc" "tc_EdgeService tc = Some es" "es_Routes es \<noteq> []"
    and scope: "\<forall>c. cluster_scope env c \<noteq> None"
  shows "\<exists>vs st'. buildVirtualServiceForMeshDependents (en_Ext env) (en_Params env) tc = Inr vs
    \<and> HandleVirtualServiceForTrafficConfig env ctx tc st = Some st' \<and> st' = st\<lparr>sy_World := sy_World st'\<rparr>
    \<and> vss (sy_World st') = (\<lambda>k. if k \<in> (\<lambda>c. vs_key c vs) ` virtual_service_targets env st tc then None
        else vss (sy_World st) k)"
  by (rule delete_virtual_services [OF laws ok ctx tc scope])

subsection \<open>Witnesses\<close>

definition sample_vss :: "server \<Rightarrow> object_key \<Rightarrow> VirtualService option" where
  "sample_vss w k = map_option versioned (gm_get (snd w) k)"

lemma versioned_set: "versioned (n, v) = v\<lparr>vs_ResourceVersion := replicate (Suc n) (CHR ''1'')\<rparr>"
  by (simp add: versioned_def)

lemma sample_vs_laws: "vs_laws sample_api sample_vss"
proof -
  have ne: "vs_ResourceVersion (versioned x) \<noteq> []" for x by (cases x) (simp add: versioned_set)
  have put: "sample_vss (a, gm_put k (n, v) b) = (sample_vss (a, b))(k \<mapsto> v\<lparr>vs_ResourceVersion := replicate (Suc n) (CHR ''1'')\<rparr>)"
    for a b k n v by (auto simp: sample_vss_def versioned_set fun_eq_iff)
  have del: "sample_vss (a, gm_del k b) = (sample_vss (a, b))(k := None)" for a b k
    by (auto simp: sample_vss_def fun_eq_iff)
  have none: "sample_vss w k = None \<longleftrightarrow> gm_get (snd w) k = None"
    and rv: "map_option vs_ResourceVersion (sample_vss w k) = map_option (\<lambda>x. vs_ResourceVersion (versioned x)) (gm_get (snd w) k)"
    for w k by (simp_all add: sample_vss_def option.map_comp comp_def)
  show ?thesis
    unfolding vs_laws_def
  proof (intro conjI allI)
    fix cluster ns name w
    show "case sample_vss w (cluster, ns, name) of
        None \<Rightarrow> snd (api_GetVS sample_api cluster ns name w) \<noteq> None
      | Some v \<Rightarrow> api_GetVS sample_api cluster ns name w = (Some v, None) \<and> vs_ResourceVersion v \<noteq> []"
      by (simp add: sample_vss_def sample_api_def ne split: option.split)
    show "\<exists>e w'. api_DeleteVS sample_api cluster ns name w = (e, w')
          \<and> sample_vss w' = (sample_vss w)((cluster, ns, name) := None)"
      by (simp add: sample_api_def del)
  next
    fix cluster v w
    show "if sample_vss w (vs_key cluster v) = None \<and> vs_ResourceVersion v = [] then
            (\<exists>r w' rv. api_CreateVS sample_api cluster (vs_Namespace v) v w = (Inr r, w')
               \<and> sample_vss w' = (sample_vss w)(vs_key cluster v \<mapsto> v\<lparr>vs_ResourceVersion := rv\<rparr>))
          else (\<exists>e w'. api_CreateVS sample_api cluster (vs_Namespace v) v w = (Inl e, w') \<and> sample_vss w' = sample_vss w)"
      by (cases w) (auto simp: sample_api_def put vs_key_def none)
    show "if map_option vs_ResourceVersion (sample_vss w (vs_key cluster v)) = Some (vs_ResourceVersion v) then
            (\<exists>r w' rv. api_UpdateVS sample_api cluster (vs_Namespace v) v w = (Inr r, w')
               \<and> sample_vss w' = (sample_vss w)(vs_key cluster v \<mapsto> v\<lparr>vs_ResourceVersion := rv\<rparr>))
          else (\<exists>e w'. api_UpdateVS sample_api cluster (vs_Namespace v) v w = (Inl e, w') \<and> sample_vss w' = sample_vss w)"
      by (cases w) (auto simp: sample_api_def put vs_key_def rv)
  qed
qed

text \<open>Two clusters of one dependent; the virtual service exists in the first.\<close>

definition shop_key :: "string \<Rightarrow> object_key" where
  "shop_key c = (c, ''admiral-sync'', ''qal.shop.mesh-vs'')"

definition one_cluster_has :: server where
  "one_cluster_has = ([], [(shop_key ''c1'', 3, zeroVirtualService)])"

lemma sample_targets: "virtual_service_targets sample_env (sample_system w) dialed_tc = {''c1'', ''c2''}"
proof -
  have "GetDependentsForIdentity (sy_IdentityDependency (sample_system w)) (TC_GetIdentity (en_Params sample_env) dialed_tc) = [''web'']"
    "\<not> IsAssetIgnored (en_Params sample_env) ''web''"
    "GetClustersForIdentity (sy_IdentityCluster (sample_system w)) ''web'' = [''c1'', ''c2'']"
    "map_option rcl_clusterID (RC_GetCluster (reg_clusters (sy_Registry (sample_system w))) ''c1'') = Some ''c1''"
    "map_option rcl_clusterID (RC_GetCluster (reg_clusters (sy_Registry (sample_system w))) ''c2'') = Some ''c2''"
    unfolding sample_system_def initial_system_def by code_simp+
  then show ?thesis by (auto simp: virtual_service_targets_def reachable_cluster_def sample_scope)
qed

lemma sample_tc: "TC_GetEnv dialed_tc \<noteq> []" "\<not> TC_IsDisabled dialed_tc" "tc_EdgeService dialed_tc = Some dialed_service"
  "es_Routes dialed_service \<noteq> []"
  by code_simp+

lemma sample_context: "ctx_Context NewContextWithLogger" "source_of NewContextWithLogger = []"
  by (simp_all add: NewContextWithLogger_def source_of_def)

lemma sample_vs_name:
  assumes "buildVirtualServiceForMeshDependents (en_Ext sample_env) (en_Params sample_env) tc = Inr vs"
    and "tc_EdgeService tc = Some es" "tc = dialed_tc\<lparr>tc_EdgeService := Some es\<rparr> \<or> tc = dialed_tc"
  shows "vs_key c vs = shop_key c"
proof -
  obtain rules where vs: "vs = buildVirtualServiceObject (en_Params sample_env) tc
      (addAllowAllRule (en_Ext sample_env) (en_Params sample_env) tc rules)"
    by (rule build_cases [OF assms(1,2)])
  have "getVirtualServiceName (InitializeNaavikArgs None) (TC_GetEnv dialed_tc)
      (TC_GetIdentityLowerCase (InitializeNaavikArgs None) dialed_tc) = ''qal.shop.mesh-vs''"
    "SyncNamespace (InitializeNaavikArgs None) = ''admiral-sync''"
    by code_simp+
  moreover have "TC_GetEnv tc = TC_GetEnv dialed_tc"
    "TC_GetIdentityLowerCase p tc = TC_GetIdentityLowerCase p dialed_tc" for p
    using assms(3) by (auto simp: TC_GetEnv_def TC_GetIdentityLowerCase_def TC_GetIdentity_def)
  ultimately show ?thesis by (simp add: vs vs_key_def buildVirtualServiceObject_def shop_key_def sample_env_def)
qed


theorem nil_edge_service_panics_witness:
  "HandleVirtualServiceForTrafficConfig sample_env NewContextWithLogger (dialed_tc\<lparr>tc_EdgeService := None\<rparr>)
     (sample_system one_cluster_has) = None"
proof (rule nil_edge_service_panics [OF sample_system_ok sample_context])
  have "virtual_service_targets sample_env (sample_system one_cluster_has) (dialed_tc\<lparr>tc_EdgeService := None\<rparr>)
      = virtual_service_targets sample_env (sample_system one_cluster_has) dialed_tc"
    by (simp add: virtual_service_targets_def TC_GetIdentity_def)
  then show "virtual_service_targets sample_env (sample_system one_cluster_has) (dialed_tc\<lparr>tc_EdgeService := None\<rparr>) \<noteq> {}"
    by (simp add: sample_targets)
qed (use sample_tc in \<open>simp_all add: TC_GetEnv_def TC_IsDisabled_def\<close>)

definition disabled_tc :: TrafficConfig where
  "disabled_tc = dialed_tc\<lparr>tc_Meta := (tc_Meta dialed_tc)\<lparr>om_Annotations := Some [(''isDisabled'', ''true'')]\<rparr>\<rparr>"

theorem disabled_virtual_services_deleted_witness:
  "\<exists>st'. HandleVirtualServiceForTrafficConfig sample_env NewContextWithLogger disabled_tc (sample_system one_cluster_has) = Some st'
     \<and> sample_vss (sy_World st') (shop_key ''c1'') = None"
proof -
  let ?st = "sample_system one_cluster_has"
  have laws: "vs_laws (en_Api sample_env) sample_vss" using sample_vs_laws by (simp add: sample_env_def)
  have tc: "TC_GetEnv disabled_tc \<noteq> []" "TC_IsDisabled disabled_tc" "tc_EdgeService disabled_tc = Some dialed_service"
    "es_Routes dialed_service \<noteq> []" by code_simp+
  obtain vs st' where b: "buildVirtualServiceForMeshDependents (en_Ext sample_env) (en_Params sample_env) disabled_tc = Inr vs"
    and h: "HandleVirtualServiceForTrafficConfig sample_env NewContextWithLogger disabled_tc ?st = Some st'"
      "sample_vss (sy_World st') = (\<lambda>k. if k \<in> (\<lambda>c. vs_key c vs) ` virtual_service_targets sample_env ?st disabled_tc
        then None else sample_vss (sy_World ?st) k)"
    using disabled_virtual_services_deleted [OF laws sample_system_ok sample_context tc, of one_cluster_has] sample_scope by auto
  have id: "TC_GetIdentity (en_Params sample_env) disabled_tc = TC_GetIdentity (en_Params sample_env) dialed_tc"
    unfolding sample_env_def by code_simp
  then have "''c1'' \<in> virtual_service_targets sample_env ?st disabled_tc"
    using sample_targets [of one_cluster_has] by (simp add: virtual_service_targets_def)
  moreover have "vs_key ''c1'' vs = shop_key ''c1''"
  proof -
    obtain rules where vs: "vs = buildVirtualServiceObject (en_Params sample_env) disabled_tc
        (addAllowAllRule (en_Ext sample_env) (en_Params sample_env) disabled_tc rules)"
      by (rule build_cases [OF b tc(3)])
    have "getVirtualServiceName (InitializeNaavikArgs None) (TC_GetEnv disabled_tc)
        (TC_GetIdentityLowerCase (InitializeNaavikArgs None) disabled_tc) = ''qal.shop.mesh-vs''"
      "SyncNamespace (InitializeNaavikArgs None) = ''admiral-sync''"
      by code_simp+
    then show ?thesis by (simp add: vs vs_key_def buildVirtualServiceObject_def shop_key_def sample_env_def)
  qed
  ultimately have "shop_key ''c1'' \<in> (\<lambda>c. vs_key c vs) ` virtual_service_targets sample_env ?st disabled_tc" by force
  with h show ?thesis by (intro exI [of _ st']) simp
qed

end
