(* ===== verification/RateLimitHandler.thy ===== *)
theory RateLimitHandler
  imports SystemState
begin

text \<open>
  The rate limit handler of \<open>internal/handler/trafficconfig/rate_limiting_handler.go\<close>: the envoy
  filters of a traffic config in each cluster of its identity, one for each workload environment and
  proxy version, applied against the filters the cluster lists for the traffic config.
\<close>

text \<open>Object keys are triples; statements about all keys are used as they are stated.\<close>

declare split_paired_All [simp del]

definition NamespaceIstioSystem :: string where "NamespaceIstioSystem = ''istio-system''"

definition rate_limit_selector :: "NaavikArgs \<Rightarrow> TrafficConfig \<Rightarrow> selector" where
  "rate_limit_selector p tc =
     [(CreatedForKey, TC_GetIdentityLowerCase p tc), (CreatedForTrafficEnvKey, TC_GetEnv tc)]"

definition listRateLimitingFilters ::
    "'w environment \<Rightarrow> 'cc RemoteCluster \<Rightarrow> TrafficConfig \<Rightarrow> 'w \<Rightarrow> EnvoyFilter list option \<times> string option" where
  "listRateLimitingFilters env rc tc w =
     ListEnvoyFilters (en_Api env) (GetClusterID rc) NamespaceIstioSystem (rate_limit_selector (en_Params env) tc) w"

text \<open>The filter of one environment and proxy version, without resource version.\<close>

definition rate_limit_filter ::
    "NaavikArgs \<Rightarrow> TrafficConfig \<Rightarrow> string \<Rightarrow> string \<Rightarrow> labels \<Rightarrow> ConfigPatch list \<Rightarrow> EnvoyFilter" where
  "rate_limit_filter p tc workload_env version workloadLabels patches =
     \<lparr>ef_Name = EnvoyFilterName (TC_GetIdentity p tc) ''throttle'' (workload_env @ ''-'' @ version),
      ef_Namespace = NamespaceIstioSystem,
      ef_ResourceVersion = [],
      ef_Annotations = Some (gm_put TransactionIDKey (TC_GetTransactionID tc)
        (gm_put RevisionNumberKey (TC_GetRevision tc) [])),
      ef_Labels = Some (gm_put CreatedForTrafficEnvKey (TC_GetEnv tc)
        (gm_put CreatedTypeKey ''throttle_filter''
        (gm_put CreatedForEnvKey workload_env
        (gm_put CreatedByKey NaavikName
        (gm_put CreatedForKey (ToLower (TC_GetIdentity p tc)) []))))),
      ef_Priority = 0,
      ef_WorkloadSelector = workloadLabels,
      ef_ConfigPatches = patches\<rparr>"

text \<open>
  The body of the loop over versions: the resource version is that of the filter the API server
  answers, if it answers one, whatever the error.
\<close>

definition version_filter ::
    "'w environment \<Rightarrow> ('cc, 'w) system \<Rightarrow> 'cc RemoteCluster \<Rightarrow> TrafficConfig \<Rightarrow> string \<Rightarrow> labels \<Rightarrow> string
       \<Rightarrow> EnvoyFilter list \<Rightarrow> EnvoyFilter list option" where
  "version_filter env st rc tc workload_env workloadLabels version newList = do {
     patches \<leftarrow> createConfigPatches (en_Ext env) (en_Marshal env) (en_Params env) (sy_Deployments st) (sy_Rollouts st)
       workload_env version tc (GetClusterID rc);
     let envoyFilter = rate_limit_filter (en_Params env) tc workload_env version workloadLabels patches;
     Some (newList @ [case fst (GetEnvoyFilter (en_Api env) (GetClusterID rc) (ef_Name envoyFilter) NamespaceIstioSystem
         (sy_World st)) of
       None \<Rightarrow> envoyFilter
     | Some f \<Rightarrow> envoyFilter\<lparr>ef_ResourceVersion := ef_ResourceVersion f\<rparr>])
   }"

definition requestedFilters ::
    "'w environment \<Rightarrow> ('cc, 'w) system \<Rightarrow> 'cc RemoteCluster \<Rightarrow> TrafficConfig \<Rightarrow> EnvoyFilter list option" where
  "requestedFilters env st rc tc =
     foreach (\<lambda>workload_env newList.
       case getWorkLoadLabels (en_Params env) (sy_Deployments st) (sy_Rollouts st) (GetClusterID rc)
           (TC_GetIdentity (en_Params env) tc) workload_env of
         Inl err \<Rightarrow> Some newList
       | Inr workloadLabels \<Rightarrow>
           foreach (version_filter env st rc tc workload_env workloadLabels) (elems (EnvoyFilterVersions (en_Params env))) newList)
       (tc_WorkloadEnv tc) []"

text \<open>
  The listed filters are a pointer that \<open>ApplyEnvoyFilters\<close> dereferences; when the list fails without
  an object it is nil, and the call panics.
\<close>

definition createRateLimitingFilters ::
    "'w environment \<Rightarrow> 'cc RemoteCluster \<Rightarrow> TrafficConfig \<Rightarrow> ('cc, 'w) system \<Rightarrow> ('cc, 'w) system option" where
  "createRateLimitingFilters env rc tc st = do {
     newList \<leftarrow> requestedFilters env st rc tc;
     oldList \<leftarrow> fst (listRateLimitingFilters env rc tc (sy_World st));
     (err, w) \<leftarrow> ApplyEnvoyFilters (en_Api env) (GetClusterID rc) newList oldList (sy_World st);
     Some (st\<lparr>sy_World := w\<rparr>)
   }"

text \<open>One cluster of the identity.\<close>

definition rate_limit_cluster ::
    "'w environment \<Rightarrow> TrafficConfig \<Rightarrow> EventType \<Rightarrow> string \<Rightarrow> ('cc, 'w) system \<Rightarrow> ('cc, 'w) system option" where
  "rate_limit_cluster env tc eventType clusterID st = do {
     allowed \<leftarrow> cluster_scope env clusterID;
     if \<not> allowed then Some st
     else (case RC_GetCluster (reg_clusters (sy_Registry st)) clusterID of
         None \<Rightarrow> Some st
       | Some rc \<Rightarrow>
           if TC_IsDisabled tc \<or> eventType = Delete then do {
             filterList \<leftarrow> fst (listRateLimitingFilters env rc tc (sy_World st));
             let (err, w) = DeleteEnvoyFilters (en_Api env) (GetClusterID rc) filterList (sy_World st);
             Some (st\<lparr>sy_World := w\<rparr>)
           }
           else createRateLimitingFilters env rc tc st)
   }"

definition HandleRateLimiter ::
    "'w environment \<Rightarrow> TrafficConfig \<Rightarrow> EventType \<Rightarrow> ('cc, 'w) system \<Rightarrow> ('cc, 'w) system option" where
  "HandleRateLimiter env tc eventType st =
     (let clusters = GetClustersForIdentity (sy_IdentityCluster st) (TC_GetIdentity (en_Params env) tc) in
      if length clusters = 0 then Some st
      else foreach (rate_limit_cluster env tc eventType) clusters st)"

subsection \<open>What the API server promises about reading envoy filters\<close>

text \<open>
  A stored filter is read back and is stored under its own name and namespace; reading a missing one
  answers nothing or an empty object; a list answers the stored filters of the namespace that carry
  the labels of the selector.
\<close>

definition ef_read_laws :: "'w istio_api \<Rightarrow> ('w \<Rightarrow> object_key \<Rightarrow> EnvoyFilter option) \<Rightarrow> bool" where
  "ef_read_laws api efs \<longleftrightarrow>
     (\<forall>c ns n w. case efs w (c, ns, n) of
        None \<Rightarrow> (case fst (api_GetEF api c ns n w) of None \<Rightarrow> True | Some f \<Rightarrow> ef_ResourceVersion f = [])
      | Some f \<Rightarrow> fst (api_GetEF api c ns n w) = Some f)
     \<and> (\<forall>c ns sel w. \<exists>fs. fst (api_ListEF api c ns sel w) = Some fs
          \<and> set fs = {f. efs w (c, ns, ef_Name f) = Some f \<and> has_labels sel (ef_Labels f)})
     \<and> (\<forall>c ns n w f. efs w (c, ns, n) = Some f \<longrightarrow> ef_Name f = n \<and> ef_Namespace f = ns)"

lemma read_get:
  "ef_read_laws api efs \<Longrightarrow> case efs w (c, ns, n) of
        None \<Rightarrow> (case fst (api_GetEF api c ns n w) of None \<Rightarrow> True | Some f \<Rightarrow> ef_ResourceVersion f = [])
      | Some f \<Rightarrow> fst (api_GetEF api c ns n w) = Some f"
  unfolding ef_read_laws_def by (elim conjE allE)

lemma read_list:
  assumes "ef_read_laws api efs"
  obtains fs where "fst (api_ListEF api c ns sel w) = Some fs"
    "set fs = {f. efs w (c, ns, ef_Name f) = Some f \<and> has_labels sel (ef_Labels f)}"
  using assms unfolding ef_read_laws_def by meson

lemma read_own:
  "ef_read_laws api efs \<Longrightarrow> efs w (c, ns, n) = Some f \<Longrightarrow> ef_Name f = n \<and> ef_Namespace f = ns"
  unfolding ef_read_laws_def by (elim conjE) (erule (1) allE impE | blast)+

subsection \<open>The requested filters\<close>

text \<open>The filters wanted in a cluster, without resource versions, in the order of the loops.\<close>

definition wanted_filters ::
    "'w environment \<Rightarrow> ('cc, 'w) system \<Rightarrow> TrafficConfig \<Rightarrow> string \<Rightarrow> EnvoyFilter list" where
  "wanted_filters env st tc c =
     concat (map (\<lambda>workload_env.
       case getWorkLoadLabels (en_Params env) (sy_Deployments st) (sy_Rollouts st) c (TC_GetIdentity (en_Params env) tc) workload_env of
         Inl err \<Rightarrow> []
       | Inr ls \<Rightarrow> map (\<lambda>version. rate_limit_filter (en_Params env) tc workload_env version ls
           (the (createConfigPatches (en_Ext env) (en_Marshal env) (en_Params env) (sy_Deployments st) (sy_Rollouts st)
             workload_env version tc c))) (elems (EnvoyFilterVersions (en_Params env))))
       (tc_WorkloadEnv tc))"

definition with_version :: "'w environment \<Rightarrow> string \<Rightarrow> 'w \<Rightarrow> EnvoyFilter \<Rightarrow> EnvoyFilter" where
  "with_version env c w f =
     (case fst (GetEnvoyFilter (en_Api env) c (ef_Name f) NamespaceIstioSystem w) of
        None \<Rightarrow> f | Some g \<Rightarrow> f\<lparr>ef_ResourceVersion := ef_ResourceVersion g\<rparr>)"

lemma foreach_append_all:
  assumes "\<And>x acc. x \<in> set xs \<Longrightarrow> f x acc = Some (acc @ g x)"
  shows "foreach f xs acc = Some (acc @ concat (map g xs))"
  using assms by (induction xs arbitrary: acc) auto

lemma patches_total:
  assumes "tc_QuotaGroup tc = Some qg" "en_Marshal env = (\<lambda>m. Some (marshal m))"
  obtains ps where "createConfigPatches (en_Ext env) (en_Marshal env) p ds rs e v tc c = Some ps"
  using createConfigPatches_total [OF assms(1)] assms(2) that by fastforce

lemma requested_wanted:
  assumes "tc_QuotaGroup tc = Some qg" "en_Marshal env = (\<lambda>m. Some (marshal m))"
  shows "requestedFilters env st rc tc =
    Some (map (with_version env (GetClusterID rc) (sy_World st)) (wanted_filters env st tc (GetClusterID rc)))"
proof -
  let ?c = "GetClusterID rc" and ?p = "en_Params env"
  let ?patches = "\<lambda>e v. createConfigPatches (en_Ext env) (en_Marshal env) ?p (sy_Deployments st) (sy_Rollouts st) e v tc ?c"
  let ?filter = "\<lambda>e v ls. with_version env ?c (sy_World st) (rate_limit_filter ?p tc e v ls (the (?patches e v)))"
  have version: "version_filter env st rc tc e ls v acc = Some (acc @ [?filter e v ls])" for e ls v acc
  proof -
    obtain ps where "?patches e v = Some ps" by (rule patches_total [OF assms])
    then show ?thesis
      by (simp add: version_filter_def with_version_def Let_def rate_limit_filter_def split: option.split)
  qed
  have "foreach (version_filter env st rc tc e ls) vs acc = Some (acc @ map (\<lambda>v. ?filter e v ls) vs)" for e ls vs acc
    using foreach_append_all [of vs "version_filter env st rc tc e ls" "\<lambda>v. [?filter e v ls]" acc] version
    by (simp add: concat_map_singleton)
  then have "requestedFilters env st rc tc = Some (concat (map (\<lambda>e.
       case getWorkLoadLabels ?p (sy_Deployments st) (sy_Rollouts st) ?c (TC_GetIdentity ?p tc) e of
         Inl err \<Rightarrow> [] | Inr ls \<Rightarrow> map (\<lambda>v. ?filter e v ls) (elems (EnvoyFilterVersions ?p))) (tc_WorkloadEnv tc)))"
    unfolding requestedFilters_def
    by (subst foreach_append_all [where g = "\<lambda>e.
       case getWorkLoadLabels ?p (sy_Deployments st) (sy_Rollouts st) ?c (TC_GetIdentity ?p tc) e of
         Inl err \<Rightarrow> [] | Inr ls \<Rightarrow> map (\<lambda>v. ?filter e v ls) (elems (EnvoyFilterVersions ?p))"])
      (simp_all split: sum.split)
  also have "\<dots> = Some (map (with_version env ?c (sy_World st)) (wanted_filters env st tc ?c))"
    unfolding wanted_filters_def map_concat
    by (simp add: comp_def, rule arg_cong [where f = concat], rule map_cong [OF refl]) (simp split: sum.split)
  finally show ?thesis .
qed

subsection \<open>One cluster\<close>

text \<open>The stored filters that carry the labels of a traffic config.\<close>

definition managed_filter :: "NaavikArgs \<Rightarrow> TrafficConfig \<Rightarrow> string \<Rightarrow> (object_key \<Rightarrow> EnvoyFilter option) \<Rightarrow> object_key \<Rightarrow> bool" where
  "managed_filter p tc c efs k \<longleftrightarrow> fst k = c \<and> fst (snd k) = NamespaceIstioSystem
     \<and> (case efs k of None \<Rightarrow> False | Some f \<Rightarrow> has_labels (rate_limit_selector p tc) (ef_Labels f))"

lemma managed_stored: "managed_filter p tc c efs k \<Longrightarrow> efs k \<noteq> None"
  by (auto simp: managed_filter_def split: option.splits)

lemma wanted_props:
  "f \<in> set (wanted_filters env st tc c) \<Longrightarrow> ef_Namespace f = NamespaceIstioSystem \<and> ToLower (ef_Name f) = ef_Name f
     \<and> ef_Annotations f \<noteq> None \<and> ef_ResourceVersion f = []"
  by (auto simp: wanted_filters_def rate_limit_filter_def split: sum.splits)

lemma with_version_props:
  "ef_Namespace (with_version env c w f) = ef_Namespace f" "ef_Name (with_version env c w f) = ef_Name f"
  "ef_Annotations (with_version env c w f) = ef_Annotations f" "ef_key c' (with_version env c w f) = ef_key c' f"
  "applied_as (with_version env c w f) g = applied_as f g"
  by (simp_all add: with_version_def applied_as_def ef_key_def split: option.split)

lemma list_managed:
  assumes "ef_read_laws (en_Api env) efs" "GetClusterID rc = c"
  obtains fs where "fst (listRateLimitingFilters env rc tc w) = Some fs"
    "\<forall>k. k \<in> ef_key c ` set fs \<longleftrightarrow> managed_filter (en_Params env) tc c (efs w) k"
    "\<forall>f \<in> set fs. ef_Namespace f = NamespaceIstioSystem \<and> efs w (c, NamespaceIstioSystem, ef_Name f) = Some f"
proof -
  let ?sel = "rate_limit_selector (en_Params env) tc"
  obtain fs where fs: "fst (api_ListEF (en_Api env) c NamespaceIstioSystem ?sel w) = Some fs"
    "set fs = {f. efs w (c, NamespaceIstioSystem, ef_Name f) = Some f \<and> has_labels ?sel (ef_Labels f)}"
    by (rule read_list [OF assms(1)])
  have own: "ef_Name f = n \<and> ef_Namespace f = NamespaceIstioSystem" if "efs w (c, NamespaceIstioSystem, n) = Some f" for f n
    by (rule read_own [OF assms(1) that])
  show ?thesis
  proof (rule that)
    show "fst (listRateLimitingFilters env rc tc w) = Some fs"
      using fs(1) by (simp add: listRateLimitingFilters_def ListEnvoyFilters_def assms(2))
    have "k \<in> ef_key c ` set fs \<longleftrightarrow> managed_filter (en_Params env) tc c (efs w) k" for k
    proof
      assume "k \<in> ef_key c ` set fs"
      then obtain f where f: "f \<in> set fs" "k = ef_key c f" by blast
      then have "efs w (c, NamespaceIstioSystem, ef_Name f) = Some f" "has_labels ?sel (ef_Labels f)" using fs(2) by auto
      with own [OF this(1)] f(2) show "managed_filter (en_Params env) tc c (efs w) k"
        by (simp add: managed_filter_def ef_key_def)
    next
      assume k: "managed_filter (en_Params env) tc c (efs w) k"
      obtain a ns n where kk: "k = (a, ns, n)" by (cases k)
      with k obtain f where f: "a = c" "ns = NamespaceIstioSystem" "efs w k = Some f" "has_labels ?sel (ef_Labels f)"
        by (auto simp: managed_filter_def split: option.splits)
      with own kk have "ef_Name f = n" "ef_Namespace f = NamespaceIstioSystem" by auto
      with f kk have "f \<in> set fs" "k = ef_key c f" using fs(2) by (auto simp: ef_key_def)
      then show "k \<in> ef_key c ` set fs" by blast
    qed
    then show "\<forall>k. k \<in> ef_key c ` set fs \<longleftrightarrow> managed_filter (en_Params env) tc c (efs w) k" by blast
    show "\<forall>f \<in> set fs. ef_Namespace f = NamespaceIstioSystem \<and> efs w (c, NamespaceIstioSystem, ef_Name f) = Some f"
      using fs(2) own by auto
  qed
qed

lemma wanted_world [simp]: "wanted_filters env (st\<lparr>sy_World := w\<rparr>) tc c = wanted_filters env st tc c"
  by (simp add: wanted_filters_def cong: sum.case_cong)

text \<open>What handling an addition or update leaves under one key of the cluster, and handling a deletion.\<close>

definition filter_applied ::
    "'w environment \<Rightarrow> ('cc, 'w) system \<Rightarrow> TrafficConfig \<Rightarrow> (object_key \<Rightarrow> EnvoyFilter option) \<Rightarrow> object_key
       \<Rightarrow> EnvoyFilter option \<Rightarrow> bool" where
  "filter_applied env st tc efs k after \<longleftrightarrow>
     (if k \<in> ef_key (fst k) ` set (wanted_filters env st tc (fst k))
      then \<exists>f g. f \<in> set (wanted_filters env st tc (fst k)) \<and> ef_key (fst k) f = k \<and> after = Some g \<and> applied_as f g
      else after = (if managed_filter (en_Params env) tc (fst k) efs k then None else efs k))"

definition filter_deleted ::
    "'w environment \<Rightarrow> TrafficConfig \<Rightarrow> (object_key \<Rightarrow> EnvoyFilter option) \<Rightarrow> object_key \<Rightarrow> EnvoyFilter option \<Rightarrow> bool" where
  "filter_deleted env tc efs k after \<longleftrightarrow>
     after = (if managed_filter (en_Params env) tc (fst k) efs k then None else efs k)"

text \<open>A cluster whose filters may be applied: names in lower case, and wanted names free or its own.\<close>

definition filters_ready :: "'w environment \<Rightarrow> ('cc, 'w) system \<Rightarrow> TrafficConfig \<Rightarrow> (object_key \<Rightarrow> EnvoyFilter option) \<Rightarrow> string \<Rightarrow> bool" where
  "filters_ready env st tc efs c \<longleftrightarrow> distinct (map ef_Name (wanted_filters env st tc c))
     \<and> (\<forall>n f. efs (c, NamespaceIstioSystem, n) = Some f \<longrightarrow> ToLower n = n)
     \<and> (\<forall>f \<in> set (wanted_filters env st tc c). efs (ef_key c f) \<noteq> None \<longrightarrow> managed_filter (en_Params env) tc c efs (ef_key c f))"

lemma version_of_stored:
  assumes "ef_read_laws (en_Api env) efs" "ef_Namespace f = NamespaceIstioSystem" "ef_ResourceVersion f = []"
  shows "case efs w (ef_key c f) of None \<Rightarrow> ef_ResourceVersion (with_version env c w f) = []
    | Some g \<Rightarrow> ef_ResourceVersion (with_version env c w f) = ef_ResourceVersion g"
  using read_get [OF assms(1), where w = w and c = c and ns = NamespaceIstioSystem and n = "ef_Name f"] assms(2,3)
  by (auto simp: with_version_def GetEnvoyFilter_def ef_key_def split: option.splits)

lemma create_filters_cluster:
  assumes laws: "ef_laws (en_Api env) efs" and reads: "ef_read_laws (en_Api env) efs"
    and tc: "tc_QuotaGroup tc = Some qg" "en_Marshal env = (\<lambda>m. Some (marshal m))"
    and id: "GetClusterID rc = c" and ready: "filters_ready env st tc (efs w) c"
  shows "\<exists>w'. createRateLimitingFilters env rc tc (st\<lparr>sy_World := w\<rparr>) = Some (st\<lparr>sy_World := w'\<rparr>)
    \<and> (\<forall>k. fst k = c \<longrightarrow> filter_applied env st tc (efs w) k (efs w' k)) \<and> (\<forall>k. fst k \<noteq> c \<longrightarrow> efs w' k = efs w k)"
proof -
  let ?wanted = "wanted_filters env st tc c"
  let ?req = "map (with_version env c w) ?wanted"
  obtain fs where fs: "fst (listRateLimitingFilters env rc tc w) = Some fs"
    "\<forall>k. k \<in> ef_key c ` set fs \<longleftrightarrow> managed_filter (en_Params env) tc c (efs w) k"
    "\<forall>f \<in> set fs. ef_Namespace f = NamespaceIstioSystem \<and> efs w (c, NamespaceIstioSystem, ef_Name f) = Some f"
    by (rule list_managed [OF reads id, where w = w and tc = tc])
  have req: "requestedFilters env (st\<lparr>sy_World := w\<rparr>) rc tc = Some ?req"
    using requested_wanted [OF tc, of "st\<lparr>sy_World := w\<rparr>" rc] id by simp
  have keys: "ef_key c f \<in> ef_key c ` set fs \<longleftrightarrow> ef_Name f \<in> ef_Name ` set fs" if "ef_Namespace f = NamespaceIstioSystem" for f
    using fs(3) that by (force simp: ef_key_def image_iff)
  have version: "if ef_Name f \<in> ef_Name ` set fs then map_option ef_ResourceVersion (efs w (ef_key c f)) = Some (ef_ResourceVersion f)
      else efs w (ef_key c f) = None \<and> ef_ResourceVersion f = []" if "f \<in> set ?req" for f
  proof -
    from that have "f \<in> with_version env c w ` set ?wanted" unfolding set_map .
    then obtain h where h: "h \<in> set ?wanted" "f = with_version env c w h" by (elim imageE)
    note ph = wanted_props [OF h(1)]
    have "efs w (ef_key c h) \<noteq> None \<longleftrightarrow> managed_filter (en_Params env) tc c (efs w) (ef_key c h)"
      using ready h(1) managed_stored unfolding filters_ready_def by blast
    also have "\<dots> \<longleftrightarrow> ef_Name h \<in> ef_Name ` set fs" using fs(2) keys [of h] ph by metis
    finally have "efs w (ef_key c h) \<noteq> None \<longleftrightarrow> ef_Name h \<in> ef_Name ` set fs" .
    with version_of_stored [OF reads, where f = h and w = w and c = c] ph h(2) show ?thesis
      by (auto simp: with_version_props split: option.splits)
  qed
  have "\<exists>w'. ApplyEnvoyFilters (en_Api env) c ?req fs w = Some (None, w')
    \<and> (\<forall>f \<in> set ?req. \<exists>g. efs w' (ef_key c f) = Some g \<and> applied_as f g)
    \<and> (\<forall>k. k \<notin> ef_key c ` set ?req \<longrightarrow> efs w' k = (if k \<in> ef_key c ` set fs then None else efs w k))"
  proof (rule apply_converges [OF laws, where ns = NamespaceIstioSystem])
    show "distinct (map ef_Name ?req)" using ready by (simp add: filters_ready_def with_version_props comp_def)
    show "\<forall>f \<in> set ?req \<union> set fs. ef_Namespace f = NamespaceIstioSystem \<and> ToLower (ef_Name f) = ef_Name f"
      using wanted_props fs(3) ready by (fastforce simp: with_version_props filters_ready_def)
    show "\<forall>f \<in> set ?req. ef_Annotations f \<noteq> None" using wanted_props by (fastforce simp: with_version_props)
    show "\<forall>f \<in> set ?req. if ef_Name f \<in> ef_Name ` set fs
      then map_option ef_ResourceVersion (efs w (ef_key c f)) = Some (ef_ResourceVersion f)
      else efs w (ef_key c f) = None \<and> ef_ResourceVersion f = []" using version by blast
  qed
  then obtain w' where run: "ApplyEnvoyFilters (en_Api env) c ?req fs w = Some (None, w')"
    "\<forall>f \<in> set ?wanted. \<exists>g. efs w' (ef_key c f) = Some g \<and> applied_as f g"
    "\<forall>k. k \<notin> ef_key c ` set ?wanted \<longrightarrow> efs w' k = (if k \<in> ef_key c ` set fs then None else efs w k)"
    by (auto simp: with_version_props image_image)
  have "createRateLimitingFilters env rc tc (st\<lparr>sy_World := w\<rparr>) = Some (st\<lparr>sy_World := w'\<rparr>)"
    using req fs(1) run(1) id by (simp add: createRateLimitingFilters_def)
  moreover have "filter_applied env st tc (efs w) k (efs w' k)" if c: "fst k = c" for k
  proof (cases "k \<in> ef_key c ` set ?wanted")
    case True
    then obtain f where "f \<in> set ?wanted" "k = ef_key c f" by blast
    with run(2) True show ?thesis unfolding filter_applied_def c by auto
  next
    case False
    then have "efs w' k = (if k \<in> ef_key c ` set fs then None else efs w k)" by (rule run(3) [rule_format])
    also have "k \<in> ef_key c ` set fs \<longleftrightarrow> managed_filter (en_Params env) tc c (efs w) k" using fs(2) by blast
    finally show ?thesis using False unfolding filter_applied_def c by simp
  qed
  moreover have "efs w' k = efs w k" if "fst k \<noteq> c" for k
  proof -
    have "k \<notin> ef_key c ` set ?wanted" "k \<notin> ef_key c ` set fs" using that by (auto simp: ef_key_def)
    with run(3) show ?thesis by simp
  qed
  ultimately show ?thesis by blast
qed

subsection \<open>All clusters\<close>

text \<open>
  A loop over distinct clusters whose body settles the keys of its cluster, given that these are still
  as they were, and leaves the others: after it every visited cluster is settled.
\<close>

lemma cluster_loop:
  fixes efs :: "'w \<Rightarrow> object_key \<Rightarrow> 'e option" and cs :: "string list" and st :: "('cc, 'w) system"
  assumes "\<And>c w. c \<in> set cs \<Longrightarrow> (\<forall>k. fst k = c \<longrightarrow> efs w k = efs w0 k) \<Longrightarrow>
      \<exists>w'. body c (st\<lparr>sy_World := w\<rparr>) = Some (st\<lparr>sy_World := w'\<rparr>)
        \<and> (\<forall>k. fst k = c \<longrightarrow> Q k (efs w' k)) \<and> (\<forall>k. fst k \<noteq> c \<longrightarrow> efs w' k = efs w k)"
    and "distinct cs" "\<forall>k. fst k \<in> set cs \<longrightarrow> efs w k = efs w0 k"
  shows "\<exists>w'. foreach body cs (st\<lparr>sy_World := w\<rparr>) = Some (st\<lparr>sy_World := w'\<rparr>)
    \<and> (\<forall>k. fst k \<in> set cs \<longrightarrow> Q k (efs w' k)) \<and> (\<forall>k. fst k \<notin> set cs \<longrightarrow> efs w' k = efs w k)"
  using assms
proof (induction cs arbitrary: w)
  case Nil
  show ?case by (rule exI [of _ w]) simp
next
  case (Cons c cs)
  obtain w1 where one: "body c (st\<lparr>sy_World := w\<rparr>) = Some (st\<lparr>sy_World := w1\<rparr>)"
    "\<forall>k. fst k = c \<longrightarrow> Q k (efs w1 k)" "\<forall>k. fst k \<noteq> c \<longrightarrow> efs w1 k = efs w k"
  proof -
    have "\<forall>k. fst k = c \<longrightarrow> efs w k = efs w0 k" using Cons.prems(3) by simp
    from Cons.prems(1) [OF _ this] show ?thesis using that by (meson list.set_intros(1))
  qed
  have agree: "\<forall>k. fst k \<in> set cs \<longrightarrow> efs w1 k = efs w0 k"
  proof (intro allI impI)
    fix k :: object_key
    assume "fst k \<in> set cs"
    then have "fst k \<noteq> c" "efs w k = efs w0 k" using Cons.prems(2,3) by auto
    then show "efs w1 k = efs w0 k" using one(3) by simp
  qed
  have "\<exists>w'. foreach body cs (st\<lparr>sy_World := w1\<rparr>) = Some (st\<lparr>sy_World := w'\<rparr>)
    \<and> (\<forall>k. fst k \<in> set cs \<longrightarrow> Q k (efs w' k)) \<and> (\<forall>k. fst k \<notin> set cs \<longrightarrow> efs w' k = efs w1 k)"
    by (rule Cons.IH [OF Cons.prems(1) _ agree]) (use Cons.prems(2) in auto)
  then obtain w' where rest: "foreach body cs (st\<lparr>sy_World := w1\<rparr>) = Some (st\<lparr>sy_World := w'\<rparr>)"
    "\<forall>k. fst k \<in> set cs \<longrightarrow> Q k (efs w' k)" "\<forall>k. fst k \<notin> set cs \<longrightarrow> efs w' k = efs w1 k" by blast
  have "Q k (efs w' k)" if "fst k \<in> set (c # cs)" for k
  proof (cases "fst k \<in> set cs")
    case False
    with that have "fst k = c" by simp
    with False one(2) rest(3) show ?thesis by simp
  qed (use rest(2) in blast)
  moreover have "efs w' k = efs w k" if "fst k \<notin> set (c # cs)" for k
    using that one(3) rest(3) by simp
  moreover have "foreach body (c # cs) (st\<lparr>sy_World := w\<rparr>) = Some (st\<lparr>sy_World := w'\<rparr>)" using one(1) rest(1) by simp
  ultimately show ?case by blast
qed

lemma delete_filters_cluster:
  assumes laws: "ef_laws (en_Api env) efs" and reads: "ef_read_laws (en_Api env) efs" and id: "GetClusterID rc = c"
  shows "\<exists>fs w'. fst (listRateLimitingFilters env rc tc w) = Some fs
    \<and> DeleteEnvoyFilters (en_Api env) c fs w = (None, w')
    \<and> (\<forall>k. fst k = c \<longrightarrow> filter_deleted env tc (efs w) k (efs w' k)) \<and> (\<forall>k. fst k \<noteq> c \<longrightarrow> efs w' k = efs w k)"
proof -
  obtain fs where fs: "fst (listRateLimitingFilters env rc tc w) = Some fs"
    "\<forall>k. k \<in> ef_key c ` set fs \<longleftrightarrow> managed_filter (en_Params env) tc c (efs w) k"
    "\<forall>f \<in> set fs. ef_Namespace f = NamespaceIstioSystem \<and> efs w (c, NamespaceIstioSystem, ef_Name f) = Some f"
    by (rule list_managed [OF reads id, where w = w and tc = tc])
  obtain w' where w': "DeleteEnvoyFilters (en_Api env) c fs w = (None, w')"
    "efs w' = (\<lambda>k. if k \<in> ef_key c ` set fs then None else efs w k)"
    by (rule delete_loop [OF laws])
  have after: "efs w' k = (if managed_filter (en_Params env) tc c (efs w) k then None else efs w k)" for k
    unfolding w'(2) using fs(2) by simp
  then have "\<forall>k. fst k = c \<longrightarrow> filter_deleted env tc (efs w) k (efs w' k)" unfolding filter_deleted_def by auto
  moreover have "\<forall>k. fst k \<noteq> c \<longrightarrow> efs w' k = efs w k" using after by (simp add: managed_filter_def)
  ultimately show ?thesis using fs(1) w'(1) by blast
qed

lemma targets_of_identity:
  assumes "system_ok p st"
  shows "distinct (GetClustersForIdentity (sy_IdentityCluster st) i)"
    "c \<in> set (GetClustersForIdentity (sy_IdentityCluster st) i) \<Longrightarrow> ToLower c = c"
  using assms id_cluster.items_distinct id_cluster.items_lower by (auto simp: system_ok_def)

subsection \<open>Properties\<close>

definition rate_limit_targets :: "'w environment \<Rightarrow> ('cc, 'w) system \<Rightarrow> TrafficConfig \<Rightarrow> string set" where
  "rate_limit_targets env st tc =
     {c \<in> set (GetClustersForIdentity (sy_IdentityCluster st) (TC_GetIdentity (en_Params env) tc)). reachable_cluster env (sy_Registry st) c}"

text \<open>One visited cluster, whether it is reachable or not.\<close>

lemma rate_limit_cluster_step:
  assumes "reg_ok (sy_Registry st)" "ToLower c = c" "cluster_scope env c \<noteq> None"
    and work: "\<And>rc. RC_GetCluster (reg_clusters (sy_Registry st)) c = Some rc \<Longrightarrow> GetClusterID rc = c \<Longrightarrow>
      reachable_cluster env (sy_Registry st) c \<Longrightarrow>
      \<exists>w'. (if TC_IsDisabled tc \<or> eventType = Delete then do {
             filterList \<leftarrow> fst (listRateLimitingFilters env rc tc w);
             let (err, w') = DeleteEnvoyFilters (en_Api env) (GetClusterID rc) filterList w;
             Some (st\<lparr>sy_World := w'\<rparr>)
           } else createRateLimitingFilters env rc tc (st\<lparr>sy_World := w\<rparr>)) = Some (st\<lparr>sy_World := w'\<rparr>)
        \<and> (\<forall>k. fst k = c \<longrightarrow> P k (efs w' k)) \<and> (\<forall>k. fst k \<noteq> c \<longrightarrow> efs w' k = efs w k)"
  shows "\<exists>w'. rate_limit_cluster env tc eventType c (st\<lparr>sy_World := w\<rparr>) = Some (st\<lparr>sy_World := w'\<rparr>)
    \<and> (\<forall>k. fst k = c \<longrightarrow> (if reachable_cluster env (sy_Registry st) c then P k (efs w' k) else efs w' k = efs w k))
    \<and> (\<forall>k. fst k \<noteq> c \<longrightarrow> efs w' k = efs w k)"
proof -
  obtain b where b: "cluster_scope env c = Some b" using assms(3) by auto
  show ?thesis
  proof (cases "reachable_cluster env (sy_Registry st) c")
    case False
    then have "rate_limit_cluster env tc eventType c (st\<lparr>sy_World := w\<rparr>) = Some (st\<lparr>sy_World := w\<rparr>)"
      using b by (auto simp: rate_limit_cluster_def reachable_cluster_def)
    with False show ?thesis by (intro exI [of _ w]) simp
  next
    case True
    then obtain rc where rc: "RC_GetCluster (reg_clusters (sy_Registry st)) c = Some rc" "cluster_scope env c = Some True"
      by (auto simp: reachable_cluster_def)
    have "GetClusterID rc = c" using RC_Get_id [OF assms(1) rc(1)] assms(2) by simp
    moreover have "rate_limit_cluster env tc eventType c (st\<lparr>sy_World := w\<rparr>) = (if TC_IsDisabled tc \<or> eventType = Delete then do {
             filterList \<leftarrow> fst (listRateLimitingFilters env rc tc w);
             let (err, w') = DeleteEnvoyFilters (en_Api env) (GetClusterID rc) filterList w;
             Some (st\<lparr>sy_World := w'\<rparr>)
           } else createRateLimitingFilters env rc tc (st\<lparr>sy_World := w\<rparr>))"
      using rc by (simp add: rate_limit_cluster_def)
    ultimately show ?thesis using work [OF rc(1) _ True] True by simp
  qed
qed

text \<open>The loop over the clusters, for whatever a visit settles.\<close>

lemma rate_limit_loop:
  fixes st :: "('cc, 'w) system" and efs :: "'w \<Rightarrow> object_key \<Rightarrow> EnvoyFilter option"
  assumes ok: "system_ok p st" and scope: "\<forall>c. cluster_scope env c \<noteq> None"
    and work: "\<And>(rc :: 'cc RemoteCluster) c w. c \<in> rate_limit_targets env st tc \<Longrightarrow> GetClusterID rc = c \<Longrightarrow> \<forall>k. fst k = c \<longrightarrow> efs w k = efs (sy_World st) k \<Longrightarrow>
      \<exists>w'. (if TC_IsDisabled tc \<or> eventType = Delete then do {
             filterList \<leftarrow> fst (listRateLimitingFilters env rc tc w);
             let (err, w') = DeleteEnvoyFilters (en_Api env) (GetClusterID rc) filterList w;
             Some (st\<lparr>sy_World := w'\<rparr>)
           } else createRateLimitingFilters env rc tc (st\<lparr>sy_World := w\<rparr>)) = Some (st\<lparr>sy_World := w'\<rparr>)
        \<and> (\<forall>k. fst k = c \<longrightarrow> P k (efs w' k)) \<and> (\<forall>k. fst k \<noteq> c \<longrightarrow> efs w' k = efs w k)"
  shows "\<exists>st'. HandleRateLimiter env tc eventType st = Some st' \<and> st' = st\<lparr>sy_World := sy_World st'\<rparr>
    \<and> (\<forall>k. if fst k \<in> rate_limit_targets env st tc then P k (efs (sy_World st') k)
           else efs (sy_World st') k = efs (sy_World st) k)"
proof -
  let ?w = "sy_World st" and ?reach = "reachable_cluster env (sy_Registry st)"
  define cs where "cs = GetClustersForIdentity (sy_IdentityCluster st) (TC_GetIdentity (en_Params env) tc)"
  define Q where "Q = (\<lambda>k x. if ?reach (fst k) then P k x else x = efs ?w k)"
  have reg: "reg_ok (sy_Registry st)" using ok by (simp add: system_ok_def)
  have step: "\<exists>w'. rate_limit_cluster env tc eventType c (st\<lparr>sy_World := w\<rparr>) = Some (st\<lparr>sy_World := w'\<rparr>)
    \<and> (\<forall>k. fst k = c \<longrightarrow> Q k (efs w' k)) \<and> (\<forall>k. fst k \<noteq> c \<longrightarrow> efs w' k = efs w k)"
    if c: "c \<in> set cs" and same: "\<forall>k. fst k = c \<longrightarrow> efs w k = efs ?w k" for c w
  proof -
    have "ToLower c = c" using targets_of_identity(2) [OF ok] c unfolding cs_def by blast
    then obtain w' where w': "rate_limit_cluster env tc eventType c (st\<lparr>sy_World := w\<rparr>) = Some (st\<lparr>sy_World := w'\<rparr>)"
      "\<forall>k. fst k = c \<longrightarrow> (if ?reach c then P k (efs w' k) else efs w' k = efs w k)"
      "\<forall>k. fst k \<noteq> c \<longrightarrow> efs w' k = efs w k"
      using rate_limit_cluster_step [OF reg _ scope [rule_format] work, of c w] same c
      unfolding rate_limit_targets_def cs_def by blast
    have "Q k (efs w' k)" if k: "fst k = c" for k
      using w'(2) [rule_format, OF k] unfolding Q_def same [rule_format, OF k] k .
    with w'(1,3) show ?thesis by blast
  qed
  have "\<exists>w'. foreach (rate_limit_cluster env tc eventType) cs (st\<lparr>sy_World := ?w\<rparr>) = Some (st\<lparr>sy_World := w'\<rparr>)
    \<and> (\<forall>k. fst k \<in> set cs \<longrightarrow> Q k (efs w' k)) \<and> (\<forall>k. fst k \<notin> set cs \<longrightarrow> efs w' k = efs ?w k)"
  proof (rule cluster_loop [where ?w0.0 = ?w])
    show "distinct cs" unfolding cs_def by (rule targets_of_identity(1) [OF ok])
  qed (rule step | simp)+
  then obtain w' where run: "foreach (rate_limit_cluster env tc eventType) cs (st\<lparr>sy_World := ?w\<rparr>) = Some (st\<lparr>sy_World := w'\<rparr>)"
    "\<forall>k. fst k \<in> set cs \<longrightarrow> Q k (efs w' k)" "\<forall>k. fst k \<notin> set cs \<longrightarrow> efs w' k = efs ?w k" by blast
  have "HandleRateLimiter env tc eventType st = Some (st\<lparr>sy_World := w'\<rparr>)"
    using run(1) by (auto simp: HandleRateLimiter_def Let_def cs_def)
  moreover have "if fst k \<in> rate_limit_targets env st tc then P k (efs w' k) else efs w' k = efs ?w k" for k
    using run(2,3) unfolding rate_limit_targets_def Q_def cs_def [symmetric] by (cases "fst k \<in> set cs") simp_all
  ultimately show ?thesis by (intro exI [of _ "st\<lparr>sy_World := w'\<rparr>"] conjI allI) simp_all
qed

text \<open>The whole handler, for additions and updates, and for deletions.\<close>

lemma apply_rate_limit_filters:
  fixes st :: "('cc, 'w) system"
  assumes laws: "ef_laws (en_Api env) efs" and reads: "ef_read_laws (en_Api env) efs"
    and ok: "system_ok (en_Params env) st" and scope: "\<forall>c. cluster_scope env c \<noteq> None"
    and tc: "tc_QuotaGroup tc = Some qg" "\<not> TC_IsDisabled tc" "eventType \<noteq> Delete"
    and marshal: "en_Marshal env = (\<lambda>m. Some (marshal m))"
    and ready: "\<forall>c \<in> rate_limit_targets env st tc. filters_ready env st tc (efs (sy_World st)) c"
  shows "\<exists>st'. HandleRateLimiter env tc eventType st = Some st' \<and> st' = st\<lparr>sy_World := sy_World st'\<rparr>
    \<and> (\<forall>k. if fst k \<in> rate_limit_targets env st tc
           then filter_applied env st tc (efs (sy_World st)) k (efs (sy_World st') k)
           else efs (sy_World st') k = efs (sy_World st) k)"
proof (rule rate_limit_loop [OF ok scope])
  fix rc :: "'cc RemoteCluster" and c w
  let ?w = "sy_World st"
  assume c: "c \<in> rate_limit_targets env st tc" and id: "GetClusterID rc = c" and same: "\<forall>k. fst k = c \<longrightarrow> efs w k = efs ?w k"
  have ready': "filters_ready env st tc (efs w) c"
  proof -
    have "efs w (c, n) = efs ?w (c, n)" "efs w (ef_key c f) = efs ?w (ef_key c f)" for n f
      using same by (simp_all add: ef_key_def)
    with ready [rule_format, OF c] show ?thesis by (simp add: filters_ready_def managed_filter_def)
  qed
  obtain w' where w': "createRateLimitingFilters env rc tc (st\<lparr>sy_World := w\<rparr>) = Some (st\<lparr>sy_World := w'\<rparr>)"
    "\<forall>k. fst k = c \<longrightarrow> filter_applied env st tc (efs w) k (efs w' k)" "\<forall>k. fst k \<noteq> c \<longrightarrow> efs w' k = efs w k"
    using create_filters_cluster [OF laws reads tc(1) marshal id ready'] by blast
  have "filter_applied env st tc (efs ?w) k (efs w' k)" if k: "fst k = c" for k
    using w'(2) [rule_format, OF k] unfolding filter_applied_def managed_filter_def same [rule_format, OF k] .
  with w'(1,3) show "\<exists>w'. (if TC_IsDisabled tc \<or> eventType = Delete then do {
             filterList \<leftarrow> fst (listRateLimitingFilters env rc tc w);
             let (err, w') = DeleteEnvoyFilters (en_Api env) (GetClusterID rc) filterList w;
             Some (st\<lparr>sy_World := w'\<rparr>)
           } else createRateLimitingFilters env rc tc (st\<lparr>sy_World := w\<rparr>)) = Some (st\<lparr>sy_World := w'\<rparr>)
        \<and> (\<forall>k. fst k = c \<longrightarrow> filter_applied env st tc (efs ?w) k (efs w' k)) \<and> (\<forall>k. fst k \<noteq> c \<longrightarrow> efs w' k = efs w k)"
    using tc(2,3) by (intro exI [of _ w']) simp
qed

text \<open>
  Handling the addition or update of a traffic config that is not disabled brings the envoy
  filters of every target cluster (the clusters of its identity that are in scope and cached) in line
  with the wanted ones: every wanted filter is stored as wanted, every other filter that carries the
  labels of the traffic config is gone, everything else in the fleet is untouched, and no cache
  changes.
\<close>

theorem rate_limit_filters_applied:
  fixes st :: "('cc, 'w) system"
  assumes laws: "ef_laws (en_Api env) efs" and reads: "ef_read_laws (en_Api env) efs"
    and ok: "system_ok (en_Params env) st" and scope: "\<forall>c. cluster_scope env c \<noteq> None"
    and tc: "tc_QuotaGroup tc = Some qg" "\<not> TC_IsDisabled tc" "eventType \<noteq> Delete"
    and marshal: "en_Marshal env = (\<lambda>m. Some (marshal m))"
    and ready: "\<forall>c \<in> rate_limit_targets env st tc. filters_ready env st tc (efs (sy_World st)) c"
  shows "\<exists>st'. HandleRateLimiter env tc eventType st = Some st' \<and> st' = st\<lparr>sy_World := sy_World st'\<rparr>
    \<and> (\<forall>k. if fst k \<in> rate_limit_targets env st tc
           then filter_applied env st tc (efs (sy_World st)) k (efs (sy_World st') k)
           else efs (sy_World st') k = efs (sy_World st) k)"
  by (rule apply_rate_limit_filters [OF laws reads ok scope tc marshal ready])

lemma delete_rate_limit_filters:
  fixes st :: "('cc, 'w) system"
  assumes laws: "ef_laws (en_Api env) efs" and reads: "ef_read_laws (en_Api env) efs"
    and ok: "system_ok (en_Params env) st" and scope: "\<forall>c. cluster_scope env c \<noteq> None"
    and tc: "TC_IsDisabled tc \<or> eventType = Delete"
  shows "\<exists>st'. HandleRateLimiter env tc eventType st = Some st' \<and> st' = st\<lparr>sy_World := sy_World st'\<rparr>
    \<and> (\<forall>k. if fst k \<in> rate_limit_targets env st tc
           then filter_deleted env tc (efs (sy_World st)) k (efs (sy_World st') k)
           else efs (sy_World st') k = efs (sy_World st) k)"
proof (rule rate_limit_loop [OF ok scope])
  fix rc :: "'cc RemoteCluster" and c w
  let ?w = "sy_World st"
  assume c: "c \<in> rate_limit_targets env st tc" and id: "GetClusterID rc = c" and same: "\<forall>k. fst k = c \<longrightarrow> efs w k = efs ?w k"
  obtain fs w' where w': "fst (listRateLimitingFilters env rc tc w) = Some fs"
    "DeleteEnvoyFilters (en_Api env) c fs w = (None, w')"
    "\<forall>k. fst k = c \<longrightarrow> filter_deleted env tc (efs w) k (efs w' k)" "\<forall>k. fst k \<noteq> c \<longrightarrow> efs w' k = efs w k"
    using delete_filters_cluster [OF laws reads id] by blast
  have "filter_deleted env tc (efs ?w) k (efs w' k)" if k: "fst k = c" for k
    using w'(3) [rule_format, OF k] unfolding filter_deleted_def managed_filter_def same [rule_format, OF k] .
  with w'(1,2,4) show "\<exists>w'. (if TC_IsDisabled tc \<or> eventType = Delete then do {
             filterList \<leftarrow> fst (listRateLimitingFilters env rc tc w);
             let (err, w') = DeleteEnvoyFilters (en_Api env) (GetClusterID rc) filterList w;
             Some (st\<lparr>sy_World := w'\<rparr>)
           } else createRateLimitingFilters env rc tc (st\<lparr>sy_World := w\<rparr>)) = Some (st\<lparr>sy_World := w'\<rparr>)
        \<and> (\<forall>k. fst k = c \<longrightarrow> filter_deleted env tc (efs ?w) k (efs w' k)) \<and> (\<forall>k. fst k \<noteq> c \<longrightarrow> efs w' k = efs w k)"
    using tc id by (intro exI [of _ w']) simp
qed

text \<open>
  Handling the deletion of a traffic config, or any event of a disabled one, deletes from every
  target cluster the envoy filters that carry its labels, and touches nothing else.
\<close>

theorem rate_limit_filters_deleted:
  fixes st :: "('cc, 'w) system"
  assumes laws: "ef_laws (en_Api env) efs" and reads: "ef_read_laws (en_Api env) efs"
    and ok: "system_ok (en_Params env) st" and scope: "\<forall>c. cluster_scope env c \<noteq> None"
    and tc: "TC_IsDisabled tc \<or> eventType = Delete"
  shows "\<exists>st'. HandleRateLimiter env tc eventType st = Some st' \<and> st' = st\<lparr>sy_World := sy_World st'\<rparr>
    \<and> (\<forall>k. if fst k \<in> rate_limit_targets env st tc
           then filter_deleted env tc (efs (sy_World st)) k (efs (sy_World st') k)
           else efs (sy_World st') k = efs (sy_World st) k)"
  by (rule delete_rate_limit_filters [OF laws reads ok scope tc])

text \<open>A key wanted by a traffic config that holds a filter of another one.\<close>

definition taken_key ::
    "'w environment \<Rightarrow> ('cc, 'w) system \<Rightarrow> TrafficConfig \<Rightarrow> (object_key \<Rightarrow> EnvoyFilter option) \<Rightarrow> object_key \<Rightarrow> bool" where
  "taken_key env st tc efs k \<longleftrightarrow> k \<in> ef_key (fst k) ` set (wanted_filters env st tc (fst k)) \<and> efs k \<noteq> None
     \<and> \<not> managed_filter (en_Params env) tc (fst k) efs k"

lemma taken_not_listed:
  assumes fs: "\<forall>k. k \<in> ef_key c ` set fs \<longleftrightarrow> managed_filter (en_Params env) tc c efs k"
      "\<forall>f \<in> set fs. ef_Namespace f = NamespaceIstioSystem \<and> ToLower (ef_Name f) = ef_Name f"
    and f: "ef_Namespace f = NamespaceIstioSystem" "ToLower (ef_Name f) = ef_Name f"
    and k: "taken_key env st tc efs (ef_key c f)"
  shows "efs (ef_key c f) \<noteq> None \<and> \<not> checkIfPresent f fs"
proof
  have c: "fst (ef_key c f) = c" by (simp add: ef_key_def)
  show "efs (ef_key c f) \<noteq> None" using k unfolding taken_key_def by blast
  show "\<not> checkIfPresent f fs"
  proof
    assume "checkIfPresent f fs"
    then obtain g where g: "g \<in> set fs" "EqualFold (ef_Name g) (ef_Name f)" unfolding checkIfPresent_iff by blast
    then have "ef_key c g = ef_key c f" using fs(2) f by (simp add: ef_key_def EqualFold_def)
    then have "ef_key c f \<in> ef_key c ` set fs" using g(1) by (metis imageI)
    with fs(1) k show False unfolding taken_key_def c by blast
  qed
qed

lemma taken_filters_kept:
  assumes laws: "ef_laws (en_Api env) efs" and reads: "ef_read_laws (en_Api env) efs"
    and tc: "tc_QuotaGroup tc = Some qg" "en_Marshal env = (\<lambda>m. Some (marshal m))"
    and id: "GetClusterID rc = c"
    and names: "\<forall>n. efs w (c, NamespaceIstioSystem, n) \<noteq> None \<longrightarrow> ToLower n = n"
  shows "\<exists>w'. createRateLimitingFilters env rc tc (st\<lparr>sy_World := w\<rparr>) = Some (st\<lparr>sy_World := w'\<rparr>)
    \<and> (\<forall>k. fst k = c \<longrightarrow> taken_key env st tc (efs w) k \<longrightarrow> efs w' k = efs w k) \<and> (\<forall>k. fst k \<noteq> c \<longrightarrow> efs w' k = efs w k)"
proof -
  let ?req = "map (with_version env c w) (wanted_filters env st tc c)"
  let ?K = "{k. fst k = c \<longrightarrow> taken_key env st tc (efs w) k}"
  have key: "fst (ef_key c f) = c" for f by (simp add: ef_key_def)
  obtain fs where fs: "fst (listRateLimitingFilters env rc tc w) = Some fs"
    "\<forall>k. k \<in> ef_key c ` set fs \<longleftrightarrow> managed_filter (en_Params env) tc c (efs w) k"
    "\<forall>f \<in> set fs. ef_Namespace f = NamespaceIstioSystem \<and> efs w (c, NamespaceIstioSystem, ef_Name f) = Some f"
    by (rule list_managed [OF reads id, where w = w and tc = tc])
  have low: "\<forall>f \<in> set fs. ef_Namespace f = NamespaceIstioSystem \<and> ToLower (ef_Name f) = ef_Name f"
    using fs(3) names by simp
  have req: "ef_Namespace f = NamespaceIstioSystem" "ToLower (ef_Name f) = ef_Name f" "ef_Annotations f \<noteq> None"
    if "f \<in> set ?req" for f
    using that wanted_props by (fastforce simp: with_version_props)+
  have "\<exists>w'. ApplyEnvoyFilters (en_Api env) c ?req fs w = Some (None, w') \<and> (\<forall>k \<in> ?K. efs w' k = efs w k)"
  proof (rule apply_keeps [OF laws])
    show "\<forall>f \<in> set ?req. ef_Annotations f \<noteq> None" using req(3) by blast
    show "\<forall>f \<in> set fs. ef_key c f \<notin> ?K" using fs(2) unfolding taken_key_def mem_Collect_eq key by blast
    show "\<forall>f \<in> set ?req. ef_key c f \<in> ?K \<longrightarrow> efs w (ef_key c f) \<noteq> None \<and> \<not> checkIfPresent f fs"
      using taken_not_listed [OF fs(2) low req(1,2)] unfolding mem_Collect_eq key by blast
  qed
  then obtain w' where w': "ApplyEnvoyFilters (en_Api env) c ?req fs w = Some (None, w')" "\<forall>k \<in> ?K. efs w' k = efs w k" by blast
  have "createRateLimitingFilters env rc tc (st\<lparr>sy_World := w\<rparr>) = Some (st\<lparr>sy_World := w'\<rparr>)"
    using requested_wanted [OF tc, of "st\<lparr>sy_World := w\<rparr>" rc] fs(1) w'(1) id by (simp add: createRateLimitingFilters_def)
  with w'(2) show ?thesis by blast
qed

text \<open>
  The name of a filter leaves out the environment of the traffic config.  When two traffic configs
  of an identity list one workload environment, the first filter stored there stays: handling the other
  traffic config asks for a filter under a key that is taken and that its own list does not show, so
  the request goes to creation, is refused, and the stored filter is left as it is, though the handler
  reports nothing.
\<close>

theorem shared_workload_filter_stays:
  fixes st :: "('cc, 'w) system"
  assumes laws: "ef_laws (en_Api env) efs" and reads: "ef_read_laws (en_Api env) efs"
    and ok: "system_ok (en_Params env) st" and scope: "\<forall>c. cluster_scope env c \<noteq> None"
    and tc: "tc_QuotaGroup tc = Some qg" "\<not> TC_IsDisabled tc" "eventType \<noteq> Delete"
    and marshal: "en_Marshal env = (\<lambda>m. Some (marshal m))"
    and names: "\<forall>c n. efs (sy_World st) (c, NamespaceIstioSystem, n) \<noteq> None \<longrightarrow> ToLower n = n"
  shows "\<exists>st'. HandleRateLimiter env tc eventType st = Some st' \<and> st' = st\<lparr>sy_World := sy_World st'\<rparr>
    \<and> (\<forall>k. taken_key env st tc (efs (sy_World st)) k \<longrightarrow> efs (sy_World st') k = efs (sy_World st) k)"
proof -
  let ?w = "sy_World st"
  have "\<exists>st'. HandleRateLimiter env tc eventType st = Some st' \<and> st' = st\<lparr>sy_World := sy_World st'\<rparr>
    \<and> (\<forall>k. if fst k \<in> rate_limit_targets env st tc then taken_key env st tc (efs ?w) k \<longrightarrow> efs (sy_World st') k = efs ?w k
           else efs (sy_World st') k = efs ?w k)"
  proof (rule rate_limit_loop [OF ok scope])
    fix rc :: "'cc RemoteCluster" and c w
    assume id: "GetClusterID rc = c" and same: "\<forall>k. fst k = c \<longrightarrow> efs w k = efs ?w k"
    have names': "\<forall>n. efs w (c, NamespaceIstioSystem, n) \<noteq> None \<longrightarrow> ToLower n = n" using names same by simp
    obtain w' where w': "createRateLimitingFilters env rc tc (st\<lparr>sy_World := w\<rparr>) = Some (st\<lparr>sy_World := w'\<rparr>)"
      "\<forall>k. fst k = c \<longrightarrow> taken_key env st tc (efs w) k \<longrightarrow> efs w' k = efs w k" "\<forall>k. fst k \<noteq> c \<longrightarrow> efs w' k = efs w k"
      using taken_filters_kept [OF laws reads tc(1) marshal id names'] by blast
    have "taken_key env st tc (efs ?w) k \<longrightarrow> efs w' k = efs ?w k" if k: "fst k = c" for k
      using w'(2) [rule_format, OF k] unfolding taken_key_def managed_filter_def same [rule_format, OF k] by blast
    with w'(1,3) tc(2,3) show "\<exists>w'. (if TC_IsDisabled tc \<or> eventType = Delete then do {
             filterList \<leftarrow> fst (listRateLimitingFilters env rc tc w);
             let (err, w') = DeleteEnvoyFilters (en_Api env) (GetClusterID rc) filterList w;
             Some (st\<lparr>sy_World := w'\<rparr>)
           } else createRateLimitingFilters env rc tc (st\<lparr>sy_World := w\<rparr>)) = Some (st\<lparr>sy_World := w'\<rparr>)
        \<and> (\<forall>k. fst k = c \<longrightarrow> taken_key env st tc (efs ?w) k \<longrightarrow> efs w' k = efs ?w k)
        \<and> (\<forall>k. fst k \<noteq> c \<longrightarrow> efs w' k = efs w k)"
      by (intro exI [of _ w']) simp
  qed
  then obtain st' where st': "HandleRateLimiter env tc eventType st = Some st'" "st' = st\<lparr>sy_World := sy_World st'\<rparr>"
    "\<forall>k. if fst k \<in> rate_limit_targets env st tc then taken_key env st tc (efs ?w) k \<longrightarrow> efs (sy_World st') k = efs ?w k
           else efs (sy_World st') k = efs ?w k" by blast
  have "efs (sy_World st') k = efs ?w k" if k: "taken_key env st tc (efs ?w) k" for k
    using st'(3) [rule_format, of k] k by (cases "fst k \<in> rate_limit_targets env st tc") simp_all
  with st'(1,2) show ?thesis by blast
qed

subsection \<open>Witnesses\<close>

text \<open>One cluster with one deployment of the identity; the traffic configs of two environments share it.\<close>

definition shop_workload :: Workload where
  "shop_workload = \<lparr>wl_Meta = \<lparr>om_Name = ''shop-qal'', om_Namespace = ''shop'', om_Labels = Some [(''app'', ''shop'')], om_Annotations = None\<rparr>,
     wl_Template = \<lparr>om_Name = [], om_Namespace = [], om_Labels = Some [(''alpha.istio.io/identity'', ''Shop''), (''admiral.io/env'', ''qal''), (''sidecar.istio.io/inject'', ''true'')], om_Annotations = None\<rparr>\<rparr>"

definition rate_system :: "server \<Rightarrow> (unit, server) system" where
  "rate_system w = (sample_system w)
     \<lparr>sy_IdentityCluster := AddClusterToIdentity ''Shop'' ''c1'' IdentityCluster_Reset,
      sy_Deployments := Deployments_Add (InitializeNaavikArgs None) ''c1'' shop_workload Deployments_Reset\<rparr>"

definition rate_tc :: TrafficConfig where
  "rate_tc = dialed_tc\<lparr>tc_QuotaGroup := Some \<lparr>qg_Total = [], qg_App = []\<rparr>\<rparr>"

definition rate_key :: object_key where
  "rate_key = (''c1'', ''istio-system'', ''shop-throttle-qal-1.21'')"

text \<open>A cluster where a filter of the traffic environment is stored.\<close>

definition rate_server :: "string \<Rightarrow> server" where
  "rate_server env = ([(rate_key, (sample_filter ''shop-throttle-qal-1.21'' ''7'')
     \<lparr>ef_Labels := Some [(''createdFor'', ''shop''), (''createdForTrafficEnv'', env)]\<rparr>)], [])"

lemma sample_ef_read_laws: "ef_read_laws sample_api sample_efs"
proof -
  have own: "ef_Name f = n \<and> ef_Namespace f = ns" if "sample_efs w (c, ns, n) = Some f" for w c ns n f
    using that by (auto simp: sample_efs_def stored_as_def)
  have dom: "sample_efs w k \<noteq> None \<longleftrightarrow> k \<in> fst ` set (fst w)" for w k
    by (cases w) (simp add: sample_efs_def gm_get_def map_of_eq_None_iff)
  have listed: "f \<in> (\<lambda>k. the (sample_efs w k)) ` {k \<in> fst ` set (fst w). fst k = c \<and> fst (snd k) = ns}
      \<longleftrightarrow> sample_efs w (c, ns, ef_Name f) = Some f" (is "?l \<longleftrightarrow> ?r") for f c ns w
  proof
    assume ?l
    then obtain k where k: "k \<in> fst ` set (fst w)" "fst k = c" "fst (snd k) = ns" "f = the (sample_efs w k)" by blast
    then obtain n where "(c, ns, n) \<in> fst ` set (fst w)" "f = the (sample_efs w (c, ns, n))" by (cases k) simp
    then have "sample_efs w (c, ns, n) = Some f" using dom [of w "(c, ns, n)"] by auto
    with own [OF this] show ?r by simp
  next
    assume r: ?r
    then have "(c, ns, ef_Name f) \<in> fst ` set (fst w)" using dom [of w "(c, ns, ef_Name f)"] by simp
    then show ?l by (rule_tac x = "(c, ns, ef_Name f)" in image_eqI) (simp_all add: r)
  qed
  have "\<exists>fs. fst (api_ListEF sample_api c ns sel w) = Some fs
      \<and> set fs = {f. sample_efs w (c, ns, ef_Name f) = Some f \<and> has_labels sel (ef_Labels f)}" for c ns sel w
    unfolding listed [symmetric] by (auto simp: sample_api_def)
  moreover have "case sample_efs w (c, ns, n) of
        None \<Rightarrow> (case fst (api_GetEF sample_api c ns n w) of None \<Rightarrow> True | Some f \<Rightarrow> ef_ResourceVersion f = [])
      | Some f \<Rightarrow> fst (api_GetEF sample_api c ns n w) = Some f" for c ns n w
    by (simp add: sample_api_def split: option.split)
  ultimately show ?thesis unfolding ef_read_laws_def using own by blast
qed

lemma rate_laws: "ef_laws (en_Api sample_env) sample_efs" "ef_read_laws (en_Api sample_env) sample_efs"
  using sample_ef_laws sample_ef_read_laws by (simp_all add: sample_env_def)

lemma rate_system_ok: "system_ok (en_Params sample_env) (rate_system w)"
proof -
  have "cc_ok (Deployments_Add p c d Deployments_Reset)" for p c d
    using dep_cache.ok_add dep_cache.ok_emp by blast
  with sample_system_ok [of w] show ?thesis
    by (simp add: system_ok_def rate_system_def id_cluster.ok_add id_cluster.ok_emp)
qed

lemma rate_scope: "\<forall>c. cluster_scope sample_env c \<noteq> None"
  by (simp add: sample_scope)

lemma rate_targets: "rate_limit_targets sample_env (rate_system w) rate_tc = {''c1''}"
proof -
  have "GetClustersForIdentity (sy_IdentityCluster (rate_system w)) (TC_GetIdentity (en_Params sample_env) rate_tc) = [''c1'']"
    "map_option rcl_clusterID (RC_GetCluster (reg_clusters (sy_Registry (rate_system w))) ''c1'') = Some ''c1''"
    unfolding rate_system_def sample_system_def initial_system_def by code_simp+
  then show ?thesis by (auto simp: rate_limit_targets_def reachable_cluster_def sample_scope)
qed

lemma rate_wanted: "map (ef_key ''c1'') (wanted_filters sample_env (rate_system w) rate_tc ''c1'') = [rate_key]"
proof -
  obtain ls where "getWorkLoadLabels (en_Params sample_env) (sy_Deployments (rate_system w)) (sy_Rollouts (rate_system w))
      ''c1'' (TC_GetIdentity (en_Params sample_env) rate_tc) ''qal'' = Inr ls"
  proof
    show "getWorkLoadLabels (en_Params sample_env) (sy_Deployments (rate_system w)) (sy_Rollouts (rate_system w))
      ''c1'' (TC_GetIdentity (en_Params sample_env) rate_tc) ''qal'' = Inr (workload_labels ''shop'' ''Shop'' ''qal'')"
      unfolding rate_system_def sample_system_def initial_system_def by code_simp
  qed
  moreover have "tc_WorkloadEnv rate_tc = [''qal'']" "elems (EnvoyFilterVersions (en_Params sample_env)) = [''1.21'']"
    "EnvoyFilterName (TC_GetIdentity (en_Params sample_env) rate_tc) ''throttle'' ''qal-1.21'' = ''shop-throttle-qal-1.21''"
    by code_simp+
  ultimately show ?thesis by (simp add: wanted_filters_def rate_limit_filter_def ef_key_def rate_key_def NamespaceIstioSystem_def)
qed

lemma rate_managed:
  "managed_filter (en_Params sample_env) rate_tc ''c1'' (sample_efs (rate_server ''qa'')) rate_key"
  "\<not> managed_filter (en_Params sample_env) rate_tc ''c1'' (sample_efs (rate_server ''prd'')) rate_key"
  by code_simp+

lemma rate_tc: "tc_QuotaGroup rate_tc = Some \<lparr>qg_Total = [], qg_App = []\<rparr>" "\<not> TC_IsDisabled rate_tc"
  "en_Marshal sample_env = (\<lambda>m. Some (PbNumber 0))"
  by (simp_all add: rate_tc_def sample_env_def) code_simp

lemma rate_world: "sy_World (rate_system w) = w"
  by (simp add: rate_system_def sample_system_def initial_system_def)

lemma rate_wanted_key: "rate_key \<in> ef_key ''c1'' ` set (wanted_filters sample_env (rate_system w) rate_tc ''c1'')"
  using rate_wanted [of w] by (metis list.set_intros(1) set_map)

theorem rate_limit_filters_applied_witness:
  "\<exists>st'. HandleRateLimiter sample_env rate_tc Add (rate_system ([], [])) = Some st'
     \<and> (\<exists>f g. f \<in> set (wanted_filters sample_env (rate_system ([], [])) rate_tc ''c1'')
          \<and> sample_efs (sy_World st') rate_key = Some g \<and> applied_as f g)"
proof -
  let ?st = "rate_system ([], [])"
  have none: "sample_efs (sy_World ?st) k = None" for k by (simp add: rate_world sample_efs_def gm_get_def)
  have "distinct (map ef_Name (wanted_filters sample_env ?st rate_tc ''c1''))"
  proof -
    have "length (wanted_filters sample_env ?st rate_tc ''c1'') = 1"
      using arg_cong [OF rate_wanted [of "([], [])"], of length] by simp
    then show ?thesis by (cases "wanted_filters sample_env ?st rate_tc ''c1''") auto
  qed
  then have "\<forall>c \<in> rate_limit_targets sample_env ?st rate_tc. filters_ready sample_env ?st rate_tc (sample_efs (sy_World ?st)) c"
    by (simp add: rate_targets filters_ready_def none)
  from rate_limit_filters_applied [OF rate_laws rate_system_ok rate_scope rate_tc(1,2) _ rate_tc(3) this, of Add]
  obtain st' where st': "HandleRateLimiter sample_env rate_tc Add ?st = Some st'"
    "\<forall>k. if fst k \<in> rate_limit_targets sample_env ?st rate_tc
       then filter_applied sample_env ?st rate_tc (sample_efs (sy_World ?st)) k (sample_efs (sy_World st') k)
       else sample_efs (sy_World st') k = sample_efs (sy_World ?st) k" by auto
  have "fst rate_key = ''c1''" by (simp add: rate_key_def)
  with st'(2) [rule_format, of rate_key] have
    "filter_applied sample_env ?st rate_tc (sample_efs (sy_World ?st)) rate_key (sample_efs (sy_World st') rate_key)"
    by (simp add: rate_targets)
  with rate_wanted_key [of "([], [])"] \<open>fst rate_key = ''c1''\<close> st'(1) show ?thesis by (auto simp: filter_applied_def)
qed

theorem rate_limit_filters_deleted_witness:
  "\<exists>st'. HandleRateLimiter sample_env rate_tc Delete (rate_system (rate_server ''qa'')) = Some st'
     \<and> sample_efs (sy_World st') rate_key = None"
proof -
  obtain st' where st': "HandleRateLimiter sample_env rate_tc Delete (rate_system (rate_server ''qa'')) = Some st'"
    "\<forall>k. if fst k \<in> rate_limit_targets sample_env (rate_system (rate_server ''qa'')) rate_tc
       then filter_deleted sample_env rate_tc (sample_efs (rate_server ''qa'')) k (sample_efs (sy_World st') k)
       else sample_efs (sy_World st') k = sample_efs (rate_server ''qa'') k"
    using rate_limit_filters_deleted [OF rate_laws rate_system_ok rate_scope, of rate_tc Delete "rate_server ''qa''"]
    unfolding rate_world by blast
  have "fst rate_key = ''c1''" by (simp add: rate_key_def)
  with st'(2) [rule_format, of rate_key] rate_managed(1) st'(1) show ?thesis by (simp add: rate_targets filter_deleted_def)
qed

theorem shared_workload_filter_stays_witness:
  "\<exists>st'. HandleRateLimiter sample_env rate_tc Add (rate_system (rate_server ''prd'')) = Some st'
     \<and> sample_efs (sy_World st') rate_key = sample_efs (rate_server ''prd'') rate_key"
proof -
  let ?st = "rate_system (rate_server ''prd'')"
  have has: "sample_efs (rate_server ''prd'') k \<noteq> None \<longleftrightarrow> k = rate_key" for k
    by (simp add: sample_efs_def rate_server_def gm_get_Cons gm_get_def)
  have "ToLower ''shop-throttle-qal-1.21'' = ''shop-throttle-qal-1.21''" by code_simp
  then have names: "\<forall>c n. sample_efs (sy_World ?st) (c, NamespaceIstioSystem, n) \<noteq> None \<longrightarrow> ToLower n = n"
    unfolding rate_world has by (simp add: rate_key_def)
  obtain st' where st': "HandleRateLimiter sample_env rate_tc Add ?st = Some st'"
    "\<forall>k. taken_key sample_env ?st rate_tc (sample_efs (rate_server ''prd'')) k \<longrightarrow>
       sample_efs (sy_World st') k = sample_efs (rate_server ''prd'') k"
    using shared_workload_filter_stays [OF rate_laws rate_system_ok rate_scope rate_tc(1,2) _ rate_tc(3) names, of Add]
    by (auto simp: rate_world)
  have "taken_key sample_env ?st rate_tc (sample_efs (rate_server ''prd'')) rate_key"
  proof -
    have "fst rate_key = ''c1''" by (simp add: rate_key_def)
    then show ?thesis unfolding taken_key_def has using rate_wanted_key rate_managed(2) by simp
  qed
  with st' show ?thesis by blast
qed

end
