(* ===== verification/ControllerQueue.thy ===== *)
theory ControllerQueue
  imports EventStatus Options
begin

text \<open>
  \<open>internal/controller/controller.go\<close>: the items a controller's informer puts on its work queue, the
  dispatch of an item to its handler, the handling of the statuses the handler sends, and retries.

  The work queue is client-go's.  What is used of it: an item added while it is being processed is
  delivered once more after \<open>Done\<close>, however often it was added.  The goroutine that reads the statuses of
  an item is run after the handler; what it does is the list of its effects, in order.  Items are
  pointers that the goroutine updates in place: the item that is delivered again is the final one.
  The handler is a parameter, a function on channels and on a state of its own; \<open>None\<close> is a panic.
\<close>

record 'o item =
  it_key :: string
  it_eventType :: EventType
  it_obj :: 'o
  it_oldObj :: "'o option"
  it_retryCount :: int
  it_statusChan :: nat
  it_onStatusOverride :: "nat option"

text \<open>
  What the status goroutine of an item does: call the status callback (\<open>None\<close>: the delegator's own,
  \<open>Some f\<close>: the override \<open>f\<close>), start the goroutine of a child item, add the item to the queue at once
  or after a delay, and tell the queue that the item is done.
\<close>

datatype 'o effect = Callback "nat option" EventProcessStatus | Spawn context_t "'o item"
  | QueueAdd | QueueAddAfter int | QueueDone

record ('o, 's) delegator =
  dl_Added :: "context_t \<Rightarrow> 'o \<Rightarrow> nat option \<Rightarrow> 's \<times> chans \<Rightarrow> ('s \<times> chans) option"
  dl_Updated :: "context_t \<Rightarrow> 'o \<Rightarrow> 'o option \<Rightarrow> nat option \<Rightarrow> 's \<times> chans \<Rightarrow> ('s \<times> chans) option"
  dl_Deleted :: "context_t \<Rightarrow> 'o \<Rightarrow> nat option \<Rightarrow> 's \<times> chans \<Rightarrow> ('s \<times> chans) option"

subsection \<open>Items\<close>

text \<open>
  The informer callbacks of \<open>NewController\<close>.  The key function of client-go is the parameter \<open>key\<close>;
  when it fails nothing is queued.
\<close>

definition informer_item :: "('o \<Rightarrow> string option) \<Rightarrow> EventType \<Rightarrow> 'o \<Rightarrow> 'o option \<Rightarrow> chans \<Rightarrow> chans \<times> 'o item option" where
  "informer_item key ev obj oldObj cs =
     (let (cs1, c) = make_chan cs in
      (cs1, case key obj of
         None \<Rightarrow> None
       | Some k \<Rightarrow> Some \<lparr>it_key = k, it_eventType = ev, it_obj = obj, it_oldObj = oldObj,
           it_retryCount = 0, it_statusChan = c, it_onStatusOverride = None\<rparr>))"

subsection \<open>Statuses\<close>

text \<open>A child event is announced by \<open>CreateChildEvent\<close> only, which always sets its channel.\<close>

definition triggerOnStatusCallback :: "EventProcessStatus \<Rightarrow> 'o item \<Rightarrow> 'o effect" where
  "triggerOnStatusCallback eps it = Callback (it_onStatusOverride it) eps"

definition child_item :: "EventProcessStatus \<Rightarrow> 'o item \<Rightarrow> 'o item" where
  "child_item eps it =
     \<lparr>it_key = it_key it, it_eventType = it_eventType it, it_obj = it_obj it, it_oldObj = it_oldObj it,
      it_retryCount = it_retryCount it,
      it_statusChan = (case eps_ChildEventChan eps of None \<Rightarrow> 0 | Some c \<Rightarrow> c),
      it_onStatusOverride = eps_ChildOnStatus eps\<rparr>"

text \<open>The body of the loop of \<open>handleStatus\<close>.\<close>

definition status_step ::
    "EventProcessStatus \<Rightarrow> 'o item \<times> chans \<Rightarrow> ('o item \<times> chans) \<times> 'o effect list" where
  "status_step eps = (\<lambda>(it, cs).
     if eps_Status eps = EventCreateChild then
       ((it, cs), [Spawn (eps_ChildEventContext eps) (child_item eps it)])
     else if eps_Status eps = EventSkip then ((it, cs), [])
     else if (eps_Status eps = EventCompleted \<or> eps_Status eps = EventFailure
         \<or> eps_Status eps = EventPartialCompleted) \<and> \<not> eps_Retry eps then
       ((it, cs), [triggerOnStatusCallback eps it])
     else if eps_Retry eps \<and> it_retryCount it < eps_MaxRetryCount eps then
       (let eps' = eps\<lparr>eps_RetryCount := it_retryCount it\<rparr>;
            (cs', c) = make_chan cs;
            it' = it\<lparr>it_retryCount := it_retryCount it + 1, it_statusChan := c\<rparr>
        in ((it', cs'), [triggerOnStatusCallback eps' it,
              if eps_RetryAfter eps > 0 then QueueAddAfter (eps_RetryAfter eps) else QueueAdd]))
     else if eps_Retry eps \<and> it_retryCount it \<ge> eps_MaxRetryCount eps then
       ((it, cs), [triggerOnStatusCallback
          (eps\<lparr>eps_RetryCount := it_retryCount it, eps_Status := EventMaxRetryReached\<rparr>) it])
     else ((it, cs), [triggerOnStatusCallback eps it]))"

text \<open>
  The goroutine: it reads the channel the item had when the loop started, until that channel is
  closed; only then \<open>Done\<close> is called.
\<close>

fun status_loop :: "EventProcessStatus list \<Rightarrow> 'o item \<times> chans \<Rightarrow> ('o item \<times> chans) \<times> 'o effect list" where
  "status_loop [] st = (st, [])"
| "status_loop (eps # rest) st =
     (let (st1, effs1) = status_step eps st; (st2, effs2) = status_loop rest st1 in (st2, effs1 @ effs2))"

definition handleStatus :: "'o item \<times> chans \<Rightarrow> ('o item \<times> chans) \<times> 'o effect list" where
  "handleStatus = (\<lambda>(it, cs).
     let c = it_statusChan it;
         (st, effs) = status_loop (ch_sent (cs ! c)) (it, cs)
     in (st, if ch_closed (cs ! c) then effs @ [QueueDone] else effs))"

subsection \<open>Processing an item\<close>

definition dispatch :: "('o, 's) delegator \<Rightarrow> 'o item \<Rightarrow> 's \<times> chans \<Rightarrow> ('s \<times> chans) option" where
  "dispatch d it st =
     (let ctx = NewContextWithLogger in
      case it_eventType it of
        Delete \<Rightarrow> dl_Deleted d ctx (it_obj it) (Some (it_statusChan it)) st
      | Update \<Rightarrow> dl_Updated d ctx (it_obj it) (it_oldObj it) (Some (it_statusChan it)) st
      | Add \<Rightarrow> dl_Added d ctx (it_obj it) (Some (it_statusChan it)) st)"

definition processItem ::
    "('o, 's) delegator \<Rightarrow> 'o item \<Rightarrow> 's \<times> chans \<Rightarrow> ('o item \<times> ('s \<times> chans) \<times> 'o effect list) option" where
  "processItem d it st = do {
     (s', cs') \<leftarrow> dispatch d it st;
     let ((it', cs''), effs) = handleStatus (it, cs');
     Some (it', (s', cs''), effs)
   }"

text \<open>
  A worker: once the informer's cache is synced it processes what the queue hands out, \<open>gets\<close>, until the
  queue is shut down.  Nothing recovers from a panic of a handler, which ends the program (\<open>None\<close>).
\<close>

fun processNextItems ::
    "('o, 's) delegator \<Rightarrow> 'o item list \<Rightarrow> 's \<times> chans \<Rightarrow> (('s \<times> chans) \<times> 'o effect list list) option" where
  "processNextItems d [] st = Some (st, [])"
| "processNextItems d (it # gets) st = do {
     (it', st', effs) \<leftarrow> processItem d it st;
     (st'', rest) \<leftarrow> processNextItems d gets st';
     Some (st'', effs # rest)
   }"

definition runWorker ::
    "bool \<Rightarrow> ('o, 's) delegator \<Rightarrow> 'o item list \<Rightarrow> 's \<times> chans \<Rightarrow> (('s \<times> chans) \<times> 'o effect list list) option" where
  "runWorker hasSynced d gets st = (if \<not> hasSynced then Some (st, []) else processNextItems d gets st)"

text \<open>The queue delivers the item again when it was added and is done.\<close>

fun queue_adds :: "'o effect \<Rightarrow> bool" where
  "queue_adds QueueAdd = True"
| "queue_adds (QueueAddAfter _) = True"
| "queue_adds _ = False"

definition delivered_again :: "'o effect list \<Rightarrow> bool" where
  "delivered_again effs \<longleftrightarrow> list_ex queue_adds effs \<and> last effs = QueueDone"

text \<open>
  All deliveries of one informer event, with the effects of each.  The fuel bounds the number of
  deliveries; \<open>Inl\<close> when it runs out.
\<close>

fun process_event ::
    "nat \<Rightarrow> ('o, 's) delegator \<Rightarrow> 'o item \<Rightarrow> 's \<times> chans
       \<Rightarrow> (unit + 's \<times> chans \<times> 'o effect list list) option" where
  "process_event 0 d it st = Some (Inl ())"
| "process_event (Suc fuel) d it st = do {
     (it', st', effs) \<leftarrow> processItem d it st;
     if delivered_again effs then do {
       rest \<leftarrow> process_event fuel d it' st';
       (case rest of Inl u \<Rightarrow> Some (Inl u) | Inr (s, cs, log) \<Rightarrow> Some (Inr (s, cs, effs # log)))
     }
     else Some (Inr (fst st', snd st', [effs]))
   }"

subsection \<open>Lemmas\<close>

definition fresh_chan :: "nat \<Rightarrow> chans \<Rightarrow> bool" where
  "fresh_chan c cs \<longleftrightarrow> chan_open c cs \<and> ch_sent (cs ! c) = []"

lemma fresh_make_chan: "make_chan cs = (cs', c) \<Longrightarrow> fresh_chan c cs'"
  by (auto simp: make_chan_def fresh_chan_def chan_open_def)

text \<open>One status adds the item to the queue only by consuming one of its retries.\<close>

lemma status_step_retry:
  assumes "status_step eps (it, cs) = ((it', cs'), effs)"
  shows "(list_ex queue_adds effs \<and> it_retryCount it < eps_MaxRetryCount eps
      \<and> it_retryCount it' = it_retryCount it + 1 \<and> fresh_chan (it_statusChan it') cs')
    \<or> (\<not> list_ex queue_adds effs \<and> it' = it \<and> cs' = cs)"
proof -
  have "fresh_chan (length cs) (cs @ [\<lparr>ch_sent = [], ch_closed = False\<rparr>])"
    by (rule fresh_make_chan [of cs]) (simp add: make_chan_def)
  then show ?thesis using assms
    by (auto simp: status_step_def triggerOnStatusCallback_def Let_def make_chan_def split: if_splits)
qed

lemma status_loop_retry:
  assumes "status_loop msgs (it, cs) = ((it', cs'), effs)" "\<forall>eps \<in> set msgs. eps_MaxRetryCount eps \<le> M"
  shows "(list_ex queue_adds effs \<and> it_retryCount it < it_retryCount it' \<and> it_retryCount it' \<le> M
      \<and> fresh_chan (it_statusChan it') cs')
    \<or> (\<not> list_ex queue_adds effs \<and> it' = it \<and> cs' = cs)"
  using assms
proof (induction msgs arbitrary: it cs effs)
  case Nil
  then show ?case by simp
next
  case (Cons eps msgs)
  obtain it1 cs1 effs1 where one: "status_step eps (it, cs) = ((it1, cs1), effs1)"
    by (metis surj_pair)
  obtain effs2 where rest: "status_loop msgs (it1, cs1) = ((it', cs'), effs2)" "effs = effs1 @ effs2"
    using Cons.prems(1) one by (auto simp: Let_def split: prod.splits)
  from Cons.prems(2) have bound: "eps_MaxRetryCount eps \<le> M" "\<forall>e \<in> set msgs. eps_MaxRetryCount e \<le> M"
    by auto
  from status_step_retry [OF one] Cons.IH [OF rest(1) bound(2)] show ?case
    using rest(2) bound(1) by auto
qed

lemma delivered_again_loop:
  "delivered_again (if b then effs @ [QueueDone] else effs) \<Longrightarrow> list_ex queue_adds effs"
  by (auto simp: delivered_again_def split: if_splits)

lemma processItem_retry:
  assumes "dispatch d it st = Some (s, cs)" "\<forall>eps \<in> set (ch_sent (cs ! it_statusChan it)). eps_MaxRetryCount eps \<le> M"
  obtains it' st' effs where "processItem d it st = Some (it', st', effs)"
    "delivered_again effs \<longrightarrow> it_retryCount it < it_retryCount it' \<and> it_retryCount it' \<le> M
       \<and> fresh_chan (it_statusChan it') (snd st')"
proof -
  obtain it' cs' effs where loop: "status_loop (ch_sent (cs ! it_statusChan it)) (it, cs) = ((it', cs'), effs)"
    by (metis surj_pair)
  define out where "out = (if ch_closed (cs ! it_statusChan it) then effs @ [QueueDone] else effs)"
  have "processItem d it st = Some (it', (s, cs'), out)"
    using assms(1) loop by (simp add: processItem_def handleStatus_def Let_def out_def)
  moreover have "delivered_again out \<Longrightarrow> list_ex queue_adds effs"
    unfolding out_def by (rule delivered_again_loop)
  then have "delivered_again out \<longrightarrow> it_retryCount it < it_retryCount it' \<and> it_retryCount it' \<le> M
      \<and> fresh_chan (it_statusChan it') (snd (s, cs'))"
    using status_loop_retry [OF loop assms(2)] by auto
  ultimately show ?thesis by (rule that)
qed

lemma process_event_again:
  assumes "processItem d it st = Some (it', st', effs)" "delivered_again effs"
    and "process_event fuel d it' st' = Some (Inr (s, cs, log))"
  shows "process_event (Suc fuel) d it st = Some (Inr (s, cs, effs # log))"
  using assms by simp

text \<open>
  Handlers that send one status and close, and change their state by \<open>f\<close>, as long as their state
  satisfies \<open>I\<close>.
\<close>

definition sends_in ::
    "('s \<Rightarrow> bool) \<Rightarrow> EventProcessStatus \<Rightarrow> (EventType \<Rightarrow> 's \<Rightarrow> 's) \<Rightarrow> ('o, 's) delegator \<Rightarrow> bool" where
  "sends_in I eps f d \<longleftrightarrow> (\<forall>it s cs. I s \<longrightarrow> I (f (it_eventType it) s) \<and> dispatch d it (s, cs) =
     map_option (\<lambda>(_, cs'). (f (it_eventType it) s, cs')) (SendClose eps (Some (it_statusChan it)) cs))"

definition only_sends :: "EventProcessStatus \<Rightarrow> ('o, 's) delegator \<Rightarrow> bool" where
  "only_sends eps d \<longleftrightarrow> (\<forall>it s cs. dispatch d it (s, cs) =
     map_option (\<lambda>(_, cs'). (s, cs')) (SendClose eps (Some (it_statusChan it)) cs))"

lemma only_sends_in: "only_sends eps d \<Longrightarrow> sends_in (\<lambda>_. True) eps (\<lambda>_ s. s) d"
  by (simp add: only_sends_def sends_in_def)

text \<open>One delivery: the goroutine makes one step of the status.\<close>

lemma processItem_sends:
  assumes "sends_in I eps f d" "I s" "fresh_chan (it_statusChan it) cs"
  shows "processItem d it (s, cs) =
    (case status_step eps (it, close_with (it_statusChan it) eps cs) of
       ((it', cs'), effs) \<Rightarrow> Some (it', (f (it_eventType it) s, cs'), effs @ [QueueDone]))"
proof -
  have c: "it_statusChan it < length cs" "ch_sent (cs ! it_statusChan it) = []" "chan_open (it_statusChan it) cs"
    using assms(3) by (simp_all add: fresh_chan_def chan_open_def)
  have "dispatch d it (s, cs) = Some (f (it_eventType it) s, close_with (it_statusChan it) eps cs)"
    using assms(1,2) by (simp add: sends_in_def SendClose_open [OF c(3)])
  moreover have "ch_sent (close_with (it_statusChan it) eps cs ! it_statusChan it) = [eps]"
    "ch_closed (close_with (it_statusChan it) eps cs ! it_statusChan it)"
    using c by (simp_all add: close_with_def)
  ultimately show ?thesis by (simp add: processItem_def handleStatus_def Let_def split: prod.split)
qed

lemma processItem_retries:
  assumes "sends_in I eps f d" "I s" "fresh_chan (it_statusChan it) cs" "eps_Retry eps" "eps_Status eps = EventRetry"
  shows "processItem d it (s, cs) =
    (if it_retryCount it < eps_MaxRetryCount eps
     then Some (it\<lparr>it_retryCount := it_retryCount it + 1, it_statusChan := length cs\<rparr>,
        (f (it_eventType it) s, close_with (it_statusChan it) eps cs @ [\<lparr>ch_sent = [], ch_closed = False\<rparr>]),
        [Callback (it_onStatusOverride it) (eps\<lparr>eps_RetryCount := it_retryCount it\<rparr>),
         if eps_RetryAfter eps > 0 then QueueAddAfter (eps_RetryAfter eps) else QueueAdd, QueueDone])
     else Some (it, (f (it_eventType it) s, close_with (it_statusChan it) eps cs),
        [Callback (it_onStatusOverride it)
           (eps\<lparr>eps_RetryCount := it_retryCount it, eps_Status := EventMaxRetryReached\<rparr>), QueueDone]))"
  using assms(4,5)
  by (simp add: processItem_sends [OF assms(1-3)] status_step_def triggerOnStatusCallback_def Let_def make_chan_def)

fun callbacks :: "'o effect list \<Rightarrow> EventProcessStatus list" where
  "callbacks [] = []"
| "callbacks (Callback ov eps # effs) = eps # callbacks effs"
| "callbacks (_ # effs) = callbacks effs"

fun callback_targets :: "'o effect list \<Rightarrow> nat option list" where
  "callback_targets [] = []"
| "callback_targets (Callback ov eps # effs) = ov # callback_targets effs"
| "callback_targets (_ # effs) = callback_targets effs"

text \<open>A handler that fails every time, from its \<open>r\<close>-th retry on.\<close>

lemma retry_run:
  assumes "sends_in I eps f d" "eps_Retry eps" "eps_Status eps = EventRetry" "eps_MaxRetryCount eps = int (r + k)"
    and "fresh_chan (it_statusChan it) cs" "it_retryCount it = int r" "I s"
  shows "\<exists>cs' log. process_event (Suc k) d it (s, cs) = Some (Inr ((f (it_eventType it) ^^ Suc k) s, cs', log))
    \<and> length log = k + 1
    \<and> callback_targets (concat log) = replicate (k + 1) (it_onStatusOverride it)
    \<and> (\<forall>e \<in> set (concat log). \<forall>ctx child. e \<noteq> Spawn ctx child)
    \<and> callbacks (concat log) = map (\<lambda>n. eps\<lparr>eps_RetryCount := int n\<rparr>) [r..<r + k]
        @ [eps\<lparr>eps_RetryCount := int (r + k), eps_Status := EventMaxRetryReached\<rparr>]"
  using assms(4-)
proof (induction k arbitrary: r it cs s)
  case 0
  then show ?case
    by (simp add: processItem_retries [OF assms(1) 0(4) 0(2) assms(2,3)] delivered_again_def)
next
  case (Suc k)
  let ?it = "it\<lparr>it_retryCount := it_retryCount it + 1, it_statusChan := length cs\<rparr>" and ?s = "f (it_eventType it) s"
  let ?cs = "close_with (it_statusChan it) eps cs @ [\<lparr>ch_sent = [], ch_closed = False\<rparr>]"
  let ?effs = "[Callback (it_onStatusOverride it) (eps\<lparr>eps_RetryCount := it_retryCount it\<rparr>),
     if eps_RetryAfter eps > 0 then QueueAddAfter (eps_RetryAfter eps) else QueueAdd, QueueDone]"
  have p: "processItem d it (s, cs) = Some (?it, (?s, ?cs), ?effs)"
    using Suc.prems(1,3) by (simp add: processItem_retries [OF assms(1) Suc.prems(4,2) assms(2,3)])
  have "fresh_chan (length cs) ?cs" by (simp add: fresh_chan_def chan_open_def nth_append)
  moreover have "I ?s" using assms(1) Suc.prems(4) unfolding sends_in_def by blast
  ultimately obtain cs' log where rest:
    "process_event (Suc k) d ?it (?s, ?cs) = Some (Inr ((f (it_eventType it) ^^ Suc k) ?s, cs', log))" "length log = k + 1"
    "callback_targets (concat log) = replicate (k + 1) (it_onStatusOverride it)"
    "\<forall>e \<in> set (concat log). \<forall>ctx child. e \<noteq> Spawn ctx child"
    "callbacks (concat log) = map (\<lambda>n. eps\<lparr>eps_RetryCount := int n\<rparr>) [Suc r..<Suc r + k]
      @ [eps\<lparr>eps_RetryCount := int (Suc r + k), eps_Status := EventMaxRetryReached\<rparr>]"
    using Suc.IH [of "Suc r" ?it ?cs ?s] Suc.prems(1,3) by auto
  have again: "delivered_again ?effs" by (simp add: delivered_again_def)
  have "process_event (Suc (Suc k)) d it (s, cs) = Some (Inr ((f (it_eventType it) ^^ Suc (Suc k)) s, cs', ?effs # log))"
    using process_event_again [OF p again rest(1)] by (simp only: funpow_Suc_right o_apply)
  moreover have "callbacks (concat (?effs # log)) = map (\<lambda>n. eps\<lparr>eps_RetryCount := int n\<rparr>) [r..<r + Suc k]
      @ [eps\<lparr>eps_RetryCount := int (r + Suc k), eps_Status := EventMaxRetryReached\<rparr>]"
    using rest(5) Suc.prems(3) by (simp add: upt_conv_Cons)
  ultimately show ?case using rest(2-4) by (intro exI [of _ cs'] exI [of _ "?effs # log"]) simp
qed

subsection \<open>Properties\<close>

text \<open>
  One status leads to exactly one action: a child event starts one status goroutine, Skip does
  nothing, and every other status calls the status callback exactly once, the override of the item if
  it has one and the delegator's own otherwise; the item is put back on the queue only when the status
  asks for a retry and the item has retries left, and then it gets a fresh open channel and one more
  retry is counted.
\<close>

theorem status_actions:
  "\<exists>it' cs' effs. status_step eps (it, cs) = ((it', cs'), effs)
    \<and> length (filter (\<lambda>e. \<exists>ov x. e = Callback ov x) effs)
        = (if eps_Status eps = EventCreateChild \<or> eps_Status eps = EventSkip then 0 else 1)
    \<and> (\<forall>ov x. Callback ov x \<in> set effs \<longrightarrow> ov = it_onStatusOverride it)
    \<and> ((\<exists>ctx ch. Spawn ctx ch \<in> set effs) \<longleftrightarrow> eps_Status eps = EventCreateChild)
    \<and> (list_ex queue_adds effs \<longleftrightarrow> eps_Status eps \<notin> {EventCreateChild, EventSkip}
        \<and> eps_Retry eps \<and> it_retryCount it < eps_MaxRetryCount eps)
    \<and> (list_ex queue_adds effs \<longrightarrow> it_retryCount it' = it_retryCount it + 1 \<and> fresh_chan (it_statusChan it') cs')
    \<and> (\<not> list_ex queue_adds effs \<longrightarrow> it' = it \<and> cs' = cs)"
proof -
  have fresh: "fresh_chan (length cs) (cs @ [\<lparr>ch_sent = [], ch_closed = False\<rparr>])"
    by (rule fresh_make_chan [of cs]) (simp add: make_chan_def)
  show ?thesis
    using fresh by (auto simp: status_step_def triggerOnStatusCallback_def Let_def make_chan_def)
qed


text \<open>
  C29: a handler that fails every time with a retryable status of at most m retries is called m + 1
  times in all; its status callback sees m times the status Retry, numbered from 0 to m - 1, and last
  the status MaxRetryReached with count m, after which the event is dropped.
\<close>

theorem retries_exhausted:
  fixes s :: 's
  assumes "only_sends eps d" "eps_Retry eps" "eps_Status eps = EventRetry"
    and "fresh_chan (it_statusChan it) cs" "it_retryCount it = 0" "eps_MaxRetryCount eps = int m"
  shows "\<exists>cs' log. process_event (Suc m) d it (s, cs) = Some (Inr (s, cs', log))
    \<and> length log = m + 1
    \<and> callbacks (concat log) = map (\<lambda>n. eps\<lparr>eps_RetryCount := int n\<rparr>) [0..<m]
        @ [eps\<lparr>eps_RetryCount := int m, eps_Status := EventMaxRetryReached\<rparr>]"
proof -
  have "((\<lambda>s :: 's. s) ^^ n) s = s" for n by (induction n) simp_all
  then show ?thesis
    using retry_run [OF only_sends_in [OF assms(1)] assms(2,3), of 0 m it cs s] assms(4-6) by auto
qed

subsection \<open>Witnesses\<close>

text \<open>A handler that always fails and allows two retries.\<close>

definition failing_status :: EventProcessStatus where
  "failing_status = WithMaxRetry 2 (WithRetry (WithError ''unavailable'' NewEventProcessStatus))"

definition failing_delegator :: "(string, nat) delegator" where
  "failing_delegator =
     \<lparr>dl_Added = (\<lambda>ctx obj c (s, cs). map_option (\<lambda>(_, cs'). (s, cs')) (SendClose failing_status c cs)),
      dl_Updated = (\<lambda>ctx obj old c (s, cs). map_option (\<lambda>(_, cs'). (s, cs')) (SendClose failing_status c cs)),
      dl_Deleted = (\<lambda>ctx obj c (s, cs). map_option (\<lambda>(_, cs'). (s, cs')) (SendClose failing_status c cs))\<rparr>"

definition sample_item :: "string item" where
  "sample_item = \<lparr>it_key = ''ns/x'', it_eventType = Add, it_obj = ''x'', it_oldObj = None,
     it_retryCount = 0, it_statusChan = 0, it_onStatusOverride = None\<rparr>"

lemma failing_only_sends: "only_sends failing_status failing_delegator"
  by (simp add: only_sends_def dispatch_def failing_delegator_def Let_def split: EventType.split)

lemma failing_fields: "eps_Retry failing_status" "eps_Status failing_status = EventRetry"
  "eps_MaxRetryCount failing_status = int 2"
  by (simp_all add: failing_status_def WithMaxRetry_def WithRetry_def)

lemma sample_fresh: "fresh_chan (it_statusChan sample_item) sample_chans"
  by (simp add: fresh_chan_def chan_open_def sample_item_def sample_chans_def)

text \<open>A first failure puts the item back with one retry counted.\<close>

theorem status_actions_witness:
  "\<exists>it' cs' effs. status_step failing_status (sample_item, sample_chans) = ((it', cs'), effs)
     \<and> it_retryCount it' = 1 \<and> fresh_chan (it_statusChan it') cs' \<and> list_ex queue_adds effs"
proof -
  obtain it' cs' effs where r: "status_step failing_status (sample_item, sample_chans) = ((it', cs'), effs)"
    "list_ex queue_adds effs \<longleftrightarrow> eps_Status failing_status \<notin> {EventCreateChild, EventSkip}
        \<and> eps_Retry failing_status \<and> it_retryCount sample_item < eps_MaxRetryCount failing_status"
    "list_ex queue_adds effs \<longrightarrow> it_retryCount it' = it_retryCount sample_item + 1 \<and> fresh_chan (it_statusChan it') cs'"
    using status_actions [of failing_status sample_item sample_chans] by blast
  moreover have "it_retryCount sample_item = 0" by (simp add: sample_item_def)
  ultimately show ?thesis using failing_fields by auto
qed


theorem retries_exhausted_witness:
  "\<exists>cs' log. process_event 3 failing_delegator sample_item (7, sample_chans) = Some (Inr (7, cs', log))
     \<and> map (\<lambda>e. (eps_Status e, eps_RetryCount e)) (callbacks (concat log))
         = [(EventRetry, 0), (EventRetry, 1), (EventMaxRetryReached, 2)]"
proof -
  obtain cs' log where r: "process_event (Suc 2) failing_delegator sample_item (7, sample_chans) = Some (Inr (7, cs', log))"
    "callbacks (concat log) = map (\<lambda>n. failing_status\<lparr>eps_RetryCount := int n\<rparr>) [0..<2]
        @ [failing_status\<lparr>eps_RetryCount := int 2, eps_Status := EventMaxRetryReached\<rparr>]"
    using retries_exhausted [OF failing_only_sends failing_fields(1,2) sample_fresh _ failing_fields(3), of 7]
    by (auto simp: sample_item_def)
  have "[0..<2] = [0, 1 :: nat]" by (simp add: upt_rec)
  with r(2) have "map (\<lambda>e. (eps_Status e, eps_RetryCount e)) (callbacks (concat log))
      = [(EventRetry, 0), (EventRetry, 1), (EventMaxRetryReached, 2)]"
    using failing_fields(2) by simp
  with r(1) show ?thesis by (auto simp: numeral_3_eq_3)
qed

end
