(* ===== verification/HandlerContract.thy ===== *)
theory HandlerContract
  imports SystemState ControllerQueue
begin

text \<open>
  What the controller may rely on when it hands an event to a handler.

  A handler uses its status channel to announce child events and closes it once, with a Skip; each
  child event it announces gets a fresh channel, which it closes with one Skip too; no other channel
  changes.  The locale \<open>event_handler\<close> states this of a delegator and proves what the controller makes of
  it: the event is delivered once, nothing is retried and every item is reported done.
\<close>

subsection \<open>Channels of one event\<close>

definition skip_status :: EventProcessStatus where
  "skip_status = NewEventProcessStatus\<lparr>eps_Status := EventSkip\<rparr>"

lemma skip_status_fields [simp]: "eps_Status skip_status = EventSkip" "eps_Retry skip_status = False"
  by (simp_all add: skip_status_def NewEventProcessStatus_def)

definition done_chan :: "chan_state \<Rightarrow> bool" where
  "done_chan ch \<longleftrightarrow> ch_closed ch \<and> ch_sent ch = [skip_status]"

definition announces :: "chans \<Rightarrow> chans \<Rightarrow> EventProcessStatus \<Rightarrow> bool" where
  "announces cs cs' m \<longleftrightarrow> eps_Status m = EventCreateChild
     \<and> (\<exists>d. eps_ChildEventChan m = Some d \<and> length cs \<le> d \<and> d < length cs')"

text \<open>Some child events were announced on the open channel \<open>c\<close> and are done.\<close>

definition spawned :: "nat \<Rightarrow> chans \<Rightarrow> chans \<Rightarrow> bool" where
  "spawned c cs cs' \<longleftrightarrow> c < length cs \<and> chan_open c cs' \<and> grows {c} cs cs'
     \<and> (\<exists>ms. ch_sent (cs' ! c) = ch_sent (cs ! c) @ ms \<and> (\<forall>m \<in> set ms. announces cs cs' m))
     \<and> (\<forall>d. length cs \<le> d \<and> d < length cs' \<longrightarrow> done_chan (cs' ! d))"

definition settled :: "nat \<Rightarrow> chans \<Rightarrow> chans \<Rightarrow> bool" where
  "settled c cs cs' \<longleftrightarrow> (\<exists>cs1. spawned c cs cs1 \<and> cs' = close_with c skip_status cs1)"

lemma spawned_refl: "chan_open c cs \<Longrightarrow> spawned c cs cs"
  by (auto simp: spawned_def chan_open_def)

lemma announces_mono:
  "announces cs1 cs2 m \<Longrightarrow> length cs \<le> length cs1 \<Longrightarrow> length cs2 \<le> length cs' \<Longrightarrow> announces cs cs' m"
  by (auto simp: announces_def)

lemma spawned_trans:
  assumes "spawned c cs cs1" "spawned c cs1 cs2"
  shows "spawned c cs cs2"
proof -
  have len: "length cs \<le> length cs1" "length cs1 \<le> length cs2" "c < length cs"
    using assms by (auto simp: spawned_def grows_def)
  obtain ms1 ms2 where ms: "ch_sent (cs1 ! c) = ch_sent (cs ! c) @ ms1" "\<forall>m \<in> set ms1. announces cs cs1 m"
    "ch_sent (cs2 ! c) = ch_sent (cs1 ! c) @ ms2" "\<forall>m \<in> set ms2. announces cs1 cs2 m"
    using assms unfolding spawned_def by blast
  have "\<forall>m \<in> set (ms1 @ ms2). announces cs cs2 m"
    using ms(2,4) announces_mono len by (metis Un_iff order_refl set_append)
  moreover have "ch_sent (cs2 ! c) = ch_sent (cs ! c) @ (ms1 @ ms2)" using ms(1,3) by simp
  moreover have "done_chan (cs2 ! d)" if d: "length cs \<le> d" "d < length cs2" for d
  proof (cases "d < length cs1")
    case True
    then have "cs2 ! d = cs1 ! d" using assms(2) d(1) len(3) by (simp add: spawned_def grows_def)
    with True d(1) assms(1) show ?thesis by (simp add: spawned_def)
  qed (use assms(2) d(2) in \<open>simp add: spawned_def\<close>)
  ultimately show ?thesis
    using assms grows_trans len(3) unfolding spawned_def by blast
qed

text \<open>A child event that is settled without children of its own.\<close>

lemma spawned_child:
  assumes "chan_open c cs" "ctx_Log ctx"
  obtains cs' child where
    "CreateChildEvent eps ctx onStatus (Some c) cs = Some (NewContextWithLogger, Some child, cs')"
    "chan_open child cs'" "spawned c cs (close_with child skip_status cs')"
proof -
  obtain cs' child where child:
    "CreateChildEvent eps ctx onStatus (Some c) cs = Some (NewContextWithLogger, Some child, cs')"
    "child = length cs" "length cs' = Suc (length cs)" "chan_open c cs'" "chan_open child cs'"
    "ch_sent (cs' ! child) = []" "grows {c} cs cs'"
    "\<exists>m. ch_sent (cs' ! c) = ch_sent (cs ! c) @ [m] \<and> eps_Status m = EventCreateChild
      \<and> eps_ChildEventChan m = Some child \<and> eps_ChildOnStatus m = onStatus"
    by (rule CreateChildEvent_open [OF assms])
  have c: "c < length cs" using assms(1) by (simp add: chan_open_def)
  let ?cs = "close_with child skip_status cs'"
  have "grows {c} cs ?cs" using child(2,7) by (simp add: grows_def close_with_other)
  moreover have "chan_open c ?cs" using child(2,4) c by simp
  moreover have "done_chan (?cs ! child)" using child(2,3,6) by (simp add: done_chan_def close_with_def)
  moreover have "?cs ! c = cs' ! c" using child(2) c by (simp add: close_with_other)
  ultimately have "spawned c cs ?cs"
    using child(2,3,8) c by (auto simp: spawned_def announces_def less_Suc_eq le_less)
  with child(1,5) show ?thesis by (rule that)
qed

lemma settled_close: "chan_open c cs \<Longrightarrow> settled c cs (close_with c skip_status cs)"
  using spawned_refl settled_def by blast

lemma finish_settles:
  "chan_open c cs \<Longrightarrow> finish (Some c) st cs = Some (EventSkip, st, close_with c skip_status cs)"
  by (simp add: finish_open skip_status_def)

text \<open>What a settled event leaves on the channels.\<close>

lemma settled_chans:
  assumes "settled c cs cs'"
  obtains ms where "ch_sent (cs' ! c) = ch_sent (cs ! c) @ ms @ [skip_status]" "ch_closed (cs' ! c)"
    "\<forall>m \<in> set ms. announces cs cs' m" "grows {c} cs cs'" "\<forall>d. length cs \<le> d \<and> d < length cs' \<longrightarrow> done_chan (cs' ! d)"
proof -
  obtain cs1 where cs1: "spawned c cs cs1" "cs' = close_with c skip_status cs1"
    using assms by (auto simp: settled_def)
  have c: "c < length cs" "c < length cs1" using cs1(1) by (auto simp: spawned_def grows_def)
  obtain ms where ms: "ch_sent (cs1 ! c) = ch_sent (cs ! c) @ ms" "\<forall>m \<in> set ms. announces cs cs1 m"
    using cs1(1) unfolding spawned_def by blast
  show ?thesis
  proof (rule that)
    show "ch_sent (cs' ! c) = ch_sent (cs ! c) @ ms @ [skip_status]" "ch_closed (cs' ! c)"
      using ms(1) c by (simp_all add: cs1(2) close_with_def)
    show "\<forall>m \<in> set ms. announces cs cs' m" using ms(2) by (simp add: cs1(2) announces_def)
    show "grows {c} cs cs'" using cs1 by (simp add: spawned_def grows_def close_with_other)
    show "\<forall>d. length cs \<le> d \<and> d < length cs' \<longrightarrow> done_chan (cs' ! d)"
      using cs1 c(1) by (auto simp: spawned_def close_with_other)
  qed
qed

subsection \<open>Handlers as delegators\<close>

text \<open>The status a handler answers is ignored by the controller; a nil old object is no object.\<close>

type_synonym ('o, 's) event_fun = "context_t \<Rightarrow> 'o option \<Rightarrow> nat option \<Rightarrow> 's \<times> chans \<Rightarrow> (EventStatus \<times> 's \<times> chans) option"

definition handler_delegator ::
    "('o, 's) event_fun \<Rightarrow> (context_t \<Rightarrow> 'o option \<Rightarrow> 'o option \<Rightarrow> nat option \<Rightarrow> 's \<times> chans \<Rightarrow> (EventStatus \<times> 's \<times> chans) option)
       \<Rightarrow> ('o, 's) event_fun \<Rightarrow> ('o option, 's) delegator" where
  "handler_delegator added updated deleted =
     \<lparr>dl_Added = (\<lambda>ctx obj ch s. map_option snd (added ctx obj ch s)),
      dl_Updated = (\<lambda>ctx obj old ch s. map_option snd (updated ctx obj (Option.bind old id) ch s)),
      dl_Deleted = (\<lambda>ctx obj ch s. map_option snd (deleted ctx obj ch s))\<rparr>"


lemma dispatch_cases:
  assumes "dispatch (handler_delegator a u d) it (st, cs) = Some (st', cs')"
  obtains status where "a NewContextWithLogger (it_obj it) (Some (it_statusChan it)) (st, cs) = Some (status, st', cs')"
  | status where "u NewContextWithLogger (it_obj it) (Option.bind (it_oldObj it) id) (Some (it_statusChan it)) (st, cs) = Some (status, st', cs')"
  | status where "d NewContextWithLogger (it_obj it) (Some (it_statusChan it)) (st, cs) = Some (status, st', cs')"
  using assms by (auto simp: dispatch_def handler_delegator_def Let_def split: EventType.splits)

text \<open>A handler that does not panic.\<close>

definition event_returns :: "'a option \<Rightarrow> bool" where
  "event_returns r \<longleftrightarrow> r \<noteq> None"

lemma finish_returns [simp]: "chan_open c cs \<Longrightarrow> event_returns (finish (Some c) st cs)"
  by (simp add: event_returns_def finish_settles)

lemma event_returns_Some: "event_returns r \<longleftrightarrow> (\<exists>x. r = Some x)"
  by (simp add: event_returns_def)

lemma dispatch_returns:
  assumes "event_returns (a NewContextWithLogger (it_obj it) (Some (it_statusChan it)) (st, cs))"
    and "\<And>old. event_returns (u NewContextWithLogger (it_obj it) old (Some (it_statusChan it)) (st, cs))"
    and "event_returns (d NewContextWithLogger (it_obj it) (Some (it_statusChan it)) (st, cs))"
  shows "dispatch (handler_delegator a u d) it (st, cs) \<noteq> None"
  using assms(1,3) assms(2) [of "Option.bind (it_oldObj it) id"]
  by (simp add: event_returns_def dispatch_def handler_delegator_def Let_def del: not_None_eq split: EventType.split)

locale event_handler =
  fixes d :: "('o, 's) delegator" and ok :: "'s \<Rightarrow> bool"
  assumes settles: "chan_open (it_statusChan it) cs \<Longrightarrow> dispatch d it (st, cs) = Some (st', cs') \<Longrightarrow>
      settled (it_statusChan it) cs cs'"
    and keeps: "chan_open (it_statusChan it) cs \<Longrightarrow> ok st \<Longrightarrow> dispatch d it (st, cs) = Some (st', cs') \<Longrightarrow> ok st'"
begin

text \<open>The messages of a settled event only start goroutines.\<close>

lemma loop_announcements:
  assumes "\<forall>m \<in> set ms. announces cs0 cs1 m"
  shows "\<exists>kids. status_loop (ms @ [skip_status]) (it, cs) = ((it, cs), kids)
    \<and> length kids = length ms
    \<and> (\<forall>e \<in> set kids. \<exists>ctx child. e = Spawn ctx child \<and> length cs0 \<le> it_statusChan child \<and> it_statusChan child < length cs1)"
  using assms
proof (induction ms)
  case Nil
  show ?case by (simp add: status_step_def)
next
  case (Cons m ms)
  then obtain kids where kids: "status_loop (ms @ [skip_status]) (it, cs) = ((it, cs), kids)"
    "length kids = length ms"
    "\<forall>e \<in> set kids. \<exists>ctx child. e = Spawn ctx child \<and> length cs0 \<le> it_statusChan child \<and> it_statusChan child < length cs1"
    by auto
  have m: "eps_Status m = EventCreateChild" "length cs0 \<le> it_statusChan (child_item m it)" "it_statusChan (child_item m it) < length cs1"
    using Cons.prems by (auto simp: announces_def child_item_def)
  then show ?case
    by (intro exI [of _ "Spawn (eps_ChildEventContext m) (child_item m it) # kids"]) (auto simp: status_step_def kids)
qed

text \<open>One delivery: the item is unchanged, its goroutine starts one per child and ends with \<open>Done\<close>.\<close>

lemma delivery:
  assumes "fresh_chan (it_statusChan it) cs" "processItem d it (st, cs) = Some (it', (st', cs'), effs)"
  shows "it' = it \<and> \<not> delivered_again effs \<and> settled (it_statusChan it) cs cs' \<and> (ok st \<longrightarrow> ok st')
    \<and> (\<exists>kids. effs = kids @ [QueueDone] \<and> (\<forall>e \<in> set kids. \<exists>ctx child. e = Spawn ctx child
          \<and> handleStatus (child, cs') = ((child, cs'), [QueueDone])))"
proof -
  let ?c = "it_statusChan it"
  have c: "chan_open ?c cs" "ch_sent (cs ! ?c) = []" using assms(1) by (simp_all add: fresh_chan_def)
  obtain st1 cs1 where run: "dispatch d it (st, cs) = Some (st1, cs1)" "handleStatus (it, cs1) = ((it', cs'), effs)" "st' = st1"
    using assms(2) by (auto simp: processItem_def Let_def split: bind_splits prod.splits)
  have s: "settled ?c cs cs1" by (rule settles [OF c(1) run(1)])
  obtain ms where ms: "ch_sent (cs1 ! ?c) = ch_sent (cs ! ?c) @ ms @ [skip_status]" "ch_closed (cs1 ! ?c)"
    "\<forall>m \<in> set ms. announces cs cs1 m" "grows {?c} cs cs1" "\<forall>d. length cs \<le> d \<and> d < length cs1 \<longrightarrow> done_chan (cs1 ! d)"
    by (rule settled_chans [OF s])
  obtain kids where kids: "status_loop (ms @ [skip_status]) (it, cs1) = ((it, cs1), kids)"
    "\<forall>e \<in> set kids. \<exists>ctx child. e = Spawn ctx child \<and> length cs \<le> it_statusChan child \<and> it_statusChan child < length cs1"
    using loop_announcements [OF ms(3), of it cs1] by blast
  have out: "it' = it" "cs' = cs1" "effs = kids @ [QueueDone]"
    using run(2) kids(1) ms(1,2) c(2) by (simp_all add: handleStatus_def Let_def)
  have child: "handleStatus (child, cs1) = ((child, cs1), [QueueDone])"
    if "length cs \<le> it_statusChan child" "it_statusChan child < length cs1" for child :: "'o item"
    using ms(5) that by (simp add: done_chan_def handleStatus_def status_step_def)
  have "\<not> list_ex queue_adds kids"
  proof
    assume "list_ex queue_adds kids"
    then obtain e where "e \<in> set kids" "queue_adds e" by (auto simp: list_ex_iff)
    with kids(2) show False by auto
  qed
  then have "\<not> delivered_again effs" by (simp add: delivered_again_def out(3))
  moreover have "ok st \<longrightarrow> ok st'" using keeps [OF c(1)] run(1,3) by blast
  ultimately show ?thesis using out s kids(2) child by (metis (no_types, lifting))
qed

lemma one_delivery:
  assumes "fresh_chan (it_statusChan it) cs" "dispatch d it (st, cs) \<noteq> None" "ok st" "0 < fuel"
  shows "\<exists>st' cs' effs. process_event fuel d it (st, cs) = Some (Inr (st', cs', [effs])) \<and> ok st'
    \<and> settled (it_statusChan it) cs cs'
    \<and> (\<exists>kids. effs = kids @ [QueueDone] \<and> (\<forall>e \<in> set kids. \<exists>ctx child. e = Spawn ctx child
          \<and> handleStatus (child, cs') = ((child, cs'), [QueueDone])))"
proof -
  obtain st1 cs1 where "dispatch d it (st, cs) = Some (st1, cs1)" using assms(2) by auto
  then obtain it' st' cs' effs where run: "processItem d it (st, cs) = Some (it', (st', cs'), effs)"
    by (cases "handleStatus (it, cs1)") (auto simp: processItem_def Let_def)
  note one = delivery [OF assms(1) run]
  obtain n where "fuel = Suc n" using assms(4) gr0_implies_Suc by blast
  with run one have "process_event fuel d it (st, cs) = Some (Inr (st', cs', [effs]))" by simp
  with one assms(3) show ?thesis by blast
qed

end

text \<open>A handler that returns on the events it is safe to hand to it.\<close>

locale returning_handler = event_handler d ok
  for d :: "('o, 's) delegator" and ok +
  fixes safe :: "'s \<Rightarrow> 'o item \<Rightarrow> bool"
  assumes returns: "chan_open (it_statusChan it) cs \<Longrightarrow> ok st \<Longrightarrow> safe st it \<Longrightarrow> dispatch d it (st, cs) \<noteq> None"
begin

lemma delivered_once:
  assumes "fresh_chan (it_statusChan it) cs" "ok st" "safe st it" "0 < fuel"
  shows "\<exists>st' cs' effs. process_event fuel d it (st, cs) = Some (Inr (st', cs', [effs])) \<and> ok st'
    \<and> settled (it_statusChan it) cs cs'
    \<and> (\<exists>kids. effs = kids @ [QueueDone] \<and> (\<forall>e \<in> set kids. \<exists>ctx child. e = Spawn ctx child
          \<and> handleStatus (child, cs') = ((child, cs'), [QueueDone])))"
proof -
  have "chan_open (it_statusChan it) cs" using assms(1) by (simp add: fresh_chan_def)
  from one_delivery [OF assms(1) returns [OF this assms(2,3)] assms(2,4)] show ?thesis .
qed

end

end
