(* ===== verification/SystemSteps.thy ===== *)
theory SystemSteps
  imports HandlerContract
begin

text \<open>
  What handlers do to the state of the program, as steps: each step is one operation of one cache, a
  change of the registry of clusters and controllers, or a write to the API servers.  An invariant of
  the program is proved once per step; a handler is shown to run a sequence of steps, and to settle its
  channels (\<open>event_ok\<close>).
\<close>

inductive state_step :: "NaavikArgs \<Rightarrow> ('cc, 'w) system \<Rightarrow> ('cc, 'w) system \<Rightarrow> bool" for p where
  world: "state_step p st (st\<lparr>sy_World := w\<rparr>)"
| add_cluster: "state_step p st (st\<lparr>sy_IdentityCluster := AddClusterToIdentity i c (sy_IdentityCluster st)\<rparr>)"
| delete_cluster: "state_step p st (st\<lparr>sy_IdentityCluster := DeleteClusterFromIdentity i c (sy_IdentityCluster st)\<rparr>)"
| add_deployment: "state_step p st (st\<lparr>sy_Deployments := Deployments_Add p c d (sy_Deployments st)\<rparr>)"
| delete_deployment: "state_step p st (st\<lparr>sy_Deployments := Deployments_Delete p c d (sy_Deployments st)\<rparr>)"
| add_rollout: "state_step p st (st\<lparr>sy_Rollouts := Rollouts_Add p c d (sy_Rollouts st)\<rparr>)"
| delete_rollout: "state_step p st (st\<lparr>sy_Rollouts := Rollouts_Delete p c d (sy_Rollouts st)\<rparr>)"
| add_service: "state_step p st (st\<lparr>sy_Services := Services_Add c s (sy_Services st)\<rparr>)"
| delete_service: "state_step p st (st\<lparr>sy_Services := Services_Delete c s (sy_Services st)\<rparr>)"
| add_dependency: "state_step p st (st\<lparr>sy_IdentityDependency :=
    AddDependentToIdentity b a (AddDependencyToIdentity a b (sy_IdentityDependency st))\<rparr>)"
| add_traffic_config: "state_step p st (st\<lparr>sy_TrafficConfigs := AddTrafficConfigToCache p tc (sy_TrafficConfigs st)\<rparr>)"
| delete_traffic_config: "state_step p st (st\<lparr>sy_TrafficConfigs := DeleteTrafficConfigFromCache p tc (sy_TrafficConfigs st)\<rparr>)"
| registry: "(reg_ok (sy_Registry st) \<Longrightarrow> reg_ok reg) \<Longrightarrow> state_step p st (st\<lparr>sy_Registry := reg\<rparr>)"

abbreviation state_steps :: "NaavikArgs \<Rightarrow> ('cc, 'w) system \<Rightarrow> ('cc, 'w) system \<Rightarrow> bool" where
  "state_steps p \<equiv> (state_step p)\<^sup>*\<^sup>*"

named_theorems steps_intros

lemmas state_step_intros [steps_intros] = state_step.intros

text \<open>One step, and one step more.\<close>

lemma one_step [steps_intros]: "state_step p st st' \<Longrightarrow> state_steps p st st'"
  by (rule r_into_rtranclp)

lemma more_steps: "state_steps p st st1 \<Longrightarrow> state_step p st1 st' \<Longrightarrow> state_steps p st st'"
  by (rule rtranclp.rtrancl_into_rtrancl)

lemma steps_trans: "state_steps p st st1 \<Longrightarrow> state_steps p st1 st' \<Longrightarrow> state_steps p st st'"
  by (rule rtranclp_trans)

subsection \<open>Invariants\<close>

text \<open>
  The whole state is well formed, and the dependents of an identity are the identities that depend on it.
\<close>

definition system_inv :: "NaavikArgs \<Rightarrow> ('cc, 'w) system \<Rightarrow> bool" where
  "system_inv p st \<longleftrightarrow> system_ok p st \<and> dep_graph.converse (sy_IdentityDependency st)"

lemma state_step_ok: "state_step p st st' \<Longrightarrow> system_ok p st \<Longrightarrow> system_ok p st'"
proof (induction rule: state_step.induct)
  case (add_deployment st c d)
  then show ?case using dep_cache.ok_add by (auto simp: system_ok_def)
next
  case (delete_deployment st c d)
  then show ?case using dep_cache.ok_remove by (auto simp: system_ok_def)
next
  case (add_rollout st c d)
  then show ?case using ro_cache.ok_add by (auto simp: system_ok_def)
next
  case (delete_rollout st c d)
  then show ?case using ro_cache.ok_remove by (auto simp: system_ok_def)
next
  case (add_service st c s)
  then show ?case using svc_cache.ok_add by (auto simp: system_ok_def)
next
  case (delete_service st c s)
  then show ?case using svc_cache.ok_remove by (auto simp: system_ok_def)
qed (simp_all add: system_ok_def id_cluster.ok_add id_cluster.ok_del dep_graph.fwd.ok_add dep_graph.bwd.ok_add
    tcc_ok_Add tcc_ok_Delete)

lemma state_step_inv: "state_step p st st' \<Longrightarrow> system_inv p st \<Longrightarrow> system_inv p st'"
proof -
  assume step: "state_step p st st'" and inv: "system_inv p st"
  have "dep_graph.converse (sy_IdentityDependency st')"
    using step inv by (induction rule: state_step.induct)
      (auto simp: system_inv_def system_ok_def intro: dep_graph.converse_add)
  then show ?thesis using state_step_ok [OF step] inv by (simp add: system_inv_def)
qed

lemma state_steps_ok: "state_steps p st st' \<Longrightarrow> system_ok p st \<Longrightarrow> system_ok p st'"
  by (induction rule: rtranclp_induct) (auto intro: state_step_ok)

lemma state_steps_inv: "state_steps p st st' \<Longrightarrow> system_inv p st \<Longrightarrow> system_inv p st'"
  by (induction rule: rtranclp_induct) (auto intro: state_step_inv)

lemma initial_inv: "system_inv p (initial_system w)"
  by (simp add: system_inv_def system_ok_def initial_system_def Deployments_Reset_def Rollouts_Reset_def
      Services_Reset_def TCCache_Reset_def id_cluster.ok_emp dep_graph.bwd.ok_emp reg_ok_empty dep_graph.converse_emp)

subsection \<open>Handled events\<close>

text \<open>An event handled with an open channel: unless it panics, it answers Skip, settles and runs steps.\<close>

definition event_ok :: "NaavikArgs \<Rightarrow> nat \<Rightarrow> ('cc, 'w) system \<Rightarrow> chans \<Rightarrow> ('cc, 'w) handled \<Rightarrow> bool" where
  "event_ok p c st cs r \<longleftrightarrow> (case r of None \<Rightarrow> True
     | Some (status, st', cs') \<Rightarrow> status = EventSkip \<and> settled c cs cs' \<and> state_steps p st st')"

lemma event_ok_panic [simp]: "event_ok p c st cs None"
  by (simp add: event_ok_def)

lemma event_ok_finish:
  assumes "spawned c cs cs1" "state_steps p st st1"
  shows "event_ok p c st cs (finish (Some c) st1 cs1)"
proof -
  have "chan_open c cs1" using assms(1) by (simp add: spawned_def)
  then have "finish (Some c) st1 cs1 = Some (EventSkip, st1, close_with c skip_status cs1)" by (rule finish_settles)
  then show ?thesis using assms by (auto simp: event_ok_def settled_def)
qed

lemma event_ok_now: "chan_open c cs \<Longrightarrow> state_steps p st st1 \<Longrightarrow> event_ok p c st cs (finish (Some c) st1 cs)"
  by (simp add: event_ok_finish spawned_refl)

lemma event_ok_handler:
  assumes "\<And>obj c st cs. chan_open c cs \<Longrightarrow> event_ok p c st cs (a NewContextWithLogger obj (Some c) (st, cs))"
    and "\<And>new old c st cs. chan_open c cs \<Longrightarrow> event_ok p c st cs (u NewContextWithLogger new old (Some c) (st, cs))"
    and "\<And>obj c st cs. chan_open c cs \<Longrightarrow> event_ok p c st cs (d NewContextWithLogger obj (Some c) (st, cs))"
    and "chan_open (it_statusChan it) cs" "dispatch (handler_delegator a u d) it (st, cs) = Some (st', cs')"
  shows "settled (it_statusChan it) cs cs' \<and> state_steps p st st'"
  using assms(5)
proof (cases rule: dispatch_cases)
  case 1
  then show ?thesis using assms(1) [OF assms(4), of st "it_obj it"] by (simp add: event_ok_def)
next
  case 2
  then show ?thesis using assms(2) [OF assms(4), of st "it_obj it" "Option.bind (it_oldObj it) id"] by (simp add: event_ok_def)
next
  case 3
  then show ?thesis using assms(3) [OF assms(4), of st "it_obj it"] by (simp add: event_ok_def)
qed

lemma event_handler_intro:
  assumes "\<And>obj c st cs. chan_open c cs \<Longrightarrow> event_ok p c st cs (a NewContextWithLogger obj (Some c) (st, cs))"
    and "\<And>new old c st cs. chan_open c cs \<Longrightarrow> event_ok p c st cs (u NewContextWithLogger new old (Some c) (st, cs))"
    and "\<And>obj c st cs. chan_open c cs \<Longrightarrow> event_ok p c st cs (d NewContextWithLogger obj (Some c) (st, cs))"
  shows "event_handler (handler_delegator a u d) (system_inv p)"
proof -
  have run: "settled (it_statusChan it) cs cs' \<and> state_steps p st st'"
    if "chan_open (it_statusChan it) cs" "dispatch (handler_delegator a u d) it (st, cs) = Some (st', cs')" for it cs st st' cs'
    by (rule event_ok_handler [where a = a and u = u and d = d and p = p]) (use assms that in blast)+
  show ?thesis by unfold_locales (use run state_steps_inv in blast)+
qed

end
