(* ===== verification/TrafficConfigHandler.thy ===== *)
theory TrafficConfigHandler
  imports VirtualServiceHandler RateLimitHandler SystemSteps
begin

text \<open>
  The traffic config handler of \<open>internal/handler/trafficconfig/traffic_config_handler.go\<close>: the
  additions, updates and deletions of traffic configs, and the handler other handlers trigger when the
  workloads or dependencies of an identity change.

  A handler gets its context, a Kubernetes object, its status channel, the state and the channels.  The
  logger of a context may be nil; using it panics, which is \<open>logged\<close>.
\<close>

definition logged :: "context_t \<Rightarrow> 'a option \<Rightarrow> 'a option" where
  "logged ctx k = (if ctx_Log ctx then k else None)"

lemma logged_simps [simp]:
  "ctx_Log ctx \<Longrightarrow> logged ctx k = k" "\<not> ctx_Log ctx \<Longrightarrow> logged ctx k = None"
  "logged NewContextWithLogger k = k" "logged zeroContext k = None"
  by (simp_all add: logged_def NewContextWithLogger_def zeroContext_def)

lemma logged_Some: "logged ctx k = Some x \<longleftrightarrow> ctx_Log ctx \<and> k = Some x"
  by (simp add: logged_def)

text \<open>
  The two features.  Their context is a new one that takes over the logger only, so the source identity
  of the handler's context is lost.
\<close>

definition feature_context :: "context_t \<Rightarrow> context_t" where
  "feature_context ctx = NewContextWithLogger\<lparr>ctx_Log := ctx_Log ctx\<rparr>"

definition run_features ::
    "'w environment \<Rightarrow> context_t \<Rightarrow> TrafficConfig \<Rightarrow> EventType \<Rightarrow> ('cc, 'w) system \<Rightarrow> ('cc, 'w) system option" where
  "run_features env ctx tc eventType st = do {
     st1 \<leftarrow> (if IsFeatureEnabled (en_Params env) FeatureThrottleFilter
       then logged ctx (HandleRateLimiter env tc eventType st) else Some st);
     (if IsFeatureEnabled (en_Params env) FeatureVirtualService
       then logged ctx (HandleVirtualServiceForTrafficConfig env (feature_context ctx) tc st1) else Some st1)
   }"

text \<open>What the three events share after the cache is up to date.\<close>

definition process_traffic_config ::
    "'w environment \<Rightarrow> context_t \<Rightarrow> TrafficConfig \<Rightarrow> EventType \<Rightarrow> nat option
       \<Rightarrow> ('cc, 'w) system \<times> chans \<Rightarrow> ('cc, 'w) handled" where
  "process_traffic_config env ctx tc eventType statusChan = (\<lambda>(st, cs).
     if IsReadOnly (sy_Lease st) then logged ctx (finish statusChan st cs)
     else if \<not> cache_warm env st then logged ctx (finish statusChan st cs)
     else do {
       st' \<leftarrow> run_features env ctx tc eventType st;
       finish statusChan st' cs
     })"

definition TrafficConfig_Added ::
    "'w environment \<Rightarrow> context_t \<Rightarrow> k8s_object option \<Rightarrow> nat option
       \<Rightarrow> ('cc, 'w) system \<times> chans \<Rightarrow> ('cc, 'w) handled" where
  "TrafficConfig_Added env ctx obj statusChan = (\<lambda>(st, cs).
     case as_TrafficConfig obj of
       None \<Rightarrow> logged ctx (finish statusChan st cs)
     | Some tc \<Rightarrow>
         if TC_IsDisabled tc \<or> TC_IsIgnored (en_Params env) tc then logged ctx (finish statusChan st cs)
         else process_traffic_config env ctx tc Add statusChan
           (st\<lparr>sy_TrafficConfigs := AddTrafficConfigToCache (en_Params env) tc (sy_TrafficConfigs st)\<rparr>, cs))"

definition TrafficConfig_Updated ::
    "'w environment \<Rightarrow> context_t \<Rightarrow> k8s_object option \<Rightarrow> k8s_object option \<Rightarrow> nat option
       \<Rightarrow> ('cc, 'w) system \<times> chans \<Rightarrow> ('cc, 'w) handled" where
  "TrafficConfig_Updated env ctx newObj oldObj statusChan = (\<lambda>(st, cs).
     case as_TrafficConfig newObj of
       None \<Rightarrow> logged ctx (finish statusChan st cs)
     | Some tc \<Rightarrow>
         if TC_IsDisabled tc \<or> TC_IsIgnored (en_Params env) tc then logged ctx (finish statusChan st cs)
         else process_traffic_config env ctx tc Update statusChan (st, cs))"

definition TrafficConfig_Deleted ::
    "'w environment \<Rightarrow> context_t \<Rightarrow> k8s_object option \<Rightarrow> nat option
       \<Rightarrow> ('cc, 'w) system \<times> chans \<Rightarrow> ('cc, 'w) handled" where
  "TrafficConfig_Deleted env ctx obj statusChan = (\<lambda>(st, cs).
     case as_TrafficConfig obj of
       None \<Rightarrow> logged ctx (finish statusChan st cs)
     | Some tc \<Rightarrow> process_traffic_config env ctx tc Delete statusChan
         (st\<lparr>sy_TrafficConfigs := DeleteTrafficConfigFromCache (en_Params env) tc (sy_TrafficConfigs st)\<rparr>, cs))"

subsection \<open>The triggered handler\<close>

text \<open>The callback \<open>tch.OnStatus\<close>, a function that does nothing, by its identity.\<close>

definition TrafficConfig_OnStatus :: nat where "TrafficConfig_OnStatus = 0"

text \<open>
  One traffic config: a child event of the caller's, whose context gets the source identity for a
  dependent.  The child context is the zero context when the status channel is nil; deriving a context
  from a nil one panics, and so does its nil logger.
\<close>

definition trigger_traffic_config ::
    "'w environment \<Rightarrow> context_t \<Rightarrow> string option \<Rightarrow> nat option \<Rightarrow> TrafficConfig
       \<Rightarrow> ('cc, 'w) system \<times> chans \<Rightarrow> (('cc, 'w) system \<times> chans) option" where
  "trigger_traffic_config env ctx source statusChan tc = (\<lambda>(st, cs). do {
     (childCtx, childStatusChan, cs1) \<leftarrow> CreateChildEvent NewEventProcessStatus ctx (Some TrafficConfig_OnStatus) statusChan cs;
     childCtx' \<leftarrow> (case source of
         None \<Rightarrow> Some childCtx
       | Some identity \<Rightarrow> if ctx_Context childCtx then Some (childCtx\<lparr>ctx_SourceIdentity := Some identity\<rparr>) else None);
     (status, st', cs') \<leftarrow> logged childCtx'
       (TrafficConfig_Updated env childCtx' (Some (ObjTrafficConfig tc)) None childStatusChan (st, cs1));
     Some (st', cs')
   })"

definition trigger_entry ::
    "'w environment \<Rightarrow> context_t \<Rightarrow> string option \<Rightarrow> nat option \<Rightarrow> string
       \<Rightarrow> ('cc, 'w) system \<times> chans \<Rightarrow> (('cc, 'w) system \<times> chans) option" where
  "trigger_entry env ctx source statusChan owner = (\<lambda>(st, cs).
     case TCCache_GetTrafficConfigEntry (sy_TrafficConfigs st) owner of
       None \<Rightarrow> Some (st, cs)
     | Some tcEntry \<Rightarrow>
         foreach (\<lambda>(workload_env, tc). trigger_traffic_config env ctx source statusChan tc)
           (tce_EnvTrafficConfig tcEntry) (st, cs))"

definition TriggerTrafficConfigHandlerForIdentity ::
    "'w environment \<Rightarrow> context_t \<Rightarrow> string \<Rightarrow> nat option
       \<Rightarrow> ('cc, 'w) system \<times> chans \<Rightarrow> (('cc, 'w) system \<times> chans) option" where
  "TriggerTrafficConfigHandlerForIdentity env ctx identity statusChan s =
     logged ctx (do {
       (st, cs) \<leftarrow> trigger_entry env ctx None statusChan identity s;
       foreach (trigger_entry env ctx (Some identity) statusChan)
         (GetDependentsForIdentity (sy_IdentityDependency st) identity) (st, cs)
     })"

subsection \<open>What the features change\<close>

text \<open>The two features write to the API servers only.\<close>

definition only_world :: "('cc, 'w) system \<Rightarrow> ('cc, 'w) system \<Rightarrow> bool" where
  "only_world st st' \<longleftrightarrow> st' = st\<lparr>sy_World := sy_World st'\<rparr>"

lemma only_world_refl [simp, intro]: "only_world st st"
  by (simp add: only_world_def)

lemma only_world_put [simp, intro]: "only_world st (st\<lparr>sy_World := w\<rparr>)"
  by (simp add: only_world_def)

lemma only_world_trans: "only_world st st1 \<Longrightarrow> only_world st1 st2 \<Longrightarrow> only_world st st2"
proof -
  have "st1\<lparr>sy_World := sy_World st2\<rparr> = st2 \<Longrightarrow> st\<lparr>sy_World := sy_World st1\<rparr> = st1 \<Longrightarrow> st\<lparr>sy_World := sy_World st2\<rparr> = st2"
    by (metis system.surjective system.update_convs(9))
  then show "only_world st st1 \<Longrightarrow> only_world st1 st2 \<Longrightarrow> only_world st st2" unfolding only_world_def by metis
qed

lemma only_world_ok: "only_world st st' \<Longrightarrow> system_ok p st' = system_ok p st"
proof -
  have "system_ok p (st\<lparr>sy_World := w\<rparr>) = system_ok p st" for w by (simp add: system_ok_def)
  then show "only_world st st' \<Longrightarrow> system_ok p st' = system_ok p st" unfolding only_world_def by metis
qed

lemma rate_limit_cluster_world: "rate_limit_cluster env tc ev c st = Some st' \<Longrightarrow> only_world st st'"
  by (auto simp: rate_limit_cluster_def createRateLimitingFilters_def split: bind_splits if_splits option.splits prod.splits)

lemma HandleRateLimiter_world: "HandleRateLimiter env tc ev st = Some st' \<Longrightarrow> only_world st st'"
  unfolding HandleRateLimiter_def Let_def
  by (auto split: if_splits elim!: foreach_invariant [where P = "only_world st"]
      intro: only_world_trans rate_limit_cluster_world)

lemma HandleVirtualService_world: "HandleVirtualServiceForTrafficConfig env ctx tc st = Some st' \<Longrightarrow> only_world st st'"
  by (auto simp: HandleVirtualServiceForTrafficConfig_def handleVirtualServiceForMeshDependents_def Let_def
      split: if_splits bind_splits sum.splits prod.splits)

lemma run_features_world: "run_features env ctx tc ev st = Some st' \<Longrightarrow> only_world st st'"
  unfolding run_features_def
  by (auto simp: logged_Some split: if_splits bind_splits
      dest!: HandleRateLimiter_world HandleVirtualService_world intro: only_world_trans)

text \<open>With a nil channel or an open one, the only other effect of an event is the final Skip.\<close>

lemma process_effect:
  assumes "process_traffic_config env ctx tc ev (Some c) (st, cs) = Some (status, st', cs')" "chan_open c cs"
  shows "status = EventSkip \<and> only_world st st' \<and> cs' = close_with c skip_status cs"
  using assms(1) unfolding process_traffic_config_def
  by (auto simp: logged_Some finish_settles [OF assms(2)] split: if_splits bind_splits dest: run_features_world)

lemma Updated_effect:
  assumes "TrafficConfig_Updated env ctx new old (Some c) (st, cs) = Some (status, st', cs')" "chan_open c cs"
  shows "status = EventSkip \<and> only_world st st' \<and> cs' = close_with c skip_status cs"
  using assms(1) unfolding TrafficConfig_Updated_def
  by (auto simp: logged_Some finish_settles [OF assms(2)] split: if_splits option.splits
      dest: process_effect [OF _ assms(2)])

text \<open>Triggering announces child events on the caller's channel, settles them, and writes to the API servers only.\<close>

lemma trigger_one_effect:
  assumes "trigger_traffic_config env ctx src (Some c) tc (st, cs) = Some (st', cs')" "chan_open c cs"
  shows "only_world st st' \<and> spawned c cs cs'"
proof -
  have ctx: "ctx_Log ctx"
    using assms by (auto simp: trigger_traffic_config_def CreateChildEvent_def split: if_splits)
  obtain cs1 child where child:
    "CreateChildEvent NewEventProcessStatus ctx (Some TrafficConfig_OnStatus) (Some c) cs = Some (NewContextWithLogger, Some child, cs1)"
    "chan_open child cs1" "spawned c cs (close_with child skip_status cs1)"
    by (rule spawned_child [OF assms(2) ctx])
  obtain status childCtx where
    "TrafficConfig_Updated env childCtx (Some (ObjTrafficConfig tc)) None (Some child) (st, cs1) = Some (status, st', cs')"
    using assms(1) by (auto simp: trigger_traffic_config_def child(1) logged_Some split: bind_splits option.splits if_splits)
  from Updated_effect [OF this child(2)] child(3) show ?thesis by blast
qed

definition trigger_effect :: "nat \<Rightarrow> ('cc, 'w) system \<times> chans \<Rightarrow> ('cc, 'w) system \<times> chans \<Rightarrow> bool" where
  "trigger_effect c s s' \<longleftrightarrow> only_world (fst s) (fst s') \<and> spawned c (snd s) (snd s')"

lemma trigger_effect_trans: "trigger_effect c s s1 \<Longrightarrow> trigger_effect c s1 s2 \<Longrightarrow> trigger_effect c s s2"
  unfolding trigger_effect_def using only_world_trans spawned_trans by blast

lemma trigger_effect_open: "trigger_effect c s s' \<Longrightarrow> chan_open c (snd s')"
  by (simp add: trigger_effect_def spawned_def)

lemma trigger_loop:
  assumes "foreach f xs s = Some s'" "chan_open c (snd s)"
    and "\<And>x s s'. x \<in> set xs \<Longrightarrow> chan_open c (snd s) \<Longrightarrow> f x s = Some s' \<Longrightarrow> trigger_effect c s s'"
  shows "trigger_effect c s s'"
  using assms(1)
proof (rule foreach_invariant)
  show "trigger_effect c s s" using assms(2) by (simp add: trigger_effect_def spawned_refl)
next
  fix x s1 s2
  assume "x \<in> set xs" "trigger_effect c s s1" "f x s1 = Some s2"
  then show "trigger_effect c s s2"
    using assms(3) [of x s1 s2] trigger_effect_open trigger_effect_trans by blast
qed

lemma trigger_entry_effect:
  assumes "trigger_entry env ctx src (Some c) owner s = Some s'" "chan_open c (snd s)"
  shows "trigger_effect c s s'"
proof -
  obtain st cs where s: "s = (st, cs)" by fastforce
  show ?thesis
  proof (cases "TCCache_GetTrafficConfigEntry (sy_TrafficConfigs st) owner")
    case None
    with assms s show ?thesis by (simp add: trigger_entry_def trigger_effect_def spawned_refl)
  next
    case (Some e)
    with assms(1) have "foreach (\<lambda>(we, tc). trigger_traffic_config env ctx src (Some c) tc) (tce_EnvTrafficConfig e) s = Some s'"
      by (simp add: trigger_entry_def s)
    then show ?thesis
      by (rule trigger_loop [OF _ assms(2)]) (auto simp: trigger_effect_def dest: trigger_one_effect)
  qed
qed

lemma Trigger_effect:
  assumes "TriggerTrafficConfigHandlerForIdentity env ctx identity (Some c) s = Some s'" "chan_open c (snd s)"
  shows "trigger_effect c s s'"
proof -
  obtain s1 where s1: "trigger_entry env ctx None (Some c) identity s = Some s1"
    "foreach (trigger_entry env ctx (Some identity) (Some c)) (GetDependentsForIdentity (sy_IdentityDependency (fst s1)) identity) s1 = Some s'"
    using assms(1) by (auto simp: TriggerTrafficConfigHandlerForIdentity_def logged_Some split: bind_splits prod.splits)
  have one: "trigger_effect c s s1" by (rule trigger_entry_effect [OF s1(1) assms(2)])
  have "trigger_effect c s1 s'"
    by (rule trigger_loop [OF s1(2) trigger_effect_open [OF one]]) (rule trigger_entry_effect)
  with one show ?thesis by (rule trigger_effect_trans)
qed

subsection \<open>When the features return\<close>

text \<open>
  What the features need in order not to panic: cluster scopes whose expressions compile, messages that
  can be marshalled, lists the API server answers, and traffic configs with an edge service and a quota
  group.
\<close>

definition env_total :: "'w environment \<Rightarrow> bool" where
  "env_total env \<longleftrightarrow> (\<forall>c. cluster_scope env c \<noteq> None) \<and> (\<forall>m. en_Marshal env m \<noteq> None)
     \<and> (\<forall>c ns sel w. fst (api_ListEF (en_Api env) c ns sel w) \<noteq> None)"

definition tc_complete :: "TrafficConfig \<Rightarrow> bool" where
  "tc_complete tc \<longleftrightarrow> tc_EdgeService tc \<noteq> None \<and> tc_QuotaGroup tc \<noteq> None"

lemma rate_limit_cluster_returns:
  fixes st :: "('cc, 'w) system"
  assumes "env_total env" "tc_complete tc"
  shows "\<exists>st'. rate_limit_cluster env tc ev c st = Some st'"
proof -
  obtain allowed where scope: "cluster_scope env c = Some allowed" using assms(1) by (fastforce simp: env_total_def)
  obtain qg where qg: "tc_QuotaGroup tc = Some qg" using assms(2) by (auto simp: tc_complete_def)
  have marshal: "en_Marshal env = (\<lambda>m. Some (the (en_Marshal env m)))" using assms(1) by (auto simp: env_total_def fun_eq_iff)
  have list: "\<exists>fs. fst (listRateLimitingFilters env rc tc (sy_World st)) = Some fs" for rc :: "'cc RemoteCluster"
    using assms(1) by (auto simp: env_total_def listRateLimitingFilters_def ListEnvoyFilters_def)
  have "\<exists>st'. createRateLimitingFilters env rc tc st = Some st'" for rc :: "'cc RemoteCluster"
  proof -
    let ?req = "map (with_version env (GetClusterID rc) (sy_World st)) (wanted_filters env st tc (GetClusterID rc))"
    obtain fs where fs: "fst (listRateLimitingFilters env rc tc (sy_World st)) = Some fs" using list by blast
    have ann: "\<forall>f \<in> set ?req. ef_Annotations f \<noteq> None" using wanted_props by (fastforce simp: with_version_props)
    obtain e w' where "ApplyEnvoyFilters (en_Api env) (GetClusterID rc) ?req fs (sy_World st) = Some (e, w')"
      using apply_returns [OF ann, of "en_Api env" "GetClusterID rc" fs "sy_World st"] by blast
    then show ?thesis using requested_wanted [OF qg marshal, of st rc] fs by (simp add: createRateLimitingFilters_def)
  qed
  moreover have "\<exists>st'. do {
             filterList \<leftarrow> fst (listRateLimitingFilters env rc tc (sy_World st));
             let (err, w) = DeleteEnvoyFilters (en_Api env) (GetClusterID rc) filterList (sy_World st);
             Some (st\<lparr>sy_World := w\<rparr>)
           } = Some st'" for rc :: "'cc RemoteCluster"
  proof -
    obtain fs where "fst (listRateLimitingFilters env rc tc (sy_World st)) = Some fs" using list by blast
    then show ?thesis by (simp add: Let_def split: prod.split)
  qed
  ultimately show ?thesis
    using scope by (auto simp: rate_limit_cluster_def split: option.split)
qed

lemma HandleRateLimiter_returns:
  assumes "env_total env" "tc_complete tc"
  shows "\<exists>st'. HandleRateLimiter env tc ev st = Some st'"
  using foreach_returns [where P = "\<lambda>_. True" and f = "rate_limit_cluster env tc ev"] rate_limit_cluster_returns [OF assms]
  by (fastforce simp: HandleRateLimiter_def Let_def)

lemma write_returns:
  assumes "vs_Annotations vs \<noteq> None"
  shows "\<exists>s'. createUpdateDeleteVirtualServices env rc tc (vs, w) = Some s' \<and> vs_Annotations (fst s') \<noteq> None"
  using assms
  by (auto simp: createUpdateDeleteVirtualServices_def UpdateVirtualService_def CreateVirtualService_def stamp_def
      Let_def split: prod.split option.split)

lemma HandleVirtualService_returns:
  fixes st :: "('cc, 'w) system"
  assumes "env_total env" "tc_complete tc" "ctx_Context ctx"
  shows "\<exists>st'. HandleVirtualServiceForTrafficConfig env ctx tc st = Some st'"
proof -
  obtain es where es: "tc_EdgeService tc = Some es" using assms(2) by (auto simp: tc_complete_def)
  have "\<exists>t. foreach (virtual_service_cluster env (sy_Registry st) tc) m (vs, w) = Some t \<and> vs_Annotations (fst t) \<noteq> None"
    if "vs_Annotations vs \<noteq> None" for m vs w
  proof (rule foreach_returns)
    show "vs_Annotations (fst (vs, w)) \<noteq> None" using that by simp
    fix x :: "string \<times> string" and s :: "VirtualService \<times> 'w"
    assume s: "vs_Annotations (fst s) \<noteq> None"
    obtain c d where x: "x = (c, d)" by fastforce
    obtain v u where v: "s = (v, u)" by fastforce
    obtain allowed where "cluster_scope env c = Some allowed" using assms(1) by (fastforce simp: env_total_def)
    then show "\<exists>s'. virtual_service_cluster env (sy_Registry st) tc x s = Some s' \<and> vs_Annotations (fst s') \<noteq> None"
      using s write_returns [of v] by (auto simp: virtual_service_cluster_def x v split: option.split)
  qed
  note loop = this
  have ann: "vs_Annotations vs \<noteq> None"
    if "buildVirtualServiceForMeshDependents (en_Ext env) (en_Params env) tc = Inr vs" for vs
    by (rule build_cases [OF that es]) (simp add: buildVirtualServiceObject_def)
  have "\<exists>m. dependentClusters (en_Params env) (sy_IdentityCluster st) ctx deps = Some m" for deps
    unfolding dependentClusters_def
    using foreach_returns [where P = "\<lambda>_. True" and xs = deps and s = "[]" and f = "\<lambda>depIdentity m.
       if IsAssetIgnored (en_Params env) depIdentity then Some m
       else if \<not> ctx_Context ctx then None
       else (let sourceIdentity = source_of ctx in
         if length sourceIdentity > 0 \<and> sourceIdentity \<noteq> depIdentity then Some m
         else Some (fold (\<lambda>cluster m. gm_put cluster cluster m)
           (GetClustersForIdentity (sy_IdentityCluster st) depIdentity) m))"] assms(3)
    by (auto simp: Let_def)
  then obtain m where m: "dependentClusters (en_Params env) (sy_IdentityCluster st) ctx
      (GetDependentsForIdentity (sy_IdentityDependency st) (TC_GetIdentity (en_Params env) tc)) = Some m" by blast
  show ?thesis
  proof (cases "buildVirtualServiceForMeshDependents (en_Ext env) (en_Params env) tc")
    case (Inl e)
    with m show ?thesis
      by (simp add: HandleVirtualServiceForTrafficConfig_def handleVirtualServiceForMeshDependents_def Let_def)
  next
    case (Inr vs)
    obtain t where "foreach (virtual_service_cluster env (sy_Registry st) tc) m (vs, sy_World st) = Some t"
      using loop [OF ann [OF Inr], of m "sy_World st"] by blast
    with m Inr show ?thesis
      by (cases t) (simp add: HandleVirtualServiceForTrafficConfig_def handleVirtualServiceForMeshDependents_def Let_def)
  qed
qed

lemma run_features_returns:
  assumes "env_total env" "tc_complete tc" "ctx_Log ctx"
  shows "\<exists>st'. run_features env ctx tc ev st = Some st'"
proof -
  obtain st1 where "(if IsFeatureEnabled (en_Params env) FeatureThrottleFilter
      then logged ctx (HandleRateLimiter env tc ev st) else Some st) = Some st1"
    using HandleRateLimiter_returns [OF assms(1,2), of ev st] assms(3)
    by (cases "IsFeatureEnabled (en_Params env) FeatureThrottleFilter") auto
  moreover have "\<exists>st'. HandleVirtualServiceForTrafficConfig env (feature_context ctx) tc st1 = Some st'"
    by (rule HandleVirtualService_returns [OF assms(1,2)]) (simp add: feature_context_def NewContextWithLogger_def)
  ultimately show ?thesis using assms(3) by (auto simp: run_features_def)
qed

lemma logged_returns [simp]: "ctx_Log ctx \<Longrightarrow> event_returns (logged ctx k) = event_returns k"
  by simp

text \<open>The handlers return on complete traffic configs, and triggering returns when the cached ones are complete.\<close>

lemma process_returns:
  assumes "env_total env" "tc_complete tc" "ctx_Log ctx" "chan_open c cs"
  shows "event_returns (process_traffic_config env ctx tc ev (Some c) (st, cs))"
  using run_features_returns [OF assms(1-3), of ev st] assms(3,4) by (auto simp: process_traffic_config_def)

lemma Updated_returns:
  assumes "env_total env" "\<forall>tc. as_TrafficConfig new = Some tc \<longrightarrow> tc_complete tc" "ctx_Log ctx" "chan_open c cs"
  shows "event_returns (TrafficConfig_Updated env ctx new old (Some c) (st, cs))"
  using assms(2) process_returns [OF assms(1) _ assms(3,4)] assms(3,4)
  by (auto simp: TrafficConfig_Updated_def split: option.split)

lemma Added_returns:
  assumes "env_total env" "\<forall>tc. as_TrafficConfig obj = Some tc \<longrightarrow> tc_complete tc" "ctx_Log ctx" "chan_open c cs"
  shows "event_returns (TrafficConfig_Added env ctx obj (Some c) (st, cs))"
  using assms(2) process_returns [OF assms(1) _ assms(3,4)] assms(3,4)
  by (auto simp: TrafficConfig_Added_def split: option.split)

lemma Deleted_returns:
  assumes "env_total env" "\<forall>tc. as_TrafficConfig obj = Some tc \<longrightarrow> tc_complete tc" "ctx_Log ctx" "chan_open c cs"
  shows "event_returns (TrafficConfig_Deleted env ctx obj (Some c) (st, cs))"
  using assms(2) process_returns [OF assms(1) _ assms(3,4)] assms(3,4)
  by (auto simp: TrafficConfig_Deleted_def split: option.split)

definition cache_complete :: "tc_cache \<Rightarrow> bool" where
  "cache_complete tcs \<longleftrightarrow> (\<forall>i e. TCCache_GetTrafficConfigEntry tcs i = Some e
     \<longrightarrow> (\<forall>x \<in> set (tce_EnvTrafficConfig e). tc_complete (snd x)))"

lemma trigger_one_returns:
  assumes "env_total env" "tc_complete tc" "ctx_Log ctx" "chan_open c cs"
  shows "\<exists>s'. trigger_traffic_config env ctx src (Some c) tc (st, cs) = Some s'"
proof -
  obtain cs1 child where child:
    "CreateChildEvent NewEventProcessStatus ctx (Some TrafficConfig_OnStatus) (Some c) cs = Some (NewContextWithLogger, Some child, cs1)"
    "chan_open child cs1" by (rule spawned_child [OF assms(4,3)])
  define childCtx where "childCtx = (case src of None \<Rightarrow> NewContextWithLogger
    | Some i \<Rightarrow> NewContextWithLogger\<lparr>ctx_SourceIdentity := Some i\<rparr>)"
  have ctx: "ctx_Log childCtx" by (simp add: childCtx_def NewContextWithLogger_def split: option.split)
  have src: "(case src of None \<Rightarrow> Some NewContextWithLogger
       | Some identity \<Rightarrow> if ctx_Context NewContextWithLogger then Some (NewContextWithLogger\<lparr>ctx_SourceIdentity := Some identity\<rparr>) else None)
      = Some childCtx" by (simp add: childCtx_def NewContextWithLogger_def split: option.split)
  obtain status st' cs' where
    "TrafficConfig_Updated env childCtx (Some (ObjTrafficConfig tc)) None (Some child) (st, cs1) = Some (status, st', cs')"
    using Updated_returns [OF assms(1) _ ctx child(2), of "Some (ObjTrafficConfig tc)" None st] assms(2)
    by (auto simp: event_returns_Some)
  then show ?thesis by (simp add: trigger_traffic_config_def child(1) src ctx)
qed

lemma trigger_entry_returns:
  fixes st :: "('cc, 'w) system"
  assumes "env_total env" "cache_complete (sy_TrafficConfigs st)" "ctx_Log ctx" "trigger_effect c (st, cs) s"
  shows "\<exists>s'. trigger_entry env ctx src (Some c) owner s = Some s' \<and> trigger_effect c (st, cs) s'"
proof -
  obtain st1 cs1 where s: "s = (st1, cs1)" by fastforce
  have tcs: "sy_TrafficConfigs st1 = sy_TrafficConfigs st"
  proof -
    have "st1 = st\<lparr>sy_World := sy_World st1\<rparr>" using assms(4) s by (simp add: trigger_effect_def only_world_def)
    then have "sy_TrafficConfigs st1 = sy_TrafficConfigs (st\<lparr>sy_World := sy_World st1\<rparr>)" by (rule arg_cong)
    then show ?thesis by simp
  qed
  have "\<exists>s'. trigger_entry env ctx src (Some c) owner s = Some s'"
  proof (cases "TCCache_GetTrafficConfigEntry (sy_TrafficConfigs st) owner")
    case None
    then show ?thesis by (simp add: s tcs trigger_entry_def)
  next
    case (Some e)
    have "\<exists>t. foreach (\<lambda>(we, tc). trigger_traffic_config env ctx src (Some c) tc) (tce_EnvTrafficConfig e) s = Some t
        \<and> chan_open c (snd t)"
    proof (rule foreach_returns)
      show "chan_open c (snd s)" using trigger_effect_open [OF assms(4)] .
      fix x :: "string \<times> TrafficConfig" and u :: "('cc, 'w) system \<times> chans"
      assume x: "x \<in> set (tce_EnvTrafficConfig e)" and u: "chan_open c (snd u)"
      obtain a tc where a: "x = (a, tc)" by fastforce
      obtain v w where v: "u = (v, w)" by fastforce
      have "tc_complete tc" using assms(2) Some x a by (fastforce simp: cache_complete_def)
      then obtain s' where "trigger_traffic_config env ctx src (Some c) tc u = Some s'"
        using trigger_one_returns [OF assms(1) _ assms(3)] u v by fastforce
      moreover have "chan_open c (snd s')"
      proof (rule trigger_effect_open)
        obtain v' w' where "s' = (v', w')" by fastforce
        with calculation u v show "trigger_effect c u s'"
          using trigger_one_effect [of env ctx src c tc v w v' w'] by (simp add: trigger_effect_def)
      qed
      ultimately show "\<exists>s'. (case x of (we, tc) \<Rightarrow> trigger_traffic_config env ctx src (Some c) tc) u = Some s' \<and> chan_open c (snd s')"
        by (simp add: a)
    qed
    then show ?thesis using Some by (auto simp: s tcs trigger_entry_def)
  qed
  then obtain s' where "trigger_entry env ctx src (Some c) owner s = Some s'" by blast
  with trigger_entry_effect [OF this trigger_effect_open [OF assms(4)]] trigger_effect_trans [OF assms(4)] show ?thesis by blast
qed

lemma Trigger_returns:
  assumes "env_total env" "cache_complete (sy_TrafficConfigs st)" "ctx_Log ctx" "trigger_effect c (st, cs) s"
  shows "\<exists>s'. TriggerTrafficConfigHandlerForIdentity env ctx identity (Some c) s = Some s' \<and> trigger_effect c (st, cs) s'"
proof -
  obtain s1 where s1: "trigger_entry env ctx None (Some c) identity s = Some s1" "trigger_effect c (st, cs) s1"
    using trigger_entry_returns [OF assms] by blast
  have "\<exists>t. foreach (trigger_entry env ctx (Some identity) (Some c))
      (GetDependentsForIdentity (sy_IdentityDependency (fst s1)) identity) s1 = Some t \<and> trigger_effect c (st, cs) t"
    by (rule foreach_returns [where P = "trigger_effect c (st, cs)"]) (rule s1(2) trigger_entry_returns [OF assms(1-3)], assumption?)+
  then show ?thesis using s1(1) assms(3)
    by (cases s1) (auto simp: TriggerTrafficConfigHandlerForIdentity_def)
qed

subsection \<open>The handler keeps its contract\<close>

definition traffic_config_delegator :: "'w environment \<Rightarrow> (k8s_object option, ('cc, 'w) system) delegator" where
  "traffic_config_delegator env =
     handler_delegator (TrafficConfig_Added env) (TrafficConfig_Updated env) (TrafficConfig_Deleted env)"

lemma only_world_steps: "only_world st st' \<Longrightarrow> state_steps p st st'"
  unfolding only_world_def by (metis one_step state_step.world)

lemma event_ok_logged: "event_ok p c st cs k \<Longrightarrow> event_ok p c st cs (logged ctx k)"
  by (simp add: logged_def)

lemma event_ok_process:
  assumes "chan_open c cs" "state_steps p st st1"
  shows "event_ok p c st cs (process_traffic_config env ctx tc ev (Some c) (st1, cs))"
proof (cases "process_traffic_config env ctx tc ev (Some c) (st1, cs)")
  case (Some r)
  obtain status st' cs' where r: "r = (status, st', cs')" by (cases r) auto
  from process_effect [OF Some [unfolded r] assms(1)] show ?thesis
    using settled_close [OF assms(1)] steps_trans [OF assms(2) only_world_steps] by (auto simp: event_ok_def Some r)
qed simp

lemma event_ok_triggered:
  assumes "trigger_effect c (st1, cs) (st2, cs2)" "state_steps p st st1"
  shows "event_ok p c st cs (finish (Some c) st2 cs2)"
proof (rule event_ok_finish)
  show "spawned c cs cs2" using assms(1) by (simp add: trigger_effect_def)
  show "state_steps p st st2" using assms(1) steps_trans [OF assms(2) only_world_steps] by (simp add: trigger_effect_def)
qed

lemma event_ok_trigger:
  assumes "chan_open c cs" "state_steps p st st1"
  shows "event_ok p c st cs (Option.bind (TriggerTrafficConfigHandlerForIdentity env ctx identity (Some c) (st1, cs))
    (\<lambda>(st2, cs2). finish (Some c) st2 cs2))"
proof (cases "TriggerTrafficConfigHandlerForIdentity env ctx identity (Some c) (st1, cs)")
  case (Some s)
  then have "trigger_effect c (st1, cs) s" using Trigger_effect assms(1) by fastforce
  with Some show ?thesis by (cases s) (simp add: event_ok_triggered [OF _ assms(2)])
qed simp

lemma event_ok_trigger_loop:
  assumes "chan_open c cs" "state_steps p st st1"
  shows "event_ok p c st cs (Option.bind (foreach (\<lambda>(i, _). TriggerTrafficConfigHandlerForIdentity env ctx i (Some c)) is (st1, cs))
    (\<lambda>(st2, cs2). finish (Some c) st2 cs2))"
proof (cases "foreach (\<lambda>(i, _). TriggerTrafficConfigHandlerForIdentity env ctx i (Some c)) is (st1, cs)")
  case (Some s)
  then have "trigger_effect c (st1, cs) s"
    by (rule trigger_loop) (use assms(1) in \<open>auto intro: Trigger_effect\<close>)
  with Some show ?thesis by (cases s) (simp add: event_ok_triggered [OF _ assms(2)])
qed simp

lemma event_ok_Added: "chan_open c cs \<Longrightarrow> event_ok (en_Params env) c st cs (TrafficConfig_Added env ctx obj (Some c) (st, cs))"
  by (auto simp: TrafficConfig_Added_def intro!: event_ok_logged event_ok_now event_ok_process steps_intros split: option.split)

lemma event_ok_Updated: "chan_open c cs \<Longrightarrow> event_ok (en_Params env) c st cs (TrafficConfig_Updated env ctx new old (Some c) (st, cs))"
  by (auto simp: TrafficConfig_Updated_def intro!: event_ok_logged event_ok_now event_ok_process split: option.split)

lemma event_ok_Deleted: "chan_open c cs \<Longrightarrow> event_ok (en_Params env) c st cs (TrafficConfig_Deleted env ctx obj (Some c) (st, cs))"
  by (auto simp: TrafficConfig_Deleted_def intro!: event_ok_logged event_ok_now event_ok_process steps_intros split: option.split)

interpretation tc_handler: event_handler "traffic_config_delegator env" "system_inv (en_Params env)"
  unfolding traffic_config_delegator_def
  by (rule event_handler_intro) (rule event_ok_Added event_ok_Updated event_ok_Deleted, assumption)+

text \<open>What it is safe to hand to a handler: traffic configs that are complete, and caches that hold only such.\<close>

definition safe_event :: "'w environment \<Rightarrow> ('cc, 'w) system \<Rightarrow> k8s_object option item \<Rightarrow> bool" where
  "safe_event env st it \<longleftrightarrow> env_total env \<and> cache_complete (sy_TrafficConfigs st)
     \<and> (\<forall>tc. as_TrafficConfig (it_obj it) = Some tc \<longrightarrow> tc_complete tc)"

interpretation tc_return: returning_handler "traffic_config_delegator env" "system_inv (en_Params env)" "safe_event env"
proof
  fix it and cs and st
  assume c: "chan_open (it_statusChan it) cs" and safe: "safe_event env st it"
  have total: "env_total env" and complete: "\<forall>tc. as_TrafficConfig (it_obj it) = Some tc \<longrightarrow> tc_complete tc"
    and logger: "ctx_Log NewContextWithLogger"
    using safe by (simp_all add: safe_event_def NewContextWithLogger_def)
  show "dispatch (traffic_config_delegator env) it (st, cs) \<noteq> None"
    unfolding traffic_config_delegator_def
  proof (rule dispatch_returns)
    show "event_returns (TrafficConfig_Added env NewContextWithLogger (it_obj it) (Some (it_statusChan it)) (st, cs))"
      by (rule Added_returns [OF total complete logger c])
    show "event_returns (TrafficConfig_Updated env NewContextWithLogger (it_obj it) old (Some (it_statusChan it)) (st, cs))" for old
      by (rule Updated_returns [OF total complete logger c])
    show "event_returns (TrafficConfig_Deleted env NewContextWithLogger (it_obj it) (Some (it_statusChan it)) (st, cs))"
      by (rule Deleted_returns [OF total complete logger c])
  qed
qed

text \<open>The last steps of the handlers that trigger.\<close>

lemma triggered_returns:
  assumes "env_total env" "cache_complete (sy_TrafficConfigs st)" "ctx_Log ctx" "chan_open c cs"
  shows "event_returns (Option.bind (TriggerTrafficConfigHandlerForIdentity env ctx identity (Some c) (st, cs))
    (\<lambda>(st2, cs2). finish (Some c) st2 cs2))"
proof -
  have "trigger_effect c (st, cs) (st, cs)" using assms(4) by (simp add: trigger_effect_def spawned_refl)
  then obtain s' where s': "TriggerTrafficConfigHandlerForIdentity env ctx identity (Some c) (st, cs) = Some s'"
    "trigger_effect c (st, cs) s'" using Trigger_returns [OF assms(1-3)] by blast
  then show ?thesis using trigger_effect_open [OF s'(2)] by (cases s') simp
qed

lemma triggered_loop_returns:
  assumes "env_total env" "cache_complete (sy_TrafficConfigs st)" "ctx_Log ctx" "chan_open c cs"
  shows "event_returns (Option.bind (foreach (\<lambda>(i, _). TriggerTrafficConfigHandlerForIdentity env ctx i (Some c)) is (st, cs))
    (\<lambda>(st2, cs2). finish (Some c) st2 cs2))"
proof -
  have "\<exists>t. foreach (\<lambda>(i, _). TriggerTrafficConfigHandlerForIdentity env ctx i (Some c)) is (st, cs) = Some t
      \<and> trigger_effect c (st, cs) t"
  proof (rule foreach_returns [where P = "trigger_effect c (st, cs)"])
    show "trigger_effect c (st, cs) (st, cs)" using assms(4) by (simp add: trigger_effect_def spawned_refl)
    show "\<exists>s'. (case x of (i, _) \<Rightarrow> TriggerTrafficConfigHandlerForIdentity env ctx i (Some c)) s = Some s'
        \<and> trigger_effect c (st, cs) s'" if "trigger_effect c (st, cs) s" for x s
      using Trigger_returns [OF assms(1-3) that] by (simp split: prod.split)
  qed
  then obtain s' where s': "foreach (\<lambda>(i, _). TriggerTrafficConfigHandlerForIdentity env ctx i (Some c)) is (st, cs) = Some s'"
    "trigger_effect c (st, cs) s'" by blast
  then show ?thesis using trigger_effect_open [OF s'(2)] by (cases s') simp
qed

end
