(* ===== verification/ApiWrites.thy ===== *)
theory ApiWrites
  imports TrafficConfigHandler
begin

text \<open>
  What the features may write: a predicate on the API servers that every write of envoy filters to an
  allowed cluster keeps is kept by the rate limit handler, and likewise for virtual services.  With it,
  the two features do not disturb each other's objects, and clusters out of reach are left alone.
\<close>

definition ef_writes_keep :: "'w istio_api \<Rightarrow> (string \<Rightarrow> bool) \<Rightarrow> ('w \<Rightarrow> bool) \<Rightarrow> bool" where
  "ef_writes_keep api allowed P \<longleftrightarrow> (\<forall>c ns w. allowed c \<and> P w \<longrightarrow>
     (\<forall>f. P (snd (api_CreateEF api c ns f w)) \<and> P (snd (api_UpdateEF api c ns f w)))
     \<and> (\<forall>n. P (snd (api_DeleteEF api c ns n w))))"

definition vs_writes_keep :: "'w istio_api \<Rightarrow> (string \<Rightarrow> bool) \<Rightarrow> ('w \<Rightarrow> bool) \<Rightarrow> bool" where
  "vs_writes_keep api allowed P \<longleftrightarrow> (\<forall>c ns w. allowed c \<and> P w \<longrightarrow>
     (\<forall>v. P (snd (api_CreateVS api c ns v w)) \<and> P (snd (api_UpdateVS api c ns v w)))
     \<and> (\<forall>n. P (snd (api_DeleteVS api c ns n w))))"

lemma ef_writes_keepD:
  assumes "ef_writes_keep api allowed P" "allowed c" "P w"
  shows "P (snd (api_CreateEF api c ns f w))" "P (snd (api_UpdateEF api c ns f w))" "P (snd (api_DeleteEF api c ns n w))"
  using assms by (simp_all add: ef_writes_keep_def)

lemma vs_writes_keepD:
  assumes "vs_writes_keep api allowed P" "allowed c" "P w"
  shows "P (snd (api_CreateVS api c ns v w))" "P (snd (api_UpdateVS api c ns v w))" "P (snd (api_DeleteVS api c ns n w))"
  using assms by (simp_all add: vs_writes_keep_def)

subsection \<open>Envoy filters\<close>

lemma Create_all_keeps:
  assumes "ef_writes_keep api allowed P" "allowed c" "CreateEnvoyFilters api c fs w = Some (e, w')" "P w"
  shows "P w'"
proof -
  have "P (snd (e, w'))"
    by (rule foreach_invariant [where P = "\<lambda>s. P (snd s)", OF assms(3) [unfolded CreateEnvoyFilters_def]])
      (use assms(4) ef_writes_keepD(1) [OF assms(1,2)] in
        \<open>auto simp: CreateEnvoyFilter_def split: if_splits bind_splits prod.splits, metis snd_conv\<close>)
  then show ?thesis by simp
qed

lemma Update_all_keeps:
  assumes "ef_writes_keep api allowed P" "allowed c" "UpdateEnvoyFilters api c fs w = Some (e, w')" "P w"
  shows "P w'"
proof -
  have "P (snd (e, w'))"
    by (rule foreach_invariant [where P = "\<lambda>s. P (snd s)", OF assms(3) [unfolded UpdateEnvoyFilters_def]])
      (use assms(4) ef_writes_keepD(2) [OF assms(1,2)] in
        \<open>auto simp: UpdateEnvoyFilter_def split: if_splits bind_splits prod.splits, metis snd_conv\<close>)
  then show ?thesis by simp
qed

lemma Delete_all_keeps:
  assumes "ef_writes_keep api allowed P" "allowed c" "P w"
  shows "P (snd (DeleteEnvoyFilters api c fs w))"
proof -
  have "P (snd (fold (\<lambda>f (errorList, w).
       (let (e, w') = DeleteEnvoyFilter api c (ef_Name f) (ef_Namespace f) w in (errorList, w'))) fs s))"
    if "P (snd s)" for s :: "string option \<times> 'a"
    using that
  proof (induction fs arbitrary: s)
    case (Cons f fs)
    obtain e u where s: "s = (e, u)" by fastforce
    have "P (snd (api_DeleteEF api c (ef_Namespace f) (ef_Name f) u))"
      using ef_writes_keepD(3) [OF assms(1,2)] Cons.prems by (simp add: s)
    then show ?case using Cons.IH by (auto simp: s DeleteEnvoyFilter_def Let_def split: prod.splits)
  qed simp
  from this [of "(None, w)"] assms(3) show ?thesis by (simp add: DeleteEnvoyFilters_def)
qed

lemma Apply_keeps:
  assumes "ef_writes_keep api allowed P" "allowed c" "ApplyEnvoyFilters api c req ex w = Some (e, w')" "P w"
  shows "P w'"
proof -
  define us where "us = (if length req > 0 then filter (\<lambda>f. checkIfPresent f ex) req else [])"
  define cs where "cs = (if length req > 0 then filter (\<lambda>f. \<not> checkIfPresent f ex) req else [])"
  define ds where "ds = (if length req > 0 then filter (\<lambda>f. \<not> checkIfPresent f req) ex else ex)"
  obtain e1 w1 e2 w2 where
    s: "(if length cs > 0 then CreateEnvoyFilters api c cs w else Some (None, w)) = Some (e1, w1)"
      "(if length us > 0 then UpdateEnvoyFilters api c us w1 else Some (None, w1)) = Some (e2, w2)"
      "w' = snd (if length ds > 0 then DeleteEnvoyFilters api c ds w2 else (None, w2))"
    using assms(3) unfolding ApplyEnvoyFilters_def Let_def us_def [symmetric] cs_def [symmetric] ds_def [symmetric]
    by (fastforce simp del: length_greater_0_conv split: bind_splits prod.splits)
  have "P w1" using s(1) Create_all_keeps [OF assms(1,2)] assms(4) by (auto split: if_splits)
  then have "P w2" using s(2) Update_all_keeps [OF assms(1,2)] by (auto split: if_splits)
  then show ?thesis using s(3) Delete_all_keeps [OF assms(1,2)] by (auto split: if_splits)
qed

lemma rate_limit_cluster_keeps:
  assumes "ef_writes_keep (en_Api env) (reachable_cluster env reg) P" "reg_ok reg" "sy_Registry st = reg" "ToLower c = c"
    and "rate_limit_cluster env tc ev c st = Some st'" "P (sy_World st)"
  shows "P (sy_World st')"
proof (cases "reachable_cluster env reg c")
  case False
  then have "st' = st"
    using assms(3,5) by (auto simp: rate_limit_cluster_def reachable_cluster_def split: bind_splits if_splits option.splits)
  with assms(6) show ?thesis by simp
next
  case True
  then obtain rc where rc: "RC_GetCluster (reg_clusters reg) c = Some rc" "cluster_scope env c = Some True"
    by (auto simp: reachable_cluster_def)
  have id: "GetClusterID rc = c" using RC_Get_id [OF assms(2) rc(1)] assms(4) by simp
  note del = Delete_all_keeps [OF assms(1) True assms(6)]
  show ?thesis
  proof (cases "TC_IsDisabled tc \<or> ev = Delete")
    case True
    then obtain fs e w where "DeleteEnvoyFilters (en_Api env) c fs (sy_World st) = (e, w)" "st' = st\<lparr>sy_World := w\<rparr>"
      using assms(3,5) rc id by (auto simp: rate_limit_cluster_def Let_def split: bind_splits prod.splits)
    with del [of fs] show ?thesis by simp
  next
    case False
    then obtain req ex e w where "ApplyEnvoyFilters (en_Api env) c req ex (sy_World st) = Some (e, w)" "sy_World st' = w"
      using assms(3,5) rc id by (auto simp: rate_limit_cluster_def createRateLimitingFilters_def split: bind_splits prod.splits)
    with Apply_keeps [OF assms(1) True] assms(6) show ?thesis by blast
  qed
qed

lemma only_world_registry: "only_world st st' \<Longrightarrow> sy_Registry st' = sy_Registry st"
  unfolding only_world_def by (metis system.select_convs(7) system.surjective system.update_convs(9))

lemma only_world_lease: "only_world st st' \<Longrightarrow> sy_Lease st' = sy_Lease st"
  unfolding only_world_def by (metis system.select_convs(8) system.surjective system.update_convs(9))

lemma HandleRateLimiter_keeps:
  assumes keep: "ef_writes_keep (en_Api env) (reachable_cluster env (sy_Registry st)) P" and ok: "system_ok (en_Params env) st"
    and run: "HandleRateLimiter env tc ev st = Some st'" and P: "P (sy_World st)"
  shows "P (sy_World st')"
proof -
  have reg: "reg_ok (sy_Registry st)" using ok by (simp add: system_ok_def)
  let ?cs = "GetClustersForIdentity (sy_IdentityCluster st) (TC_GetIdentity (en_Params env) tc)"
  let ?I = "\<lambda>s. only_world st s \<and> P (sy_World s)"
  show ?thesis
  proof (cases "?cs = []")
    case True
    with run P show ?thesis by (simp add: HandleRateLimiter_def Let_def)
  next
    case False
    with run have "foreach (rate_limit_cluster env tc ev) ?cs st = Some st'" by (simp add: HandleRateLimiter_def Let_def)
    then have "?I st'"
    proof (rule foreach_invariant)
      show "?I st" using P by simp
    next
      fix c s s'
      assume c: "c \<in> set ?cs" and s: "?I s" and step: "rate_limit_cluster env tc ev c s = Some s'"
      have "sy_Registry s = sy_Registry st" using s only_world_registry by blast
      then have "P (sy_World s')"
        using rate_limit_cluster_keeps [OF keep reg _ targets_of_identity(2) [OF ok c] step] s by simp
      moreover have "only_world st s'" using s step only_world_trans rate_limit_cluster_world by blast
      ultimately show "?I s'" by simp
    qed
    then show ?thesis by simp
  qed
qed

subsection \<open>Virtual services\<close>

lemma write_cluster_keeps:
  assumes "vs_writes_keep (en_Api env) allowed P" "allowed (GetClusterID rc)"
    and "createUpdateDeleteVirtualServices env rc tc (vs, w) = Some (vs', w')" "P w"
  shows "P w'"
proof -
  let ?c = "GetClusterID rc"
  have create: "P u" if "CreateVirtualService (en_Api env) ?c v w = Some (r, v', u)" for v r v' u
    using that vs_writes_keepD(1) [OF assms(1,2,4)]
    by (auto simp: CreateVirtualService_def Let_def split: if_splits prod.splits) (metis snd_conv)
  have update: "P u" if "UpdateVirtualService (en_Api env) ?c v w = Some (r, v', u)" for v r v' u
    using that vs_writes_keepD(2) [OF assms(1,2,4)]
    by (auto simp: UpdateVirtualService_def Let_def split: if_splits prod.splits) (metis snd_conv)
  have delete: "P (snd (DeleteVirtualService (en_Api env) ?c n ns w))" for n ns
    using vs_writes_keepD(3) [OF assms(1,2,4)] by (simp add: DeleteVirtualService_def)
  show ?thesis
  proof (cases "TC_IsDisabled tc")
    case True
    with assms(3) have "w' = snd (DeleteVirtualService (en_Api env) ?c (vs_Name vs) (SyncNamespace (en_Params env)) w)"
      by (auto simp: createUpdateDeleteVirtualServices_def Let_def split: prod.splits)
    with delete show ?thesis by simp
  next
    case False
    with assms(3) create update show ?thesis
      by (auto simp: createUpdateDeleteVirtualServices_def Let_def split: prod.splits option.splits bind_splits)
  qed
qed

lemma virtual_service_cluster_keeps:
  assumes "vs_writes_keep (en_Api env) (reachable_cluster env reg) P" "reg_ok reg" "ToLower c = c"
    and "virtual_service_cluster env reg tc (c, d) (vs, w) = Some (vs', w')" "P w"
  shows "P w'"
proof (cases "reachable_cluster env reg c")
  case False
  then have "w' = w"
    using assms(4) by (auto simp: virtual_service_cluster_def reachable_cluster_def split: bind_splits if_splits option.splits)
  with assms(5) show ?thesis by simp
next
  case True
  then obtain rc where rc: "RC_GetCluster (reg_clusters reg) c = Some rc" "cluster_scope env c = Some True"
    by (auto simp: reachable_cluster_def)
  have "GetClusterID rc = c" using RC_Get_id [OF assms(2) rc(1)] assms(3) by simp
  with rc assms(4) True write_cluster_keeps [OF assms(1) _ _ assms(5), of rc tc vs vs' w'] show ?thesis
    by (simp add: virtual_service_cluster_def)
qed

text \<open>Whatever the context filters, the clusters written to are clusters of identities.\<close>

lemma dependentClusters_lower:
  assumes "sm_ok ic" "dependentClusters p ic ctx deps = Some m"
  shows "\<forall>c \<in> fst ` set m. ToLower c = c"
proof (rule foreach_invariant [where P = "\<lambda>m :: (string, string) gomap. \<forall>c \<in> fst ` set m. ToLower c = c",
      OF assms(2) [unfolded dependentClusters_def]])
  have put: "\<forall>c \<in> fst ` set (fold (\<lambda>c m. gm_put c c m) cs s). ToLower c = c"
    if "\<forall>c \<in> set cs. ToLower c = c" "\<forall>c \<in> fst ` set s. ToLower c = c" for cs and s :: "(string, string) gomap"
    using that
  proof (induction cs arbitrary: s)
    case (Cons a cs)
    have "fst ` set (gm_put a a s) = insert a (fst ` set s)" by (simp add: gm_put_def dom_update)
    with Cons.IH [of "gm_put a a s"] Cons.prems show ?case by auto
  qed simp
  fix d and s s' :: "(string, string) gomap"
  assume s: "\<forall>c \<in> fst ` set s. ToLower c = c"
    and step: "(if IsAssetIgnored p d then Some s else if \<not> ctx_Context ctx then None
       else (let sourceIdentity = source_of ctx in
         if length sourceIdentity > 0 \<and> sourceIdentity \<noteq> d then Some s
         else Some (fold (\<lambda>cluster m. gm_put cluster cluster m) (GetClustersForIdentity ic d) s))) = Some s'"
  have low: "\<forall>c \<in> set (GetClustersForIdentity ic d). ToLower c = c" using id_cluster.items_lower [OF assms(1)] by blast
  from step have "s' = s \<or> s' = fold (\<lambda>c m. gm_put c c m) (GetClustersForIdentity ic d) s"
    by (simp add: Let_def split: if_splits)
  then show "\<forall>c \<in> fst ` set s'. ToLower c = c"
  proof
    assume "s' = s"
    with s show ?thesis by simp
  next
    assume "s' = fold (\<lambda>c m. gm_put c c m) (GetClustersForIdentity ic d) s"
    with put [OF low s] show ?thesis by simp
  qed
qed simp

lemma HandleVirtualService_keeps:
  assumes keep: "vs_writes_keep (en_Api env) (reachable_cluster env (sy_Registry st)) P" and ok: "system_ok (en_Params env) st"
    and run: "HandleVirtualServiceForTrafficConfig env ctx tc st = Some st'" and P: "P (sy_World st)"
  shows "P (sy_World st')"
proof -
  have reg: "reg_ok (sy_Registry st)" and sm: "sm_ok (sy_IdentityCluster st)" using ok by (simp_all add: system_ok_def)
  consider "st' = st" | m vs vs' w where
      "dependentClusters (en_Params env) (sy_IdentityCluster st) ctx
         (GetDependentsForIdentity (sy_IdentityDependency st) (TC_GetIdentity (en_Params env) tc)) = Some m"
      "foreach (virtual_service_cluster env (sy_Registry st) tc) m (vs, sy_World st) = Some (vs', w)" "sy_World st' = w"
    using run by (auto simp: HandleVirtualServiceForTrafficConfig_def handleVirtualServiceForMeshDependents_def Let_def
        split: if_splits bind_splits sum.splits prod.splits)
  then show ?thesis
  proof cases
    case 1
    with P show ?thesis by simp
  next
    case (2 m vs vs' w)
    have "P (snd (vs', w))"
    proof (rule foreach_invariant [where P = "\<lambda>s. P (snd s)", OF 2(2)])
      show "P (snd (vs, sy_World st))" using P by simp
      fix x s s'
      assume x: "x \<in> set m" and s: "P (snd s)" and step: "virtual_service_cluster env (sy_Registry st) tc x s = Some s'"
      obtain c d v u v' u' where eq: "x = (c, d)" "s = (v, u)" "s' = (v', u')" by (cases x, cases s, cases s') blast
      have "ToLower c = c" using dependentClusters_lower [OF sm 2(1)] x by (force simp: eq)
      then show "P (snd s')" using virtual_service_cluster_keeps [OF keep reg] step s by (simp add: eq)
    qed
    with 2(3) show ?thesis by simp
  qed
qed

text \<open>Both features.\<close>

lemma run_features_keeps:
  assumes "ef_writes_keep (en_Api env) (reachable_cluster env (sy_Registry st)) P"
    "vs_writes_keep (en_Api env) (reachable_cluster env (sy_Registry st)) P"
    and "system_ok (en_Params env) st" "run_features env ctx tc ev st = Some st'" "P (sy_World st)"
  shows "P (sy_World st')"
proof -
  obtain st1 where s1: "st1 = st \<or> HandleRateLimiter env tc ev st = Some st1"
    "st' = st1 \<or> HandleVirtualServiceForTrafficConfig env (feature_context ctx) tc st1 = Some st'"
    using assms(4) by (auto simp: run_features_def logged_Some split: if_splits bind_splits)
  have P1: "P (sy_World st1)" using s1(1) HandleRateLimiter_keeps [OF assms(1,3) _ assms(5)] assms(5) by auto
  have world: "only_world st st1" using s1(1) HandleRateLimiter_world by auto
  then have "system_ok (en_Params env) st1" "sy_Registry st1 = sy_Registry st"
    using assms(3) only_world_ok only_world_registry by auto
  then show ?thesis using s1(2) HandleVirtualService_keeps [of env st1 P] assms(2) P1 by auto
qed

end
