(* ===== verification/TrafficConfigEvents.thy ===== *)
theory TrafficConfigEvents
  imports ApiWrites
begin

text \<open>
  What the events of traffic configs achieve: the cache entry, the envoy filters and the virtual
  services together, and the events that are skipped.
\<close>

subsection \<open>Both features together\<close>

text \<open>
  Envoy filters and virtual services are objects of different kinds: a write of one kind leaves the
  stored objects of the other kind alone.
\<close>

definition kinds_apart :: "'w istio_api \<Rightarrow> ('w \<Rightarrow> object_key \<Rightarrow> EnvoyFilter option) \<Rightarrow> ('w \<Rightarrow> object_key \<Rightarrow> VirtualService option) \<Rightarrow> bool" where
  "kinds_apart api efs vss \<longleftrightarrow> (\<forall>x. ef_writes_keep api (\<lambda>_. True) (\<lambda>w. vss w = x))
     \<and> (\<forall>x. vs_writes_keep api (\<lambda>_. True) (\<lambda>w. efs w = x))"

lemma rate_limits_keep_vss:
  assumes "kinds_apart (en_Api env) efs vss" "system_ok (en_Params env) st" "HandleRateLimiter env tc ev st = Some st'"
  shows "vss (sy_World st') = vss (sy_World st)"
proof -
  have "ef_writes_keep (en_Api env) (reachable_cluster env (sy_Registry st)) (\<lambda>w. vss w = vss (sy_World st))"
    using assms(1) by (auto simp: kinds_apart_def ef_writes_keep_def)
  from HandleRateLimiter_keeps [OF this assms(2,3)] show ?thesis by simp
qed

lemma virtual_services_keep_efs:
  assumes "kinds_apart (en_Api env) efs vss" "system_ok (en_Params env) st"
    "HandleVirtualServiceForTrafficConfig env ctx tc st = Some st'"
  shows "efs (sy_World st') = efs (sy_World st)"
proof -
  have "vs_writes_keep (en_Api env) (reachable_cluster env (sy_Registry st)) (\<lambda>w. efs w = efs (sy_World st))"
    using assms(1) by (auto simp: kinds_apart_def vs_writes_keep_def)
  from HandleVirtualService_keeps [OF this assms(2,3)] show ?thesis by simp
qed

lemma feature_context_fields [simp]: "ctx_Context (feature_context ctx)" "source_of (feature_context ctx) = []"
  "ctx_Log (feature_context ctx) = ctx_Log ctx"
  by (simp_all add: feature_context_def NewContextWithLogger_def source_of_def)

text \<open>What handling a traffic config leaves: of its virtual service, under an order of the targets.\<close>

definition virtual_services_in_place ::
    "'w environment \<Rightarrow> TrafficConfig \<Rightarrow> ('cc, 'w) system \<Rightarrow> (object_key \<Rightarrow> VirtualService option)
       \<Rightarrow> (object_key \<Rightarrow> VirtualService option) \<Rightarrow> bool" where
  "virtual_services_in_place env tc st before after \<longleftrightarrow>
     (\<exists>vs order. buildVirtualServiceForMeshDependents (en_Ext env) (en_Params env) tc = Inr vs
        \<and> distinct order \<and> set order = virtual_service_targets env st tc
        \<and> (\<forall>us c rest. order = us @ c # rest \<longrightarrow>
              (if before (vs_key c vs) \<noteq> None \<or> (\<forall>u \<in> set us. before (vs_key u vs) = None)
               then \<exists>g. after (vs_key c vs) = Some g \<and> vs_applied vs g
               else after (vs_key c vs) = None))
        \<and> (\<forall>k. k \<notin> (\<lambda>c. vs_key c vs) ` virtual_service_targets env st tc \<longrightarrow> after k = before k))"

lemma write_in_place:
  assumes laws: "vs_laws (en_Api env) vss" and ok: "system_ok (en_Params env) st"
    and ctx: "ctx_Context ctx" "source_of ctx = []"
    and tc: "TC_GetEnv tc \<noteq> []" "\<not> TC_IsDisabled tc" "tc_EdgeService tc = Some es" "es_Routes es \<noteq> []"
    and scope: "\<forall>c. cluster_scope env c \<noteq> None"
  obtains st' where "HandleVirtualServiceForTrafficConfig env ctx tc st = Some st'" "only_world st st'"
    "virtual_services_in_place env tc st (vss (sy_World st)) (vss (sy_World st'))"
proof -
  obtain vs st' order where w: "buildVirtualServiceForMeshDependents (en_Ext env) (en_Params env) tc = Inr vs"
    "HandleVirtualServiceForTrafficConfig env ctx tc st = Some st'" "st' = st\<lparr>sy_World := sy_World st'\<rparr>"
    "distinct order \<and> set order = virtual_service_targets env st tc
    \<and> (\<forall>us c rest. order = us @ c # rest \<longrightarrow>
          (if vss (sy_World st) (vs_key c vs) \<noteq> None \<or> (\<forall>u \<in> set us. vss (sy_World st) (vs_key u vs) = None)
           then \<exists>g. vss (sy_World st') (vs_key c vs) = Some g \<and> vs_applied vs g
           else vss (sy_World st') (vs_key c vs) = None))
    \<and> (\<forall>k. k \<notin> (\<lambda>c. vs_key c vs) ` virtual_service_targets env st tc \<longrightarrow> vss (sy_World st') k = vss (sy_World st) k)"
    using write_virtual_services [OF laws ok ctx tc scope] by (elim exE conjE) (rule that; (intro conjI)?; assumption)
  show ?thesis
  proof (rule that [OF w(2)])
    show "only_world st st'" unfolding only_world_def by (rule w(3))
    show "virtual_services_in_place env tc st (vss (sy_World st)) (vss (sy_World st'))"
      unfolding virtual_services_in_place_def by (intro exI [of _ vs] exI [of _ order] conjI w(1)) (use w(4) in blast)+
  qed
qed

text \<open>The targets of both features do not depend on the API servers.\<close>

lemma targets_world:
  assumes "only_world st st1"
  shows "virtual_service_targets env st1 tc = virtual_service_targets env st tc"
    "virtual_services_in_place env tc st1 a b = virtual_services_in_place env tc st a b"
proof -
  have "st1 = st\<lparr>sy_World := sy_World st1\<rparr>" using assms by (simp only: only_world_def)
  then have "virtual_service_targets env st1 tc = virtual_service_targets env (st\<lparr>sy_World := sy_World st1\<rparr>) tc"
    by (rule arg_cong)
  then show one: "virtual_service_targets env st1 tc = virtual_service_targets env st tc"
    by (simp add: virtual_service_targets_def)
  show "virtual_services_in_place env tc st1 a b = virtual_services_in_place env tc st a b"
    by (simp add: virtual_services_in_place_def one)
qed

text \<open>A program that writes: not read-only, warm, with both features enabled.\<close>

definition may_write :: "'w environment \<Rightarrow> ('cc, 'w) system \<Rightarrow> bool" where
  "may_write env st \<longleftrightarrow> \<not> IsReadOnly (sy_Lease st) \<and> cache_warm env st
     \<and> IsFeatureEnabled (en_Params env) FeatureThrottleFilter \<and> IsFeatureEnabled (en_Params env) FeatureVirtualService"

text \<open>An event after the cache operation: the filters first, then the virtual services.\<close>

lemma process_both:
  assumes "may_write env st" "ctx_Log ctx" "chan_open c cs" "kinds_apart (en_Api env) efs vss" "system_ok (en_Params env) st"
    and filters: "HandleRateLimiter env tc ev st = Some st1"
    and laws: "vs_laws (en_Api env) vss"
    and tc: "TC_GetEnv tc \<noteq> []" "\<not> TC_IsDisabled tc" "tc_EdgeService tc = Some es" "es_Routes es \<noteq> []"
    and scope: "\<forall>c. cluster_scope env c \<noteq> None"
  obtains st' where "process_traffic_config env ctx tc ev (Some c) (st, cs) = Some (EventSkip, st', close_with c skip_status cs)"
    "only_world st st'" "efs (sy_World st') = efs (sy_World st1)"
    "virtual_services_in_place env tc st (vss (sy_World st)) (vss (sy_World st'))"
proof -
  have w1: "only_world st st1" by (rule HandleRateLimiter_world [OF filters])
  have ok1: "system_ok (en_Params env) st1" using only_world_ok [OF w1] assms(5) by simp
  obtain st' where st': "HandleVirtualServiceForTrafficConfig env (feature_context ctx) tc st1 = Some st'" "only_world st1 st'"
    "virtual_services_in_place env tc st1 (vss (sy_World st1)) (vss (sy_World st'))"
    by (rule write_in_place [OF laws ok1 _ _ tc scope, of "feature_context ctx"]) simp_all
  have "run_features env ctx tc ev st = Some st'"
    using assms(1,2) filters st'(1) by (simp add: run_features_def may_write_def)
  then have "process_traffic_config env ctx tc ev (Some c) (st, cs) = Some (EventSkip, st', close_with c skip_status cs)"
    using assms(1-3) by (simp add: process_traffic_config_def may_write_def finish_settles)
  moreover have "only_world st st'" by (rule only_world_trans [OF w1 st'(2)])
  moreover have "efs (sy_World st') = efs (sy_World st1)" by (rule virtual_services_keep_efs [OF assms(4) ok1 st'(1)])
  moreover have "virtual_services_in_place env tc st (vss (sy_World st)) (vss (sy_World st'))"
    using st'(3) rate_limits_keep_vss [OF assms(4,5) filters] by (simp add: targets_world(2) [OF w1])
  ultimately show ?thesis by (rule that)
qed

text \<open>Both features on an event that is not a deletion, in terms of the API servers.\<close>

definition config_in_place ::
    "'w environment \<Rightarrow> TrafficConfig \<Rightarrow> ('w \<Rightarrow> object_key \<Rightarrow> EnvoyFilter option) \<Rightarrow> ('w \<Rightarrow> object_key \<Rightarrow> VirtualService option)
       \<Rightarrow> ('cc, 'w) system \<Rightarrow> ('cc, 'w) system \<Rightarrow> bool" where
  "config_in_place env tc efs vss st st' \<longleftrightarrow>
     (\<forall>k. if fst k \<in> rate_limit_targets env st tc
          then filter_applied env st tc (efs (sy_World st)) k (efs (sy_World st') k)
          else efs (sy_World st') k = efs (sy_World st) k)
     \<and> virtual_services_in_place env tc st (vss (sy_World st)) (vss (sy_World st'))"

lemma process_writes:
  assumes laws: "ef_laws (en_Api env) efs" "ef_read_laws (en_Api env) efs" "vs_laws (en_Api env) vss" "kinds_apart (en_Api env) efs vss"
    and program: "system_ok (en_Params env) st" "may_write env st" "ctx_Log ctx" "chan_open c cs"
    and tc: "TC_GetEnv tc \<noteq> []" "\<not> TC_IsDisabled tc"
      "tc_EdgeService tc = Some es" "es_Routes es \<noteq> []" "tc_QuotaGroup tc = Some qg"
    and scope: "\<forall>c. cluster_scope env c \<noteq> None" and marshal: "en_Marshal env = (\<lambda>m. Some (marshal m))"
    and ready: "\<forall>c \<in> rate_limit_targets env st tc. filters_ready env st tc (efs (sy_World st)) c" and ev: "ev \<noteq> Delete"
  obtains st' where "process_traffic_config env ctx tc ev (Some c) (st, cs) = Some (EventSkip, st', close_with c skip_status cs)"
    "only_world st st'" "config_in_place env tc efs vss st st'"
proof -
  obtain st1 where filters: "HandleRateLimiter env tc ev st = Some st1"
    "\<forall>k. if fst k \<in> rate_limit_targets env st tc then filter_applied env st tc (efs (sy_World st)) k (efs (sy_World st1) k)
       else efs (sy_World st1) k = efs (sy_World st) k"
    using apply_rate_limit_filters [OF laws(1,2) program(1) scope tc(5,2) ev marshal ready] by blast
  obtain st' where st': "process_traffic_config env ctx tc ev (Some c) (st, cs) = Some (EventSkip, st', close_with c skip_status cs)"
    "only_world st st'" "efs (sy_World st') = efs (sy_World st1)"
    "virtual_services_in_place env tc st (vss (sy_World st)) (vss (sy_World st'))"
    by (rule process_both [OF program(2-4) laws(4) program(1) filters(1) laws(3) tc(1-4) scope])
  have "config_in_place env tc efs vss st st'" using filters(2) st'(4) by (simp add: config_in_place_def st'(3))
  with st'(1,2) show ?thesis by (rule that)
qed

lemma cache_world:
  assumes "only_world st1 st'"
  shows "sy_TrafficConfigs st' = sy_TrafficConfigs st1"
proof -
  have "st' = st1\<lparr>sy_World := sy_World st'\<rparr>" using assms by (simp only: only_world_def)
  then have "sy_TrafficConfigs st' = sy_TrafficConfigs (st1\<lparr>sy_World := sy_World st'\<rparr>)" by (rule arg_cong)
  then show ?thesis by simp
qed

text \<open>The cache does not matter to the features.\<close>

lemma features_cache:
  "rate_limit_targets env (st\<lparr>sy_TrafficConfigs := t\<rparr>) tc = rate_limit_targets env st tc"
  "filters_ready env (st\<lparr>sy_TrafficConfigs := t\<rparr>) tc = filters_ready env st tc"
  "filter_applied env (st\<lparr>sy_TrafficConfigs := t\<rparr>) tc = filter_applied env st tc"
  "virtual_services_in_place env tc (st\<lparr>sy_TrafficConfigs := t\<rparr>) = virtual_services_in_place env tc st"
  "may_write env (st\<lparr>sy_TrafficConfigs := t\<rparr>) = may_write env st"
proof -
  have w: "wanted_filters env (st\<lparr>sy_TrafficConfigs := t\<rparr>) tc = wanted_filters env st tc"
    by (simp add: wanted_filters_def fun_eq_iff cong: sum.case_cong)
  show "rate_limit_targets env (st\<lparr>sy_TrafficConfigs := t\<rparr>) tc = rate_limit_targets env st tc"
    by (simp add: rate_limit_targets_def)
  show "filters_ready env (st\<lparr>sy_TrafficConfigs := t\<rparr>) tc = filters_ready env st tc"
    "filter_applied env (st\<lparr>sy_TrafficConfigs := t\<rparr>) tc = filter_applied env st tc"
    by (simp_all add: fun_eq_iff filters_ready_def filter_applied_def w)
  show "virtual_services_in_place env tc (st\<lparr>sy_TrafficConfigs := t\<rparr>) = virtual_services_in_place env tc st"
    by (simp add: fun_eq_iff virtual_services_in_place_def virtual_service_targets_def)
  show "may_write env (st\<lparr>sy_TrafficConfigs := t\<rparr>) = may_write env st"
    by (simp add: may_write_def cache_warm_def)
qed

subsection \<open>Properties\<close>



text \<open>
  C35: an update never reaches the cache: whatever the new object, and though the log says the cache was
  updated, every later lookup, and so every event triggered by a workload or a dependency, sees the
  config as it was added.
\<close>

theorem updated_config_not_cached:
  assumes "TrafficConfig_Updated env ctx newObj oldObj ch (st, cs) = Some (status, st', cs')"
  shows "sy_TrafficConfigs st' = sy_TrafficConfigs st"
proof -
  have "only_world st st'"
    using assms by (auto simp: TrafficConfig_Updated_def process_traffic_config_def logged_Some
        split: option.splits if_splits bind_splits dest: finish_state run_features_world)
  then show ?thesis by (rule cache_world)
qed

text \<open>
  A traffic config that is disabled or ignored is skipped when it is added or updated: one Skip, and
  no cache, envoy filter or virtual service changes.  So disabling a config leaves its filters and its
  virtual service in the clusters, although the features have branches that delete them.
\<close>

theorem disabled_config_skipped:
  assumes "TC_IsDisabled tc \<or> TC_IsIgnored (en_Params env) tc" "ctx_Log ctx" "chan_open c cs"
  shows "TrafficConfig_Added env ctx (Some (ObjTrafficConfig tc)) (Some c) (st, cs) = Some (EventSkip, st, close_with c skip_status cs)
    \<and> TrafficConfig_Updated env ctx (Some (ObjTrafficConfig tc)) old (Some c) (st, cs) = Some (EventSkip, st, close_with c skip_status cs)"
  using assms by (auto simp: TrafficConfig_Added_def TrafficConfig_Updated_def finish_settles)

text \<open>
  The source identity that triggering records for the dependents is lost: triggering the configs of
  an owner for one source identity does exactly what triggering them for everybody does, so the virtual
  service is written to the clusters of all dependents.
\<close>

theorem source_identity_ignored:
  "trigger_entry env ctx (Some source) statusChan owner s = trigger_entry env ctx None statusChan owner s"
proof -
  have features: "feature_context (cx\<lparr>ctx_SourceIdentity := i\<rparr>) = feature_context cx" for cx i
    by (simp add: feature_context_def)
  have logs: "logged (cx\<lparr>ctx_SourceIdentity := i\<rparr>) k = logged cx k" for cx i and k :: "'x option"
    by (simp add: logged_def)
  have updated: "TrafficConfig_Updated env (cx\<lparr>ctx_SourceIdentity := i\<rparr>) = TrafficConfig_Updated env cx" for cx i
    unfolding TrafficConfig_Updated_def process_traffic_config_def run_features_def logs features by (rule refl)
  have child: "cx = NewContextWithLogger \<or> cx = zeroContext"
    if "CreateChildEvent NewEventProcessStatus ctx (Some TrafficConfig_OnStatus) statusChan cs = Some (cx, ch, cs')" for cs cx ch cs'
    using that by (auto simp: CreateChildEvent_def NewEventProcessStatus_def Let_def split: option.splits if_splits bind_splits prod.splits)
  have "trigger_traffic_config env ctx (Some source) statusChan tc s = trigger_traffic_config env ctx None statusChan tc s" for tc s
  proof (cases s)
    case (Pair st cs)
    show ?thesis
    proof (cases "CreateChildEvent NewEventProcessStatus ctx (Some TrafficConfig_OnStatus) statusChan cs")
      case None
      then show ?thesis by (simp add: Pair trigger_traffic_config_def)
    next
      case (Some r)
      obtain cx ch cs' where r: "r = (cx, ch, cs')" by (cases r)
      have "ctx_Context cx \<and> ctx_Log cx \<or> \<not> ctx_Log cx"
        using child [OF Some [unfolded r]] by (auto simp: NewContextWithLogger_def zeroContext_def)
      then show ?thesis by (auto simp: Pair trigger_traffic_config_def Some r updated logs)
    qed
  qed
  then have same: "trigger_traffic_config env ctx (Some source) statusChan = trigger_traffic_config env ctx None statusChan"
    by (intro ext)
  show ?thesis unfolding trigger_entry_def same by (rule refl)
qed

subsection \<open>Witnesses\<close>

text \<open>A program that may write; the identity \<open>Shop\<close> and its dependent \<open>web\<close> run in the cluster \<open>c1\<close>.\<close>

definition event_system :: "server \<Rightarrow> (unit, server) system" where
  "event_system w = (rate_system w)
     \<lparr>sy_IdentityCluster := AddClusterToIdentity ''web'' ''c1'' (AddClusterToIdentity ''Shop'' ''c1'' IdentityCluster_Reset),
      sy_TrafficConfigs := AddTrafficConfigToCache (InitializeNaavikArgs None) rate_tc TCCache_Reset,
      sy_Lease := noOp_RunStateCheck initialLeaseState\<rparr>"

lemma event_params: "en_Params sample_env = InitializeNaavikArgs None"
  by (simp add: sample_env_def)

lemma event_system_ok: "system_ok (en_Params sample_env) (event_system w)"
proof -
  have "tcc_ok p (AddTrafficConfigToCache p tc TCCache_Reset)" for p tc
    by (simp add: tcc_ok_Add TCCache_Reset_def)
  with rate_system_ok [of w] show ?thesis
    by (simp add: system_ok_def event_system_def id_cluster.ok_add id_cluster.ok_emp event_params)
qed

lemma event_may_write: "may_write sample_env (event_system w)"
proof -
  have "IsFeatureEnabled (InitializeNaavikArgs None) FeatureThrottleFilter"
    "IsFeatureEnabled (InitializeNaavikArgs None) FeatureVirtualService" "CacheRefreshInterval (InitializeNaavikArgs None) = minute"
    "minute < 2 * minute" by code_simp+
  then show ?thesis
    by (simp add: may_write_def cache_warm_def IsCacheWarmedUp_def event_system_def event_params IsReadOnly_def noOp_RunStateCheck_def)
      (simp add: sample_env_def)
qed

lemma event_world: "sy_World (event_system w) = w"
  by (simp add: event_system_def rate_world)

lemma event_apart: "kinds_apart (en_Api sample_env) sample_efs sample_vss"
proof -
  have ef: "sample_efs (a, x) = sample_efs (a, b)" for a b x by (simp add: fun_eq_iff sample_efs_def)
  have vs: "sample_vss (x, b) = sample_vss (a, b)" for a b x by (simp add: fun_eq_iff sample_vss_def)
  show ?thesis
    unfolding kinds_apart_def ef_writes_keep_def vs_writes_keep_def
    by (auto simp: sample_env_def sample_api_def ef vs fun_eq_iff sample_efs_def sample_vss_def split: option.splits)
qed

lemma event_laws: "ef_laws (en_Api sample_env) sample_efs" "ef_read_laws (en_Api sample_env) sample_efs"
  "vs_laws (en_Api sample_env) sample_vss" "kinds_apart (en_Api sample_env) sample_efs sample_vss"
  using rate_laws event_apart sample_vs_laws by (simp_all add: sample_env_def)

lemma event_tc: "TC_GetEnv rate_tc \<noteq> []" "\<not> TC_IsDisabled rate_tc" "\<not> TC_IsIgnored (en_Params sample_env) rate_tc"
  "tc_EdgeService rate_tc = Some dialed_service" "es_Routes dialed_service \<noteq> []" "tc_QuotaGroup rate_tc = Some \<lparr>qg_Total = [], qg_App = []\<rparr>"
  unfolding event_params by code_simp+

lemma event_targets:
  "rate_limit_targets sample_env (event_system w) rate_tc = {''c1''}"
  "virtual_service_targets sample_env (event_system w) rate_tc = {''c1''}"
proof -
  have "GetClustersForIdentity (sy_IdentityCluster (event_system w)) (TC_GetIdentity (InitializeNaavikArgs None) rate_tc) = [''c1'']"
    "GetDependentsForIdentity (sy_IdentityDependency (event_system w)) (TC_GetIdentity (InitializeNaavikArgs None) rate_tc) = [''web'']"
    "\<not> IsAssetIgnored (InitializeNaavikArgs None) ''web''"
    "GetClustersForIdentity (sy_IdentityCluster (event_system w)) ''web'' = [''c1'']"
    "map_option rcl_clusterID (RC_GetCluster (reg_clusters (sy_Registry (event_system w))) ''c1'') = Some ''c1''"
    unfolding event_system_def rate_system_def sample_system_def initial_system_def by code_simp+
  then show "rate_limit_targets sample_env (event_system w) rate_tc = {''c1''}"
    "virtual_service_targets sample_env (event_system w) rate_tc = {''c1''}"
    by (auto simp: rate_limit_targets_def virtual_service_targets_def reachable_cluster_def sample_scope event_params)
qed

lemma event_wanted: "wanted_filters sample_env (event_system w) rate_tc c = wanted_filters sample_env (rate_system w) rate_tc c"
  by (simp add: wanted_filters_def event_system_def cong: sum.case_cong)

lemma event_in_place:
  assumes "virtual_services_in_place sample_env rate_tc (event_system w) before after"
  shows "\<exists>g. after (shop_key ''c1'') = Some g"
proof -
  obtain vs order where o: "buildVirtualServiceForMeshDependents (en_Ext sample_env) (en_Params sample_env) rate_tc = Inr vs"
    "set order = {''c1''}" "distinct order" "\<forall>us c rest. order = us @ c # rest \<longrightarrow>
              (if before (vs_key c vs) \<noteq> None \<or> (\<forall>u \<in> set us. before (vs_key u vs) = None)
               then \<exists>g. after (vs_key c vs) = Some g \<and> vs_applied vs g else after (vs_key c vs) = None)"
    using assms unfolding virtual_services_in_place_def event_targets by blast
  obtain rules where vs: "vs = buildVirtualServiceObject (en_Params sample_env) rate_tc
      (addAllowAllRule (en_Ext sample_env) (en_Params sample_env) rate_tc rules)"
    by (rule build_cases [OF o(1) event_tc(4)])
  have "getVirtualServiceName (InitializeNaavikArgs None) (TC_GetEnv rate_tc)
      (TC_GetIdentityLowerCase (InitializeNaavikArgs None) rate_tc) = ''qal.shop.mesh-vs''"
    "SyncNamespace (InitializeNaavikArgs None) = ''admiral-sync''"
    by code_simp+
  then have key: "vs_key ''c1'' vs = shop_key ''c1''"
    by (simp add: vs vs_key_def buildVirtualServiceObject_def shop_key_def event_params)
  obtain us rest where split: "order = us @ ''c1'' # rest" using o(2) by (metis insertI1 in_set_conv_decomp)
  have "set us \<subseteq> {''c1''}" "''c1'' \<notin> set us" using o(2,3) by (auto simp: split)
  then have "us = []" by (cases us) auto
  with o(4) [rule_format, OF split] key show ?thesis by auto
qed

lemma event_ready:
  "\<forall>c \<in> rate_limit_targets sample_env (event_system ([], [])) rate_tc.
     filters_ready sample_env (event_system ([], [])) rate_tc (sample_efs (sy_World (event_system ([], [])))) c"
proof -
  let ?st = "event_system ([], [])"
  have none: "sample_efs (sy_World ?st) k = None" for k by (simp add: event_world sample_efs_def gm_get_def)
  have "length (wanted_filters sample_env ?st rate_tc ''c1'') = 1"
    using arg_cong [OF rate_wanted [of "([], [])"], of length] by (simp add: event_wanted)
  then have "distinct (map ef_Name (wanted_filters sample_env ?st rate_tc ''c1''))"
    by (cases "wanted_filters sample_env ?st rate_tc ''c1''") auto
  then show ?thesis by (simp add: event_targets filters_ready_def none)
qed



theorem disabled_config_skipped_witness:
  "TrafficConfig_Added sample_env NewContextWithLogger (Some (ObjTrafficConfig disabled_tc)) (Some 0) (event_system ([], []), sample_chans)
     = Some (EventSkip, event_system ([], []), close_with 0 skip_status sample_chans)"
proof -
  have "TC_IsDisabled disabled_tc" by code_simp
  then show ?thesis
    by (intro disabled_config_skipped [THEN conjunct1])
      (simp_all add: NewContextWithLogger_def chan_open_def sample_chans_def)
qed

text \<open>An update of the sample config, while the program is read-only.\<close>

theorem updated_config_not_cached_witness:
  "\<exists>st' cs'. TrafficConfig_Updated sample_env NewContextWithLogger (Some (ObjTrafficConfig dialed_tc)) None (Some 0)
        (event_system ([], [])\<lparr>sy_Lease := initialLeaseState\<rparr>, sample_chans) = Some (EventSkip, st', cs')
     \<and> sy_TrafficConfigs st' = AddTrafficConfigToCache (InitializeNaavikArgs None) rate_tc TCCache_Reset"
proof -
  have c: "chan_open 0 sample_chans" by (simp add: chan_open_def sample_chans_def)
  have "\<not> TC_IsDisabled dialed_tc" "\<not> TC_IsIgnored (en_Params sample_env) dialed_tc" unfolding event_params by code_simp+
  then have "TrafficConfig_Updated sample_env NewContextWithLogger (Some (ObjTrafficConfig dialed_tc)) None (Some 0)
        (event_system ([], [])\<lparr>sy_Lease := initialLeaseState\<rparr>, sample_chans)
      = Some (EventSkip, event_system ([], [])\<lparr>sy_Lease := initialLeaseState\<rparr>, close_with 0 skip_status sample_chans)"
    by (simp add: TrafficConfig_Updated_def process_traffic_config_def IsReadOnly_def initialLeaseState_def finish_settles [OF c])
  with updated_config_not_cached [OF this] show ?thesis by (simp add: event_system_def)
qed

end
