(* ===== verification/ApiServer.thy ===== *)
theory ApiServer
  imports TrafficConfigEvents
begin

text \<open>
  The read API of \<open>internal/server\<close>: what each route of \<open>api/v1\<close> answers from the caches and from the
  API servers of the clusters.

  Matching a path against the routes, parsing its parameters and writing JSON are gin's work: a request
  is a \<open>route\<close> with its parameters, a response a status with the value that is encoded.  A handler that
  panics answers nothing (\<open>None\<close>); gin's recovery turns that into an empty response with status 500.
  Listing virtual services through the API of a cluster is the parameter \<open>lvs\<close>.
\<close>

type_synonym 'w vs_lister = "string \<Rightarrow> string \<Rightarrow> selector \<Rightarrow> 'w \<Rightarrow> VirtualService list option \<times> string option"

definition ListVirtualServices :: "'w vs_lister \<Rightarrow> string \<Rightarrow> string \<Rightarrow> selector \<Rightarrow> 'w \<Rightarrow> VirtualService list option \<times> string option" where
  "ListVirtualServices lvs cluster namespace sel w = lvs cluster namespace sel w"

datatype resource = ResourceEnvoyFilters "EnvoyFilter list option" | ResourceVirtualServices "VirtualService list option"
  | ResourceError string

type_synonym Resources = "(string, (string, resource) gomap) gomap"

datatype body = ClusterList "(string \<times> string) list" | Names "string list" | ErrorResponse string
  | EnvoyFilterList "EnvoyFilter list option" | VirtualServiceList "VirtualService list option"
  | WorkloadItems string "Workload cache_item list" "Workload cache_item list"
  | ClusterWorkload string "Workload cache_entry option" "Workload cache_entry option"
  | WorkloadOf string "Workload option" "Workload option"
  | ServicesOf "Service cache_entry option" | TotalDependencies nat
  | TrafficConfigEntryOf "TrafficConfigEntry option" | TrafficConfigOf "TrafficConfig option"
  | TrafficConfigResources Resources | PlainText string

definition StatusOK :: nat where "StatusOK = 200"
definition StatusNotFound :: nat where "StatusNotFound = 404"
definition StatusInternalServerError :: nat where "StatusInternalServerError = 500"

type_synonym response = "(nat \<times> body) option"

subsection \<open>Clusters\<close>

definition getRemoteClusters :: "('cc, 'w) system \<Rightarrow> response" where
  "getRemoteClusters st = Some (StatusOK, ClusterList (fold (\<lambda>rc names. names @ [(GetClusterID rc, rcl_host rc)])
     (RC_ListClusters (reg_clusters (sy_Registry st))) []))"

definition getClustersForIdentity :: "('cc, 'w) system \<Rightarrow> string \<Rightarrow> response" where
  "getClustersForIdentity st identity = Some (StatusOK, Names (GetClustersForIdentity (sy_IdentityCluster st) identity))"

definition cluster_not_found :: "string \<Rightarrow> response" where
  "cluster_not_found clusterID = Some (StatusNotFound, ErrorResponse (''Cluster '' @ clusterID @ '' not found''))"

definition getEnvoyFiltersForCluster :: "'w environment \<Rightarrow> ('cc, 'w) system \<Rightarrow> string \<Rightarrow> response" where
  "getEnvoyFiltersForCluster env st clusterID =
     (case RC_GetCluster (reg_clusters (sy_Registry st)) clusterID of
        None \<Rightarrow> cluster_not_found clusterID
      | Some rc \<Rightarrow> (case ListEnvoyFilters (en_Api env) (GetClusterID rc) NamespaceIstioSystem [(CreatedByKey, NaavikName)] (sy_World st) of
            (envoyfilters, Some err) \<Rightarrow> Some (StatusInternalServerError, ErrorResponse err)
          | (envoyfilters, None) \<Rightarrow> Some (StatusOK, EnvoyFilterList envoyfilters)))"

definition getVirtualServicesForCluster :: "'w environment \<Rightarrow> 'w vs_lister \<Rightarrow> ('cc, 'w) system \<Rightarrow> string \<Rightarrow> response" where
  "getVirtualServicesForCluster env lvs st clusterID =
     (case RC_GetCluster (reg_clusters (sy_Registry st)) clusterID of
        None \<Rightarrow> cluster_not_found clusterID
      | Some rc \<Rightarrow> (case ListVirtualServices lvs (GetClusterID rc) (SyncNamespace (en_Params env)) [] (sy_World st) of
            (virtualservices, Some err) \<Rightarrow> Some (StatusInternalServerError, ErrorResponse err)
          | (virtualservices, None) \<Rightarrow> Some (StatusOK, VirtualServiceList virtualservices)))"

definition getEnvoyFiltersForClusterAndIdentity :: "'w environment \<Rightarrow> ('cc, 'w) system \<Rightarrow> string \<Rightarrow> string \<Rightarrow> response" where
  "getEnvoyFiltersForClusterAndIdentity env st clusterID identity =
     (case RC_GetCluster (reg_clusters (sy_Registry st)) clusterID of
        None \<Rightarrow> cluster_not_found clusterID
      | Some rc \<Rightarrow> (case ListEnvoyFilters (en_Api env) (GetClusterID rc) NamespaceIstioSystem [(CreatedForKey, identity)] (sy_World st) of
            (envoyfilters, Some err) \<Rightarrow> Some (StatusInternalServerError, ErrorResponse err)
          | (envoyfilters, None) \<Rightarrow> Some (StatusOK, EnvoyFilterList envoyfilters)))"

definition getVirtualServicesForClusterAndIdentity ::
    "'w environment \<Rightarrow> 'w vs_lister \<Rightarrow> ('cc, 'w) system \<Rightarrow> string \<Rightarrow> string \<Rightarrow> response" where
  "getVirtualServicesForClusterAndIdentity env lvs st clusterID identity =
     (case RC_GetCluster (reg_clusters (sy_Registry st)) clusterID of
        None \<Rightarrow> cluster_not_found clusterID
      | Some rc \<Rightarrow> (case ListVirtualServices lvs (GetClusterID rc) (SyncNamespace (en_Params env)) [(CreatedForKey, identity)] (sy_World st) of
            (virtualservices, Some err) \<Rightarrow> Some (StatusInternalServerError, ErrorResponse err)
          | (virtualservices, None) \<Rightarrow> Some (StatusOK, VirtualServiceList virtualservices)))"

subsection \<open>Workloads and dependencies\<close>

definition getWorkloadsByIdentity :: "('cc, 'w) system \<Rightarrow> string \<Rightarrow> response" where
  "getWorkloadsByIdentity st identity = Some (StatusOK, WorkloadItems identity
     (Deployments_GetByIdentity (sy_Deployments st) identity) (Rollouts_GetByIdentity (sy_Rollouts st) identity))"

definition getWorkloadsByClusterIdentity :: "('cc, 'w) system \<Rightarrow> string \<Rightarrow> string \<Rightarrow> response" where
  "getWorkloadsByClusterIdentity st cluster identity = Some (StatusOK, ClusterWorkload cluster
     (Deployments_GetByClusterIdentity (sy_Deployments st) cluster identity)
     (Rollouts_GetByClusterIdentity (sy_Rollouts st) cluster identity))"

definition getByClusterIdentityEnv :: "('cc, 'w) system \<Rightarrow> string \<Rightarrow> string \<Rightarrow> string \<Rightarrow> response" where
  "getByClusterIdentityEnv st cluster identity e = Some (StatusOK, WorkloadOf identity
     (Deployments_GetByClusterIdentityEnv (sy_Deployments st) cluster identity e)
     (Rollouts_GetByClusterIdentityEnv (sy_Rollouts st) cluster identity e))"

definition getServicesByClusterNamespace :: "('cc, 'w) system \<Rightarrow> string \<Rightarrow> string \<Rightarrow> response" where
  "getServicesByClusterNamespace st cluster namespace =
     Some (StatusOK, ServicesOf (Services_GetByClusterNamespace (sy_Services st) cluster namespace))"

definition getDependenciesForIdentity :: "('cc, 'w) system \<Rightarrow> string \<Rightarrow> response" where
  "getDependenciesForIdentity st identity = Some (StatusOK, Names (GetDependenciesForIdentity (sy_IdentityDependency st) identity))"

definition getDependentsForIdentity :: "('cc, 'w) system \<Rightarrow> string \<Rightarrow> response" where
  "getDependentsForIdentity st identity = Some (StatusOK, Names (GetDependentsForIdentity (sy_IdentityDependency st) identity))"

definition getTotalDependencies :: "('cc, 'w) system \<Rightarrow> response" where
  "getTotalDependencies st = Some (StatusOK, TotalDependencies (GetTotalDependencies (sy_IdentityDependency st)))"

subsection \<open>Traffic configs and their resources\<close>

definition getByIdentity :: "('cc, 'w) system \<Rightarrow> string \<Rightarrow> response" where
  "getByIdentity st identity = Some (StatusOK, TrafficConfigEntryOf (TCCache_GetTrafficConfigEntry (sy_TrafficConfigs st) identity))"

definition getByIdentityEnv :: "('cc, 'w) system \<Rightarrow> string \<Rightarrow> string \<Rightarrow> response" where
  "getByIdentityEnv st identity e = Some (StatusOK, TrafficConfigOf (TCCache_Get (sy_TrafficConfigs st) identity e))"

definition resource_selector :: "string \<Rightarrow> string \<Rightarrow> selector" where
  "resource_selector identity e =
     (if length e > 0 then [(CreatedByKey, NaavikName), (CreatedForKey, ToLower identity), (CreatedForEnvKey, e)]
      else [(CreatedByKey, NaavikName), (CreatedForKey, ToLower identity)])"

text \<open>The entry of a cluster in the answer: written to a new inner map after a list, to a nil one after an error.\<close>

definition put_resource :: "string \<Rightarrow> string \<Rightarrow> resource \<Rightarrow> Resources \<Rightarrow> Resources" where
  "put_resource cluster key r tcr =
     gm_put cluster (gm_put key r (case gm_get tcr cluster of None \<Rightarrow> [] | Some inner \<Rightarrow> inner)) tcr"

definition put_error :: "string \<Rightarrow> string \<Rightarrow> string \<Rightarrow> Resources \<Rightarrow> Resources option" where
  "put_error cluster key err tcr =
     (case gm_get tcr cluster of None \<Rightarrow> None | Some inner \<Rightarrow> Some (gm_put cluster (gm_put key (ResourceError err) inner) tcr))"

definition updateVirtualServices ::
    "'w environment \<Rightarrow> 'w vs_lister \<Rightarrow> 'w \<Rightarrow> 'cc RemoteCluster \<Rightarrow> string \<Rightarrow> string \<Rightarrow> Resources \<Rightarrow> Resources option" where
  "updateVirtualServices env lvs w rc identity e tcr =
     (case ListVirtualServices lvs (GetClusterID rc) (SyncNamespace (en_Params env)) (resource_selector identity e) w of
        (virtualservices, None) \<Rightarrow>
          Some (put_resource (GetClusterID rc) (identity @ ''/virtualservices'') (ResourceVirtualServices virtualservices) tcr)
      | (virtualservices, Some err) \<Rightarrow> put_error (GetClusterID rc) (identity @ ''/virtualservices'') err tcr)"

definition updateThrottleEnvoyFilters ::
    "'w environment \<Rightarrow> 'w \<Rightarrow> 'cc RemoteCluster \<Rightarrow> string \<Rightarrow> string \<Rightarrow> Resources \<Rightarrow> Resources option" where
  "updateThrottleEnvoyFilters env w rc identity e tcr =
     (case ListEnvoyFilters (en_Api env) (GetClusterID rc) NamespaceIstioSystem (resource_selector identity e) w of
        (envoyfilters, None) \<Rightarrow>
          Some (put_resource (GetClusterID rc) (identity @ ''/throttlefilters'') (ResourceEnvoyFilters envoyfilters) tcr)
      | (envoyfilters, Some err) \<Rightarrow> put_error (GetClusterID rc) (identity @ ''/throttlefilters'') err tcr)"

text \<open>The two loops the handlers share: over the clusters of the identity and over those of a dependent.\<close>

definition each_cached :: "('cc, 'w) system \<Rightarrow> ('cc RemoteCluster \<Rightarrow> Resources \<Rightarrow> Resources option) \<Rightarrow> string list \<Rightarrow> Resources \<Rightarrow> Resources option" where
  "each_cached st f = foreach (\<lambda>cluster tcr.
     case RC_GetCluster (reg_clusters (sy_Registry st)) cluster of None \<Rightarrow> Some tcr | Some rc \<Rightarrow> f rc tcr)"

definition getResourcesRelatedToIdentity :: "'w environment \<Rightarrow> 'w vs_lister \<Rightarrow> ('cc, 'w) system \<Rightarrow> string \<Rightarrow> response" where
  "getResourcesRelatedToIdentity env lvs st identity = do {
     tcr1 \<leftarrow> each_cached st (\<lambda>rc. updateThrottleEnvoyFilters env (sy_World st) rc identity [])
       (GetClustersForIdentity (sy_IdentityCluster st) identity) [];
     tcr2 \<leftarrow> foreach (\<lambda>dependent. each_cached st (\<lambda>rc. updateVirtualServices env lvs (sy_World st) rc identity [])
         (GetClustersForIdentity (sy_IdentityCluster st) dependent))
       (GetDependentsForIdentity (sy_IdentityDependency st) identity) tcr1;
     Some (StatusOK, TrafficConfigResources tcr2)
   }"

definition getResourcesRelatedToIdentityAndDependentAndEnv ::
    "'w environment \<Rightarrow> 'w vs_lister \<Rightarrow> ('cc, 'w) system \<Rightarrow> string \<Rightarrow> string \<Rightarrow> string \<Rightarrow> response" where
  "getResourcesRelatedToIdentityAndDependentAndEnv env lvs st identity dependent e = do {
     tcr1 \<leftarrow> each_cached st (\<lambda>rc. updateThrottleEnvoyFilters env (sy_World st) rc identity e)
       (GetClustersForIdentity (sy_IdentityCluster st) identity) [];
     tcr2 \<leftarrow> each_cached st (\<lambda>rc. updateVirtualServices env lvs (sy_World st) rc identity e)
       (GetClustersForIdentity (sy_IdentityCluster st) dependent) tcr1;
     Some (StatusOK, TrafficConfigResources tcr2)
   }"

text \<open>No route leads to this handler.\<close>

definition getResourcesRelatedToIdentityAndDependent ::
    "'w environment \<Rightarrow> 'w vs_lister \<Rightarrow> ('cc, 'w) system \<Rightarrow> string \<Rightarrow> string \<Rightarrow> response" where
  "getResourcesRelatedToIdentityAndDependent env lvs st identity dependent = do {
     tcr1 \<leftarrow> each_cached st (\<lambda>rc. updateThrottleEnvoyFilters env (sy_World st) rc identity [])
       (GetClustersForIdentity (sy_IdentityCluster st) identity) [];
     tcr2 \<leftarrow> each_cached st (\<lambda>rc. updateVirtualServices env lvs (sy_World st) rc identity [])
       (GetClustersForIdentity (sy_IdentityCluster st) dependent) tcr1;
     Some (StatusOK, TrafficConfigResources tcr2)
   }"

subsection \<open>The routes\<close>

datatype route = HealthFull
  | Clusters | ClustersOfIdentity string | FiltersOfClusterIdentity string string | FiltersOfCluster string
  | ServicesOfClusterIdentity string string | ServicesOfCluster string
  | WorkloadByClusterIdentityEnv string string string | WorkloadsByClusterIdentity string string
  | WorkloadsByIdentity string | ServicesByClusterNamespace string string
  | DependenciesOfIdentity string | DependencyTotal | DependentsOfIdentity string
  | ResourcesOfIdentity string | ResourcesOfDependent string string | ResourcesOfDependentEnv string string string
  | ConfigsOfIdentity string | ConfigOfIdentityEnv string string

text \<open>\<open>SetupRouter\<close> and the \<open>AddRoutes\<close> of the four groups.\<close>

definition HealthCheck :: response where
  "HealthCheck = Some (StatusOK, PlainText ''Health full ok'')"

fun cluster_routes :: "'w environment \<Rightarrow> 'w vs_lister \<Rightarrow> ('cc, 'w) system \<Rightarrow> route \<Rightarrow> response option" where
  "cluster_routes env lvs st Clusters = Some (getRemoteClusters st)"
| "cluster_routes env lvs st (ClustersOfIdentity i) = Some (getClustersForIdentity st i)"
| "cluster_routes env lvs st (FiltersOfClusterIdentity c i) = Some (getEnvoyFiltersForClusterAndIdentity env st c i)"
| "cluster_routes env lvs st (FiltersOfCluster c) = Some (getEnvoyFiltersForCluster env st c)"
| "cluster_routes env lvs st (ServicesOfClusterIdentity c i) = Some (getVirtualServicesForClusterAndIdentity env lvs st c i)"
| "cluster_routes env lvs st (ServicesOfCluster c) = Some (getVirtualServicesForCluster env lvs st c)"
| "cluster_routes env lvs st _ = None"

fun workload_routes :: "('cc, 'w) system \<Rightarrow> route \<Rightarrow> response option" where
  "workload_routes st (WorkloadByClusterIdentityEnv c i e) = Some (getByClusterIdentityEnv st c i e)"
| "workload_routes st (WorkloadsByClusterIdentity c i) = Some (getWorkloadsByClusterIdentity st c i)"
| "workload_routes st (WorkloadsByIdentity i) = Some (getWorkloadsByIdentity st i)"
| "workload_routes st (ServicesByClusterNamespace c n) = Some (getServicesByClusterNamespace st c n)"
| "workload_routes st _ = None"

fun dependency_routes :: "('cc, 'w) system \<Rightarrow> route \<Rightarrow> response option" where
  "dependency_routes st (DependenciesOfIdentity i) = Some (getDependenciesForIdentity st i)"
| "dependency_routes st DependencyTotal = Some (getTotalDependencies st)"
| "dependency_routes st (DependentsOfIdentity i) = Some (getDependentsForIdentity st i)"
| "dependency_routes st _ = None"

fun trafficconfig_routes :: "'w environment \<Rightarrow> 'w vs_lister \<Rightarrow> ('cc, 'w) system \<Rightarrow> route \<Rightarrow> response option" where
  "trafficconfig_routes env lvs st (ResourcesOfIdentity i) = Some (getResourcesRelatedToIdentity env lvs st i)"
| "trafficconfig_routes env lvs st (ResourcesOfDependent i d) = Some (getResourcesRelatedToIdentity env lvs st i)"
| "trafficconfig_routes env lvs st (ResourcesOfDependentEnv i d e) =
     Some (getResourcesRelatedToIdentityAndDependentAndEnv env lvs st i d e)"
| "trafficconfig_routes env lvs st (ConfigsOfIdentity i) = Some (getByIdentity st i)"
| "trafficconfig_routes env lvs st (ConfigOfIdentityEnv i e) = Some (getByIdentityEnv st i e)"
| "trafficconfig_routes env lvs st _ = None"

text \<open>The first group that has the route answers; every route is in exactly one.\<close>

definition SetupRouter :: "'w environment \<Rightarrow> 'w vs_lister \<Rightarrow> ('cc, 'w) system \<Rightarrow> route \<Rightarrow> response" where
  "SetupRouter env lvs st r =
     (if r = HealthFull then HealthCheck
      else the (case workload_routes st r of Some x \<Rightarrow> Some x
        | None \<Rightarrow> (case cluster_routes env lvs st r of Some x \<Rightarrow> Some x
        | None \<Rightarrow> (case dependency_routes st r of Some x \<Rightarrow> Some x
        | None \<Rightarrow> trafficconfig_routes env lvs st r))))"

text \<open>The router's logging: nothing for a path that does not end in the health check's, else by status.\<close>

datatype log_level = LogError | LogWarn | LogInfo

definition HasSuffix :: "string \<Rightarrow> string \<Rightarrow> bool" where
  "HasSuffix s suffix \<longleftrightarrow> HasPrefix (rev s) (rev suffix)"

definition HealthCheckPath :: string where "HealthCheckPath = ''/health/full''"

definition Logger :: "string \<Rightarrow> nat \<Rightarrow> nat \<Rightarrow> log_level option" where
  "Logger path statusCode errors =
     (if \<not> HasSuffix path HealthCheckPath then None
      else if errors > 0 then Some LogError
      else if statusCode \<ge> StatusInternalServerError then Some LogError
      else if statusCode \<ge> 400 then Some LogWarn
      else Some LogInfo)"

subsection \<open>The answer of the resource routes\<close>

definition resource_at :: "Resources \<Rightarrow> string \<Rightarrow> string \<Rightarrow> resource option" where
  "resource_at tcr c k = (case gm_get tcr c of None \<Rightarrow> None | Some inner \<Rightarrow> gm_get inner k)"

lemma resource_at_put [simp]:
  "resource_at (put_resource cluster key r tcr) c k = (if c = cluster \<and> k = key then Some r else resource_at tcr c k)"
  by (simp add: resource_at_def put_resource_def split: option.split)

lemma resource_at_empty [simp]: "resource_at [] c k = None"
  by (simp add: resource_at_def gm_get_def)

definition cached_cluster :: "('cc, 'w) system \<Rightarrow> string \<Rightarrow> bool" where
  "cached_cluster st c \<longleftrightarrow> RC_GetCluster (reg_clusters (sy_Registry st)) c \<noteq> None"

text \<open>A loop whose calls all get their lists puts one entry per cached cluster.\<close>

lemma each_cached_puts:
  assumes "reg_ok (sy_Registry st)" "\<forall>c \<in> set cs. ToLower c = c"
    and "\<And>rc tcr. f rc tcr = Some (put_resource (GetClusterID rc) key (r (GetClusterID rc)) tcr)"
  shows "\<exists>m. each_cached st f cs m0 = Some m
    \<and> (\<forall>c k. resource_at m c k = (if k = key \<and> c \<in> set cs \<and> cached_cluster st c then Some (r c) else resource_at m0 c k))"
  using assms(2)
proof (induction cs arbitrary: m0)
  case Nil
  then show ?case by (simp add: each_cached_def)
next
  case (Cons a cs)
  show ?case
  proof (cases "RC_GetCluster (reg_clusters (sy_Registry st)) a")
    case None
    with Cons.IH [of m0] Cons.prems show ?thesis by (fastforce simp: each_cached_def cached_cluster_def)
  next
    case (Some rc)
    have id: "GetClusterID rc = a" using RC_Get_id [OF assms(1) Some] Cons.prems by simp
    obtain m where m: "each_cached st f cs (put_resource a key (r a) m0) = Some m"
      "\<forall>c k. resource_at m c k = (if k = key \<and> c \<in> set cs \<and> cached_cluster st c then Some (r c)
         else resource_at (put_resource a key (r a) m0) c k)"
      using Cons.IH Cons.prems by (metis list.set_intros(2))
    have "each_cached st f (a # cs) m0 = Some m"
      using m(1) assms(3) Some id by (simp add: each_cached_def)
    moreover have "cached_cluster st a" using Some by (simp add: cached_cluster_def)
    ultimately show ?thesis using m(2) by (intro exI [of _ m]) auto
  qed
qed

lemma resource_keys: "i @ ''/virtualservices'' \<noteq> i @ ''/throttlefilters''"
  by simp

lemma update_filters_ok:
  assumes "\<forall>c. snd (api_ListEF (en_Api env) c NamespaceIstioSystem (resource_selector i e) w) = None"
  shows "updateThrottleEnvoyFilters env w rc i e tcr = Some (put_resource (GetClusterID rc) (i @ ''/throttlefilters'')
    (ResourceEnvoyFilters (fst (api_ListEF (en_Api env) (GetClusterID rc) NamespaceIstioSystem (resource_selector i e) w))) tcr)"
  using assms [rule_format, of "GetClusterID rc"]
  by (cases "api_ListEF (en_Api env) (GetClusterID rc) NamespaceIstioSystem (resource_selector i e) w")
    (simp add: updateThrottleEnvoyFilters_def ListEnvoyFilters_def)

lemma update_services_ok:
  assumes "\<forall>c. snd (lvs c (SyncNamespace (en_Params env)) (resource_selector i e) w) = None"
  shows "updateVirtualServices env lvs w rc i e tcr = Some (put_resource (GetClusterID rc) (i @ ''/virtualservices'')
    (ResourceVirtualServices (fst (lvs (GetClusterID rc) (SyncNamespace (en_Params env)) (resource_selector i e) w))) tcr)"
  using assms [rule_format, of "GetClusterID rc"]
  by (cases "lvs (GetClusterID rc) (SyncNamespace (en_Params env)) (resource_selector i e) w")
    (simp add: updateVirtualServices_def ListVirtualServices_def)

lemma update_filters_error:
  assumes "snd (api_ListEF (en_Api env) (GetClusterID rc) NamespaceIstioSystem (resource_selector i e) w) \<noteq> None" "gm_get tcr (GetClusterID rc) = None"
  shows "updateThrottleEnvoyFilters env w rc i e tcr = None"
  using assms
  by (cases "api_ListEF (en_Api env) (GetClusterID rc) NamespaceIstioSystem (resource_selector i e) w")
    (auto simp: updateThrottleEnvoyFilters_def ListEnvoyFilters_def put_error_def)

subsection \<open>Properties\<close>

text \<open>
  The route of an identity, a dependent and an environment answers, when every list is answered, one
  entry per cached cluster of the identity with the envoy filters listed there, one per cached cluster
  of the dependent with the virtual services listed there, and nothing else.
\<close>

theorem resources_of_dependent_env:
  assumes ok: "system_ok (en_Params env) st"
    and filters: "\<forall>c. snd (api_ListEF (en_Api env) c NamespaceIstioSystem (resource_selector i e) (sy_World st)) = None"
    and services: "\<forall>c. snd (lvs c (SyncNamespace (en_Params env)) (resource_selector i e) (sy_World st)) = None"
  shows "\<exists>m. SetupRouter env lvs st (ResourcesOfDependentEnv i d e) = Some (StatusOK, TrafficConfigResources m)
    \<and> (\<forall>c k. resource_at m c k =
        (if k = i @ ''/throttlefilters'' \<and> c \<in> set (GetClustersForIdentity (sy_IdentityCluster st) i) \<and> cached_cluster st c
         then Some (ResourceEnvoyFilters (fst (api_ListEF (en_Api env) c NamespaceIstioSystem (resource_selector i e) (sy_World st))))
         else if k = i @ ''/virtualservices'' \<and> c \<in> set (GetClustersForIdentity (sy_IdentityCluster st) d) \<and> cached_cluster st c
         then Some (ResourceVirtualServices (fst (lvs c (SyncNamespace (en_Params env)) (resource_selector i e) (sy_World st))))
         else None))"
proof -
  have reg: "reg_ok (sy_Registry st)" and low: "\<forall>c \<in> set (GetClustersForIdentity (sy_IdentityCluster st) x). ToLower c = c" for x
    using ok targets_of_identity(2) [OF ok] by (auto simp: system_ok_def)
  obtain m1 where m1: "each_cached st (\<lambda>rc. updateThrottleEnvoyFilters env (sy_World st) rc i e)
      (GetClustersForIdentity (sy_IdentityCluster st) i) [] = Some m1"
    "\<forall>c k. resource_at m1 c k = (if k = i @ ''/throttlefilters'' \<and> c \<in> set (GetClustersForIdentity (sy_IdentityCluster st) i) \<and> cached_cluster st c
       then Some (ResourceEnvoyFilters (fst (api_ListEF (en_Api env) c NamespaceIstioSystem (resource_selector i e) (sy_World st)))) else None)"
    using each_cached_puts [OF reg low update_filters_ok [where env = env and i = i and e = e and w = "sy_World st", OF filters], of i "[]"] by auto
  obtain m where m: "each_cached st (\<lambda>rc. updateVirtualServices env lvs (sy_World st) rc i e)
      (GetClustersForIdentity (sy_IdentityCluster st) d) m1 = Some m"
    "\<forall>c k. resource_at m c k = (if k = i @ ''/virtualservices'' \<and> c \<in> set (GetClustersForIdentity (sy_IdentityCluster st) d) \<and> cached_cluster st c
       then Some (ResourceVirtualServices (fst (lvs c (SyncNamespace (en_Params env)) (resource_selector i e) (sy_World st)))) else resource_at m1 c k)"
    using each_cached_puts [OF reg low update_services_ok [where lvs = lvs and env = env and i = i and e = e and w = "sy_World st", OF services], of d m1] by blast
  have "SetupRouter env lvs st (ResourcesOfDependentEnv i d e) = Some (StatusOK, TrafficConfigResources m)"
    using m1(1) m(1) by (simp add: SetupRouter_def getResourcesRelatedToIdentityAndDependentAndEnv_def)
  with m1(2) m(2) resource_keys [of i] show ?thesis by (intro exI [of _ m]) auto
qed


text \<open>
  The route for one dependent of an identity answers exactly what the route of the identity answers,
  whatever the dependent: it is bound to the handler of the latter.
\<close>

theorem dependent_route_ignores_dependent:
  "SetupRouter env lvs st (ResourcesOfDependent i d) = SetupRouter env lvs st (ResourcesOfIdentity i)"
  by (simp add: SetupRouter_def)

text \<open>
  The labels the API lists by against the labels the handlers write.  A wanted envoy filter of a
  traffic config matches the selector of its identity, with the environment it was made for or with
  none; the virtual service of a traffic config matches without environment only: it carries the
  environments as an annotation, so the route with an environment never shows a virtual service.
\<close>

theorem listed_by_labels:
  assumes "buildVirtualServiceForMeshDependents (en_Ext env) (en_Params env) tc = Inr vs" "tc_EdgeService tc = Some es"
    and "f \<in> set (wanted_filters env st tc c)"
  shows "\<exists>workload_env. workload_env \<in> set (tc_WorkloadEnv tc)
      \<and> (\<forall>i e. has_labels (resource_selector i e) (ef_Labels f) \<longleftrightarrow>
          ToLower i = ToLower (TC_GetIdentity (en_Params env) tc) \<and> (e = [] \<or> e = workload_env))
      \<and> (\<forall>i e. has_labels (resource_selector i e) (vs_Labels vs) \<longleftrightarrow>
          ToLower i = ToLower (TC_GetIdentity (en_Params env) tc) \<and> e = [])"
proof -
  obtain rules where vs: "vs = buildVirtualServiceObject (en_Params env) tc (addAllowAllRule (en_Ext env) (en_Params env) tc rules)"
    by (rule build_cases [OF assms(1,2)])
  obtain we v ls ps where we: "we \<in> set (tc_WorkloadEnv tc)" "f = rate_limit_filter (en_Params env) tc we v ls ps"
    using assms(3) by (auto simp: wanted_filters_def split: sum.splits)
  have put: "set (gm_put k x m) = insert (k, x) (set m)" if "k \<notin> fst ` set m" for k x and m :: labels
    using that unfolding gm_put_def by (induction m) auto
  have keys: "CreatedByKey = ''createdBy''" "CreatedTypeKey = ''createdType''" "CreatedForKey = ''createdFor''"
    "CreatedForEnvKey = ''createdForEnv''" "CreatedForTrafficEnvKey = ''createdForTrafficEnv''"
    by (simp_all add: CreatedByKey_def CreatedTypeKey_def CreatedForKey_def CreatedForEnvKey_def CreatedForTrafficEnvKey_def)
  have "has_labels (resource_selector i e) (ef_Labels f) \<longleftrightarrow>
          ToLower i = ToLower (TC_GetIdentity (en_Params env) tc) \<and> (e = [] \<or> e = we)" for i e
    by (simp add: we(2) has_labels_def resource_selector_def rate_limit_filter_def keys put)
  moreover have "has_labels (resource_selector i e) (vs_Labels vs) \<longleftrightarrow>
          ToLower i = ToLower (TC_GetIdentity (en_Params env) tc) \<and> e = []" for i e
    by (simp add: vs has_labels_def resource_selector_def buildVirtualServiceObject_def keys put)
  ultimately show ?thesis using we(1) by blast
qed

subsection \<open>Witnesses\<close>

text \<open>Listing the stored virtual services of a cluster by namespace and labels.\<close>

definition sample_lister :: "server vs_lister" where
  "sample_lister c ns sel w = (Some (filter (\<lambda>v. has_labels sel (vs_Labels v))
     (map (\<lambda>k. the (sample_vss w k)) (filter (\<lambda>k. fst k = c \<and> fst (snd k) = ns) (remdups (map fst (snd w)))))), None)"

definition listed_filter :: EnvoyFilter where
  "listed_filter = (sample_filter ''shop-throttle-qal-1.21'' ''7'')
     \<lparr>ef_Labels := Some [(''createdBy'', ''naavik''), (''createdFor'', ''shop''), (''createdForEnv'', ''qal'')]\<rparr>"

theorem resources_of_dependent_env_witness:
  "\<exists>m. SetupRouter sample_env sample_lister (event_system ([(rate_key, listed_filter)], [])) (ResourcesOfDependentEnv ''Shop'' ''web'' ''qal'')
        = Some (StatusOK, TrafficConfigResources m)
     \<and> resource_at m ''c1'' ''Shop/throttlefilters'' = Some (ResourceEnvoyFilters (Some [listed_filter]))
     \<and> resource_at m ''c1'' ''Shop/virtualservices'' = Some (ResourceVirtualServices (Some []))
     \<and> resource_at m ''c2'' ''Shop/virtualservices'' = None"
proof -
  let ?st = "event_system ([(rate_key, listed_filter)], [])" and ?sel = "resource_selector ''Shop'' ''qal''"
  have filters: "\<forall>c. snd (api_ListEF (en_Api sample_env) c NamespaceIstioSystem ?sel (sy_World ?st)) = None"
    and services: "\<forall>c. snd (sample_lister c (SyncNamespace (en_Params sample_env)) ?sel (sy_World ?st)) = None"
    by (simp_all add: sample_env_def sample_api_def sample_lister_def)
  have lists: "fst (api_ListEF sample_api ''c1'' NamespaceIstioSystem ?sel ([(rate_key, listed_filter)], [])) = Some [listed_filter]"
    "fst (sample_lister ''c1'' (SyncNamespace (InitializeNaavikArgs None)) ?sel ([(rate_key, listed_filter)], [])) = Some []"
    by code_simp+
  have clusters: "GetClustersForIdentity (sy_IdentityCluster ?st) ''Shop'' = [''c1'']" "GetClustersForIdentity (sy_IdentityCluster ?st) ''web'' = [''c1'']"
    "cached_cluster ?st ''c1''"
    unfolding event_system_def rate_system_def sample_system_def initial_system_def cached_cluster_def by code_simp+
  show ?thesis
    using resources_of_dependent_env [where env = sample_env and lvs = sample_lister and st = ?st and i = "''Shop''" and d = "''web''" and e = "''qal''",
        OF event_system_ok filters services] lists
    by (auto simp: clusters event_world event_params sample_env_def)
qed

text \<open>A server that answers no list.\<close>

definition mute_env :: "server environment" where
  "mute_env = sample_env\<lparr>en_Api := sample_api\<lparr>api_ListEF := (\<lambda>_ _ _ _. (None, Some ''no answer''))\<rparr>\<rparr>"


theorem listed_by_labels_witness:
  "\<exists>vs f. buildVirtualServiceForMeshDependents (en_Ext sample_env) (en_Params sample_env) rate_tc = Inr vs
     \<and> f \<in> set (wanted_filters sample_env (rate_system ([], [])) rate_tc ''c1'')
     \<and> has_labels (resource_selector ''SHOP'' []) (vs_Labels vs) \<and> \<not> has_labels (resource_selector ''SHOP'' ''qal'') (vs_Labels vs)
     \<and> (\<exists>e. has_labels (resource_selector ''SHOP'' e) (ef_Labels f) \<and> e \<in> set (tc_WorkloadEnv rate_tc))"
proof -
  obtain f where f: "f \<in> set (wanted_filters sample_env (rate_system ([], [])) rate_tc ''c1'')"
    using rate_wanted [of "([], [])"] by (cases "wanted_filters sample_env (rate_system ([], [])) rate_tc ''c1''") auto
  have low: "ToLower ''SHOP'' = ToLower (TC_GetIdentity (InitializeNaavikArgs None) rate_tc)" by code_simp
  obtain vs where vs: "buildVirtualServiceForMeshDependents (en_Ext sample_env) (en_Params sample_env) rate_tc = Inr vs"
    by (rule built_object [OF event_tc(4,5)])
  obtain e where e: "e \<in> set (tc_WorkloadEnv rate_tc)" "\<forall>i e'. has_labels (resource_selector i e') (ef_Labels f) \<longleftrightarrow>
        ToLower i = ToLower (TC_GetIdentity (en_Params sample_env) rate_tc) \<and> (e' = [] \<or> e' = e)"
    "\<forall>i e'. has_labels (resource_selector i e') (vs_Labels vs) \<longleftrightarrow>
        ToLower i = ToLower (TC_GetIdentity (en_Params sample_env) rate_tc) \<and> e' = []"
    using listed_by_labels [OF vs event_tc(4) f] by blast
  have "has_labels (resource_selector ''SHOP'' e) (ef_Labels f)" "has_labels (resource_selector ''SHOP'' []) (vs_Labels vs)"
    "\<not> has_labels (resource_selector ''SHOP'' ''qal'') (vs_Labels vs)"
    unfolding e(2,3) [rule_format] event_params low by simp_all
  with vs f e(1) show ?thesis by blast
qed

end
