(* ===== verification/Flags.thy ===== *)
theory Flags
  imports Options
begin

text \<open>
  The flags of \<open>cmd/root.go\<close>: the command line sets the fields of \<open>options.Params\<close>.

  Parsing the text of the command line is cobra's and pflag's work: here a command line is the list of
  its flags with their parsed values, an array flag with all its values.  Flags of Go's own flag set,
  which \<open>Execute\<close> adds, are registered by libraries and set no parameter.
\<close>

subsection \<open>Registering and parsing\<close>

datatype flag_value = StringValue string | BoolValue bool | IntValue int | DurationValue int
  | ArrayValue "string list"

text \<open>
  A flag is registered with a pointer to the field of \<open>options.Params\<close> it is stored in, a getter and a
  setter here; registering stores the default there.
\<close>

record flag =
  fl_name :: string
  fl_default :: flag_value
  fl_get :: "NaavikArgs \<Rightarrow> flag_value"
  fl_set :: "flag_value \<Rightarrow> NaavikArgs \<Rightarrow> NaavikArgs option"

definition StringVar :: "(NaavikArgs \<Rightarrow> string) \<Rightarrow> ((string \<Rightarrow> string) \<Rightarrow> NaavikArgs \<Rightarrow> NaavikArgs) \<Rightarrow> string \<Rightarrow> string \<Rightarrow> flag" where
  "StringVar get upd name def = \<lparr>fl_name = name, fl_default = StringValue def, fl_get = (\<lambda>p. StringValue (get p)),
     fl_set = (\<lambda>v p. case v of StringValue s \<Rightarrow> Some (upd (\<lambda>_. s) p) | _ \<Rightarrow> None)\<rparr>"

definition BoolVar :: "(NaavikArgs \<Rightarrow> bool) \<Rightarrow> ((bool \<Rightarrow> bool) \<Rightarrow> NaavikArgs \<Rightarrow> NaavikArgs) \<Rightarrow> string \<Rightarrow> bool \<Rightarrow> flag" where
  "BoolVar get upd name def = \<lparr>fl_name = name, fl_default = BoolValue def, fl_get = (\<lambda>p. BoolValue (get p)),
     fl_set = (\<lambda>v p. case v of BoolValue b \<Rightarrow> Some (upd (\<lambda>_. b) p) | _ \<Rightarrow> None)\<rparr>"

definition IntVar :: "(NaavikArgs \<Rightarrow> int) \<Rightarrow> ((int \<Rightarrow> int) \<Rightarrow> NaavikArgs \<Rightarrow> NaavikArgs) \<Rightarrow> string \<Rightarrow> int \<Rightarrow> flag" where
  "IntVar get upd name def = \<lparr>fl_name = name, fl_default = IntValue def, fl_get = (\<lambda>p. IntValue (get p)),
     fl_set = (\<lambda>v p. case v of IntValue i \<Rightarrow> Some (upd (\<lambda>_. i) p) | _ \<Rightarrow> None)\<rparr>"

definition DurationVar :: "(NaavikArgs \<Rightarrow> int) \<Rightarrow> ((int \<Rightarrow> int) \<Rightarrow> NaavikArgs \<Rightarrow> NaavikArgs) \<Rightarrow> string \<Rightarrow> int \<Rightarrow> flag" where
  "DurationVar get upd name def = \<lparr>fl_name = name, fl_default = DurationValue def, fl_get = (\<lambda>p. DurationValue (get p)),
     fl_set = (\<lambda>v p. case v of DurationValue d \<Rightarrow> Some (upd (\<lambda>_. d) p) | _ \<Rightarrow> None)\<rparr>"

definition StringArrayVar :: "(NaavikArgs \<Rightarrow> string goslice) \<Rightarrow> ((string goslice \<Rightarrow> string goslice) \<Rightarrow> NaavikArgs \<Rightarrow> NaavikArgs)
    \<Rightarrow> string \<Rightarrow> string goslice \<Rightarrow> flag" where
  "StringArrayVar get upd name def = \<lparr>fl_name = name, fl_default = ArrayValue (elems def), fl_get = (\<lambda>p. ArrayValue (elems (get p))),
     fl_set = (\<lambda>v p. case v of ArrayValue xs \<Rightarrow> Some (upd (\<lambda>_. Some xs) p) | _ \<Rightarrow> None)\<rparr>"

text \<open>The \<open>init\<close> of \<open>cmd/root.go\<close>, in its order.\<close>

definition persistentFlags :: "flag list" where
  "persistentFlags = [
     StringVar LogLevel LogLevel_update ''log_level'' (LogLevel Defaults),
     BoolVar LogColor LogColor_update ''log_color'' (LogColor Defaults),
     StringVar ConfigResolver ConfigResolver_update ''config_resolver'' (ConfigResolver Defaults),
     StringVar StateChecker StateChecker_update ''state_checker'' (StateChecker Defaults),
     StringVar ConfigPath ConfigPath_update ''config_path'' (ConfigPath Defaults),
     BoolVar EnableProfiling EnableProfiling_update ''enable_profiling'' (EnableProfiling Defaults),
     StringVar ProfilerEndpoint ProfilerEndpoint_update ''profiler_endpoint'' (ProfilerEndpoint Defaults),
     BoolVar ArgoRolloutsEnabled ArgoRolloutsEnabled_update ''argo_rollouts'' (ArgoRolloutsEnabled Defaults),
     IntVar WorkerConcurrency WorkerConcurrency_update ''worker_concurrency'' (WorkerConcurrency Defaults),
     StringVar KubeConfigPath KubeConfigPath_update ''kube_config'' [],
     StringVar SyncNamespace SyncNamespace_update ''sync_namespace'' (SyncNamespace Defaults),
     StringVar ClusterRegistriesNamespace ClusterRegistriesNamespace_update ''secret_namespace'' ''admiral'',
     StringVar DependenciesNamespace DependenciesNamespace_update ''dependency_namespace'' (DependenciesNamespace Defaults),
     DurationVar CacheRefreshInterval CacheRefreshInterval_update ''sync_period'' (CacheRefreshInterval Defaults),
     IntVar AsyncExecutorMaxGoRoutines AsyncExecutorMaxGoRoutines_update ''async_executor_max_goroutines''
       (AsyncExecutorMaxGoRoutines Defaults),
     StringVar WorkloadIdentityKey WorkloadIdentityKey_update ''workload_identity_key'' (WorkloadIdentityKey Defaults),
     StringVar EnvKey EnvKey_update ''env_key'' (EnvKey Defaults),
     StringVar ResourceIgnoreLabel ResourceIgnoreLabel_update ''resource_ignore_label'' (ResourceIgnoreLabel Defaults),
     StringVar SecretSyncLabel SecretSyncLabel_update ''secret_sync_label'' (SecretSyncLabel Defaults),
     StringVar HostnameSuffix HostnameSuffix_update ''hostname_suffix'' (HostnameSuffix Defaults),
     StringVar MeshInjectionEnabledKey MeshInjectionEnabledKey_update ''injection_enabled_label_key''
       (MeshInjectionEnabledKey Defaults),
     StringVar TrafficConfigNamespace TrafficConfigNamespace_update ''traffic_config_namespace'' (TrafficConfigNamespace Defaults),
     StringVar TrafficConfigIdentityKey TrafficConfigIdentityKey_update ''traffic_config_identity_key''
       (TrafficConfigIdentityKey Defaults),
     StringArrayVar AllowedClusterScope AllowedClusterScope_update ''traffic_config_clusters_scope'' (AllowedClusterScope Defaults),
     StringArrayVar IgnoreAssetAliases IgnoreAssetAliases_update ''ignore_asset_aliases'' (IgnoreAssetAliases Defaults),
     StringArrayVar EnvoyFilterVersions EnvoyFilterVersions_update ''envoy_filter_versions'' (EnvoyFilterVersions Defaults),
     StringArrayVar DeprecatedEnvoyFilterVersions DeprecatedEnvoyFilterVersions_update ''deprecated_envoy_filter_versions''
       (DeprecatedEnvoyFilterVersions Defaults),
     StringArrayVar DisabledFeatures DisabledFeatures_update ''disabled_features'' (DisabledFeatures Defaults)]"

text \<open>The parameters after \<open>init\<close>, and after the command line; an unknown flag or a value of the wrong kind is an error.\<close>

definition registered_defaults :: NaavikArgs where
  "registered_defaults = fold (\<lambda>f p. the (fl_set f (fl_default f) p)) persistentFlags zeroArgs"

definition apply_flag :: "string \<times> flag_value \<Rightarrow> NaavikArgs \<Rightarrow> NaavikArgs option" where
  "apply_flag = (\<lambda>(name, v) p. case find (\<lambda>f. fl_name f = name) persistentFlags of None \<Rightarrow> None | Some f \<Rightarrow> fl_set f v p)"

definition parse_flags :: "(string \<times> flag_value) list \<Rightarrow> NaavikArgs option" where
  "parse_flags cl = foreach apply_flag cl registered_defaults"

subsection \<open>The parameters of a command line\<close>

lemma registered: "registered_defaults = Defaults"
  by (simp add: registered_defaults_def persistentFlags_def StringVar_def BoolVar_def IntVar_def DurationVar_def
      StringArrayVar_def zeroArgs_def Defaults_def elems_def)

lemma flag_names: "distinct (map fl_name persistentFlags)"
  by code_simp

definition arrays_set :: "NaavikArgs \<Rightarrow> bool" where
  "arrays_set p \<longleftrightarrow> AllowedClusterScope p \<noteq> None \<and> IgnoreAssetAliases p \<noteq> None \<and> EnvoyFilterVersions p \<noteq> None
     \<and> DeprecatedEnvoyFilterVersions p \<noteq> None \<and> DisabledFeatures p \<noteq> None"

fun same_kind :: "flag_value \<Rightarrow> flag_value \<Rightarrow> bool" where
  "same_kind (StringValue _) (StringValue _) = True"
| "same_kind (BoolValue _) (BoolValue _) = True"
| "same_kind (IntValue _) (IntValue _) = True"
| "same_kind (DurationValue _) (DurationValue _) = True"
| "same_kind (ArrayValue _) (ArrayValue _) = True"
| "same_kind _ _ = False"

lemma flag_vars [simp]:
  "fl_name (StringVar gs us n ds) = n" "fl_default (StringVar gs us n ds) = StringValue ds" "fl_get (StringVar gs us n ds) p = StringValue (gs p)"
  "fl_name (BoolVar gb ub n db) = n" "fl_default (BoolVar gb ub n db) = BoolValue db" "fl_get (BoolVar gb ub n db) p = BoolValue (gb p)"
  "fl_name (IntVar gi ui n di) = n" "fl_default (IntVar gi ui n di) = IntValue di" "fl_get (IntVar gi ui n di) p = IntValue (gi p)"
  "fl_name (DurationVar gi ui n di) = n" "fl_default (DurationVar gi ui n di) = DurationValue di"
  "fl_get (DurationVar gi ui n di) p = DurationValue (gi p)"
  "fl_name (StringArrayVar ga ua n da) = n" "fl_default (StringArrayVar ga ua n da) = ArrayValue (elems da)"
  "fl_get (StringArrayVar ga ua n da) p = ArrayValue (elems (ga p))"
  by (simp_all add: StringVar_def BoolVar_def IntVar_def DurationVar_def StringArrayVar_def)

lemma flag_sets:
  "fl_set (StringVar gs us n ds) v p = Some p' \<longleftrightarrow> (\<exists>x. v = StringValue x \<and> p' = us (\<lambda>_. x) p)"
  "fl_set (BoolVar gb ub n db) v p = Some p' \<longleftrightarrow> (\<exists>x. v = BoolValue x \<and> p' = ub (\<lambda>_. x) p)"
  "fl_set (IntVar gi ui n di) v p = Some p' \<longleftrightarrow> (\<exists>x. v = IntValue x \<and> p' = ui (\<lambda>_. x) p)"
  "fl_set (DurationVar gi ui n di) v p = Some p' \<longleftrightarrow> (\<exists>x. v = DurationValue x \<and> p' = ui (\<lambda>_. x) p)"
  "fl_set (StringArrayVar ga ua n da) v p = Some p' \<longleftrightarrow> (\<exists>x. v = ArrayValue x \<and> p' = ua (\<lambda>_. Some x) p)"
  by (auto simp: StringVar_def BoolVar_def IntVar_def DurationVar_def StringArrayVar_def split: flag_value.splits)

text \<open>Each flag reads back what it stores, and no other flag sees it.\<close>

lemma flags_store:
  "list_all (\<lambda>f. \<forall>v p p'. fl_set f v p = Some p' \<longrightarrow> fl_get f p' = v \<and> (arrays_set p \<longrightarrow> arrays_set p')) persistentFlags"
  unfolding persistentFlags_def list.pred_inject
  by (intro conjI allI TrueI) (simp_all only: flag_sets, (clarsimp simp: arrays_set_def)+)

lemma flags_frame:
  "list_all (\<lambda>f. \<forall>v p p'. fl_set f v p = Some p' \<longrightarrow>
     list_all (\<lambda>g. fl_name g = fl_name f \<or> fl_get g p' = fl_get g p) persistentFlags) persistentFlags"
  unfolding persistentFlags_def list.pred_inject
  by (intro conjI allI TrueI) (simp_all only: flag_sets, clarsimp+)

lemma flags_accept:
  "list_all (\<lambda>f. \<forall>v p. (fl_set f v p \<noteq> None \<longleftrightarrow> same_kind v (fl_default f)) \<and> same_kind (fl_get f p) (fl_default f)) persistentFlags"
proof -
  have iff: "x \<noteq> None \<longleftrightarrow> (\<exists>y. x = Some y)" for x :: "NaavikArgs option" by (cases x) auto
  have kinds: "same_kind v (StringValue s) \<longleftrightarrow> (\<exists>x. v = StringValue x)" "same_kind v (BoolValue b) \<longleftrightarrow> (\<exists>x. v = BoolValue x)"
    "same_kind v (IntValue i) \<longleftrightarrow> (\<exists>x. v = IntValue x)" "same_kind v (DurationValue i) \<longleftrightarrow> (\<exists>x. v = DurationValue x)"
    "same_kind v (ArrayValue xs) \<longleftrightarrow> (\<exists>x. v = ArrayValue x)" for v s b i xs by (cases v; simp)+
  show ?thesis
    unfolding persistentFlags_def list.pred_inject iff
    by (intro conjI allI TrueI) (simp_all only: flag_sets flag_vars kinds, simp_all)
qed

lemma flags_determine:
  assumes "arrays_set p" "arrays_set q" "list_all (\<lambda>f. fl_get f p = fl_get f q) persistentFlags"
  shows "p = q"
proof -
  have arr: "a = b" if "a \<noteq> None" "b \<noteq> None" "elems a = elems b" for a b :: "string goslice"
    using that by (cases a; cases b) simp_all
  note fields = assms(3) [unfolded persistentFlags_def list.pred_inject flag_vars flag_value.inject]
  have "AllowedClusterScope p = AllowedClusterScope q" "IgnoreAssetAliases p = IgnoreAssetAliases q"
    "EnvoyFilterVersions p = EnvoyFilterVersions q" "DeprecatedEnvoyFilterVersions p = DeprecatedEnvoyFilterVersions q"
    "DisabledFeatures p = DisabledFeatures q"
    by (rule arr; use fields assms(1,2) in \<open>simp add: arrays_set_def\<close>)+
  with fields show ?thesis by (intro NaavikArgs.equality) simp_all
qed

lemma flag_of_name:
  assumes "f \<in> set persistentFlags" "g \<in> set persistentFlags" "fl_name f = fl_name g"
  shows "f = g"
  using assms flag_names by (simp add: distinct_map inj_on_def)

lemma find_flag:
  assumes "f \<in> set persistentFlags"
  shows "find (\<lambda>g. fl_name g = fl_name f) persistentFlags = Some f"
proof -
  obtain g where "find (\<lambda>g. fl_name g = fl_name f) persistentFlags = Some g"
    using assms by (cases "find (\<lambda>g. fl_name g = fl_name f) persistentFlags") (auto simp: find_None_iff)
  moreover from this have "g \<in> set persistentFlags" "fl_name g = fl_name f" by (auto simp: find_Some_iff)
  ultimately show ?thesis using flag_of_name [OF _ assms] by simp
qed

lemma apply_flag_Some:
  "apply_flag (n, v) p = Some p' \<longleftrightarrow> (\<exists>f \<in> set persistentFlags. fl_name f = n \<and> fl_set f v p = Some p')"
proof
  assume "apply_flag (n, v) p = Some p'"
  then obtain f where "find (\<lambda>f. fl_name f = n) persistentFlags = Some f" "fl_set f v p = Some p'"
    by (auto simp: apply_flag_def split: option.splits)
  then show "\<exists>f \<in> set persistentFlags. fl_name f = n \<and> fl_set f v p = Some p'" by (auto simp: find_Some_iff)
next
  assume "\<exists>f \<in> set persistentFlags. fl_name f = n \<and> fl_set f v p = Some p'"
  then show "apply_flag (n, v) p = Some p'" using find_flag by (auto simp: apply_flag_def)
qed

lemma apply_flag_effect:
  assumes "apply_flag (n, v) p = Some p'"
  shows "(\<forall>f \<in> set persistentFlags. fl_get f p' = (if fl_name f = n then v else fl_get f p)) \<and> (arrays_set p \<longrightarrow> arrays_set p')"
proof -
  obtain g where g: "g \<in> set persistentFlags" "fl_name g = n" "fl_set g v p = Some p'"
    using assms unfolding apply_flag_Some by blast
  have stored: "fl_get g p' = v \<and> (arrays_set p \<longrightarrow> arrays_set p')"
    using flags_store g unfolding list_all_iff by blast
  have frame: "fl_name f = fl_name g \<or> fl_get f p' = fl_get f p" if "f \<in> set persistentFlags" for f
    using flags_frame g that unfolding list_all_iff by blast
  have "fl_get f p' = (if fl_name f = n then v else fl_get f p)" if f: "f \<in> set persistentFlags" for f
  proof (cases "fl_name f = n")
    case True
    with flag_of_name [OF f g(1)] g(2) stored show ?thesis by simp
  next
    case False
    with frame [OF f] g(2) show ?thesis by simp
  qed
  with stored show ?thesis by blast
qed

lemma parse_from:
  assumes "foreach apply_flag cl p = Some p'"
  shows "(\<forall>f \<in> set persistentFlags. fl_get f p' = (case map_of (rev cl) (fl_name f) of None \<Rightarrow> fl_get f p | Some v \<Rightarrow> v))
    \<and> (arrays_set p \<longrightarrow> arrays_set p')"
  using assms
proof (induction cl arbitrary: p)
  case Nil
  then show ?case by simp
next
  case (Cons a cl)
  obtain n v where a: "a = (n, v)" by (cases a)
  with Cons.prems obtain p1 where p1: "apply_flag (n, v) p = Some p1" "foreach apply_flag cl p1 = Some p'"
    by (auto split: option.splits)
  show ?case using Cons.IH [OF p1(2)] apply_flag_effect [OF p1(1)]
    by (auto simp: a map_of_append map_add_def split: option.splits)
qed

lemma apply_flag_accepts:
  "(\<exists>p'. apply_flag (n, v) p = Some p') \<longleftrightarrow> (\<exists>f \<in> set persistentFlags. fl_name f = n \<and> same_kind v (fl_default f))"
proof -
  have "(\<exists>p'. fl_set f v p = Some p') \<longleftrightarrow> same_kind v (fl_default f)" if "f \<in> set persistentFlags" for f
    using flags_accept that unfolding list_all_iff by auto
  then show ?thesis unfolding apply_flag_Some by blast
qed

lemma parse_accepts:
  "(\<exists>p'. foreach apply_flag cl p = Some p') \<longleftrightarrow>
     (\<forall>(n, v) \<in> set cl. \<exists>f \<in> set persistentFlags. fl_name f = n \<and> same_kind v (fl_default f))"
proof (induction cl arbitrary: p)
  case (Cons a cl)
  obtain n v where a: "a = (n, v)" by (cases a)
  show ?case
  proof (cases "apply_flag (n, v) p")
    case None
    then have "\<not> (\<exists>f \<in> set persistentFlags. fl_name f = n \<and> same_kind v (fl_default f))"
      using apply_flag_accepts [of n v p] by simp
    with None show ?thesis by (auto simp: a)
  next
    case (Some p1)
    then have "\<exists>f \<in> set persistentFlags. fl_name f = n \<and> same_kind v (fl_default f)"
      using apply_flag_accepts [of n v p] by blast
    with Some Cons.IH [of p1] show ?thesis by (simp add: a)
  qed
qed simp

lemma default_of_flag: "f \<in> set persistentFlags \<Longrightarrow> fl_get f registered_defaults = fl_default f"
  unfolding registered persistentFlags_def by (auto simp: Defaults_def elems_def)



end
