(* ===== verification/Bootstrap.thy ===== *)
theory Bootstrap
  imports Flags RemoteClusters LeaseChecker
begin

text \<open>
  How the program starts and ends: the configuration loader of \<open>internal/utils/k8s\<close>, the config resolver,
  the servers of \<open>internal/server/server.go\<close>, and \<open>InitNaavik\<close> of \<open>internal/bootstrap\<close> with its shutdown;
  \<open>main\<close> on a command line.

  Reading a kubeconfig file and building clients from it is client-go's work: the parameters \<open>build\<close>
  and \<open>new\<close>, and the loader of theory RemoteClusters.  Listening on a port is net/http's; a server is
  its address.  Environment variables are strings, empty when unset.
\<close>

subsection \<open>The configuration loader\<close>

text \<open>\<open>BuildConfigFromFlags\<close> answers a configuration (or nil) and an error (or nil).\<close>

definition GetConfigFromPath :: "(string \<Rightarrow> 'rest option \<times> string option) \<Rightarrow> string \<Rightarrow> string + 'rest" where
  "GetConfigFromPath build path =
     (case build path of
        (Some config, None) \<Rightarrow> Inr config
      | (_, err) \<Rightarrow> Inl (''could not retrieve kubeconfig: '' @ (case err of None \<Rightarrow> ''<nil>'' | Some e \<Rightarrow> e)))"

text \<open>The four constructors of a client from a path differ in the constructor from a configuration only.\<close>

definition ClientFromPath :: "(string \<Rightarrow> 'rest option \<times> string option) \<Rightarrow> ('rest \<Rightarrow> string + 'c) \<Rightarrow> string \<Rightarrow> string + 'c" where
  "ClientFromPath build new path = (case GetConfigFromPath build path of Inl err \<Rightarrow> Inl err | Inr config \<Rightarrow> new config)"

definition AdmiralClientFromPath :: "(string \<Rightarrow> 'rest option \<times> string option) \<Rightarrow> ('rest \<Rightarrow> string + 'c) \<Rightarrow> string \<Rightarrow> string + 'c" where
  "AdmiralClientFromPath build new path = (case GetConfigFromPath build path of Inl err \<Rightarrow> Inl err | Inr config \<Rightarrow> new config)"

definition IstioClientFromPath :: "(string \<Rightarrow> 'rest option \<times> string option) \<Rightarrow> ('rest \<Rightarrow> string + 'c) \<Rightarrow> string \<Rightarrow> string + 'c" where
  "IstioClientFromPath build new path = (case GetConfigFromPath build path of Inl err \<Rightarrow> Inl err | Inr config \<Rightarrow> new config)"

definition ArgoClientFromPath :: "(string \<Rightarrow> 'rest option \<times> string option) \<Rightarrow> ('rest \<Rightarrow> string + 'c) \<Rightarrow> string \<Rightarrow> string + 'c" where
  "ArgoClientFromPath build new path = (case GetConfigFromPath build path of Inl err \<Rightarrow> Inl err | Inr config \<Rightarrow> new config)"

subsection \<open>The config resolver\<close>

datatype config_resolver = SecretConfigResolver

text \<open>Another name is fatal.\<close>

definition GetConfigResolver :: "string \<Rightarrow> config_resolver option" where
  "GetConfigResolver configResolver = (if configResolver = ''secret'' then Some SecretConfigResolver else None)"

definition GetKubeConfig :: "config_resolver \<Rightarrow> string \<Rightarrow> string \<Rightarrow> string + string" where
  "GetKubeConfig r secretKey secretValue = (case r of SecretConfigResolver \<Rightarrow> Inr secretValue)"

subsection \<open>Servers\<close>

text \<open>\<open>strconv.Atoi\<close> on a 64-bit platform: an optional sign, digits, and a value that fits.\<close>

definition digit_val :: "char \<Rightarrow> int option" where
  "digit_val c = (let n = (of_char c :: nat) in if 48 \<le> n \<and> n \<le> 57 then Some (int n - 48) else None)"

fun digits_val :: "int \<Rightarrow> string \<Rightarrow> int option" where
  "digits_val acc [] = Some acc"
| "digits_val acc (c # cs) = (case digit_val c of None \<Rightarrow> None | Some d \<Rightarrow> digits_val (acc * 10 + d) cs)"

definition Atoi :: "string \<Rightarrow> int option" where
  "Atoi s = (let sign = (if s \<noteq> [] \<and> hd s = CHR ''-'' then -1 else 1);
                 ds = (if s \<noteq> [] \<and> (hd s = CHR ''-'' \<or> hd s = CHR ''+'') then tl s else s)
     in if ds = [] then None
        else (case digits_val 0 ds of None \<Rightarrow> None
          | Some n \<Rightarrow> if - (2 ^ 63) \<le> sign * n \<and> sign * n < 2 ^ 63 then Some (sign * n) else None))"

record env_vars =
  ev_APP_ENV :: string
  ev_MESH_TRAFFIC_PORT :: string
  ev_ENFORCE_TLS_12 :: string

definition GetEnvironment :: "env_vars \<Rightarrow> string" where
  "GetEnvironment ev = (if length (ev_APP_ENV ev) = 0 then ''dev'' else ev_APP_ENV ev)"

record tls_server =
  ts_Port :: int
  ts_MinTLS12 :: bool

definition startTLSServer :: "env_vars \<Rightarrow> int \<Rightarrow> tls_server" where
  "startTLSServer ev port = \<lparr>ts_Port = port, ts_MinTLS12 = (ev_ENFORCE_TLS_12 ev \<noteq> ''false'')\<rparr>"

text \<open>The ports of the two servers.\<close>

definition ListenAndServe :: "env_vars \<Rightarrow> int \<times> tls_server option" where
  "ListenAndServe ev =
     (let httpport = (case Atoi (ev_MESH_TRAFFIC_PORT ev) of
              None \<Rightarrow> 8090
            | Some n \<Rightarrow> if length (ev_MESH_TRAFFIC_PORT ev) = 0 then 8090 else n)
      in (httpport, if GetEnvironment ev \<noteq> ''dev'' then Some (startTLSServer ev 8443) else None))"

subsection \<open>The program\<close>

record 'cc process =
  pr_HTTP :: int
  pr_TLS :: "tls_server option"
  pr_Profiler :: "string option"
  pr_Lease :: LeaseState
  pr_Registry :: "'cc registry"

text \<open>
  \<open>InitNaavik\<close> up to the wait for a signal; \<open>None\<close>: it ended with a panic on the way, because the state
  checker, the kubeconfig or the config resolver is not there.
\<close>

definition InitNaavik ::
    "env_vars \<Rightarrow> (string \<Rightarrow> 'rest option \<times> string option) \<Rightarrow> ('cc, 'rest) loader \<Rightarrow> NaavikArgs \<Rightarrow> 'cc process option" where
  "InitNaavik ev build ld p = do {
     let profiler = (if EnableProfiling p then Some (''http://'' @ ProfilerEndpoint p) else None);
     let (http, tls) = ListenAndServe ev;
     lease \<leftarrow> startStateChecker (StateChecker p) initialLeaseState;
     case GetConfigFromPath build (KubeConfigPath p) of
       Inl err \<Rightarrow> None
     | Inr k8sConfig \<Rightarrow> do {
         reg \<leftarrow> StartControllers p ld k8sConfig emptyRegistry;
         Some \<lparr>pr_HTTP = http, pr_TLS = tls, pr_Profiler = profiler, pr_Lease = lease, pr_Registry = reg\<rparr>
       }
   }"

text \<open>On a signal the servers are shut down and all controllers stopped.\<close>

definition shutdown :: "'cc process \<Rightarrow> 'cc registry option" where
  "shutdown pr = StopAllControllers (pr_Registry pr)"

text \<open>\<open>main\<close>: the exit code when the command line is not accepted, else the process.\<close>

definition main :: "env_vars \<Rightarrow> (string \<Rightarrow> 'rest option \<times> string option) \<Rightarrow> ('cc, 'rest) loader
    \<Rightarrow> (string \<times> flag_value) list \<Rightarrow> nat + 'cc process option" where
  "main ev build ld cl = (case parse_flags cl of None \<Rightarrow> Inl 1 | Some p \<Rightarrow> Inr (InitNaavik ev build ld p))"

subsection \<open>Starting and stopping controllers\<close>

text \<open>The stop channels of the registered controllers.\<close>

definition stop_channels :: "'cc registry \<Rightarrow> nat set" where
  "stop_channels reg = {n. \<exists>name ctx. gm_get (reg_controllers reg) name = Some ctx \<and> cctx_StopCh ctx = Some n}"

lemma close_loop:
  assumes "distinct (map (cctx_StopCh \<circ> snd) xs)" "\<forall>(name, ctx) \<in> set xs. \<exists>n. cctx_StopCh ctx = Some n \<and> n \<notin> reg_closed reg"
  shows "foreach (\<lambda>(name, ctx). close_stop (cctx_StopCh ctx)) xs reg
     = Some (reg\<lparr>reg_closed := reg_closed reg \<union> {n. \<exists>x \<in> set xs. cctx_StopCh (snd x) = Some n}\<rparr>)"
  using assms
proof (induction xs arbitrary: reg)
  case (Cons x xs)
  obtain name ctx where x: "x = (name, ctx)" by (cases x)
  then obtain n where n: "cctx_StopCh ctx = Some n" "n \<notin> reg_closed reg" using Cons.prems(2) by auto
  have "cctx_StopCh (snd y) \<noteq> Some n" if "y \<in> set xs" for y
    using Cons.prems(1) that n(1) by (force simp: x)
  then have "\<forall>(name, ctx) \<in> set xs. \<exists>m. cctx_StopCh ctx = Some m \<and> m \<notin> reg_closed (reg\<lparr>reg_closed := insert n (reg_closed reg)\<rparr>)"
    using Cons.prems(2) by fastforce
  then have "foreach (\<lambda>(name, ctx). close_stop (cctx_StopCh ctx)) xs (reg\<lparr>reg_closed := insert n (reg_closed reg)\<rparr>)
    = Some (reg\<lparr>reg_closed := insert n (reg_closed reg) \<union> {n. \<exists>x \<in> set xs. cctx_StopCh (snd x) = Some n}\<rparr>)"
    using Cons.IH [of "reg\<lparr>reg_closed := insert n (reg_closed reg)\<rparr>"] Cons.prems(1) by simp
  moreover have "insert n (reg_closed reg) \<union> {n. \<exists>x \<in> set xs. cctx_StopCh (snd x) = Some n}
     = reg_closed reg \<union> {n. \<exists>x \<in> set (x # xs). cctx_StopCh (snd x) = Some n}" using n(1) by (auto simp: x)
  moreover have "close_stop (cctx_StopCh ctx) reg = Some (reg\<lparr>reg_closed := insert n (reg_closed reg)\<rparr>)"
    using n by (simp add: close_stop_def)
  ultimately show ?case by (simp add: x)
qed simp

lemma StopAll_effect:
  assumes "reg_ok reg"
  shows "StopAllControllers reg = Some (reg\<lparr>reg_closed := reg_closed reg \<union> stop_channels reg\<rparr>)"
proof -
  have pairs: "gm_get (reg_controllers reg) name = Some ctx \<longleftrightarrow> (name, ctx) \<in> set (reg_controllers reg)" for name ctx
    using gm.pairs_get [of "reg_controllers reg"] assms by (simp add: reg_ok_def del: gm.pairs_get)
  then have "stop_channels reg = {n. \<exists>x \<in> set (reg_controllers reg). cctx_StopCh (snd x) = Some n}"
    by (auto simp: stop_channels_def) force+
  then show ?thesis unfolding StopAllControllers_def using close_loop reg_ok_pairs(2,3) [OF assms, of "\<lambda>_. True"] by fastforce
qed

lemma get_started:
  "gm_get (reg_controllers (start_controller w name reg)) m =
     (if m = ToLower name then Some \<lparr>cctx_WorkerCtx = [0..<nat w], cctx_StopCh = Some (reg_next reg)\<rparr>
      else gm_get (reg_controllers reg) m)"
  by (simp add: start_controller_def CtlrCache_Register_def)

lemma started_fields: "reg_next (start_controller w name reg) = Suc (reg_next reg)" "reg_closed (start_controller w name reg) = reg_closed reg"
  by (simp_all add: start_controller_def)


subsection \<open>Properties\<close>

lemma reg_ok_StartControllers: "reg_ok reg \<Longrightarrow> StartControllers p ld cfg reg = Some reg' \<Longrightarrow> reg_ok reg'"
  by (auto simp: StartControllers_def Let_def NewTrafficConfigController_def NewDependencyController_def
      NewSecretController_def reg_ok_New split: if_splits)

definition main_controllers :: "('cc, 'rest) loader \<Rightarrow> 'rest \<Rightarrow> string set" where
  "main_controllers ld cfg =
     (if ld_K8sClient ld cfg = None then {ToLower (controller_name SecretControllerNameValue (ld_Host ld cfg) (ld_Host ld cfg))} else {})
     \<union> (if ld_AdmiralClient ld cfg = None
        then {ToLower (controller_name DependencyControllerNameValue (ld_Host ld cfg) (ld_Host ld cfg)),
              ToLower (controller_name TrafficConfigControllerNameValue (ld_Host ld cfg) (ld_Host ld cfg))} else {})"

lemma started_names:
  assumes "StartControllers p ld cfg emptyRegistry = Some reg"
  shows "{name. gm_get (reg_controllers reg) name \<noteq> None} = main_controllers ld cfg"
  using assms by (auto simp: StartControllers_def Let_def NewTrafficConfigController_def NewDependencyController_def
      NewSecretController_def NewController_def get_started main_controllers_def emptyRegistry_def CtlrCache_Reset_def
      split: if_splits option.splits)

lemma main_names:
  "ToLower (controller_name SecretControllerNameValue h h) \<noteq> ToLower (controller_name DependencyControllerNameValue h h)"
  "ToLower (controller_name SecretControllerNameValue h h) \<noteq> ToLower (controller_name TrafficConfigControllerNameValue h h)"
  "ToLower (controller_name DependencyControllerNameValue h h) \<noteq> ToLower (controller_name TrafficConfigControllerNameValue h h)"
proof -
  have low: "ToLower SecretControllerNameValue = ''secret-controller''" "ToLower DependencyControllerNameValue = ''dependency-controller''"
    "ToLower TrafficConfigControllerNameValue = ''traffic-config-controller''" by code_simp+
  show "ToLower (controller_name SecretControllerNameValue h h) \<noteq> ToLower (controller_name DependencyControllerNameValue h h)"
    "ToLower (controller_name SecretControllerNameValue h h) \<noteq> ToLower (controller_name TrafficConfigControllerNameValue h h)"
    "ToLower (controller_name DependencyControllerNameValue h h) \<noteq> ToLower (controller_name TrafficConfigControllerNameValue h h)"
    unfolding controller_name_def ToLower_append low by simp_all
qed

text \<open>Starting a controller under a new name adds its channel; a name that is taken loses the old one.\<close>

lemma stop_channels_start:
  assumes "gm_get (reg_controllers reg) (ToLower name) = None"
  shows "stop_channels (start_controller w name reg) = insert (reg_next reg) (stop_channels reg)"
proof -
  have "n \<in> stop_channels (start_controller w name reg)" if n: "n \<in> stop_channels reg" for n
  proof -
    obtain m ctx where m: "gm_get (reg_controllers reg) m = Some ctx" "cctx_StopCh ctx = Some n"
      using n by (auto simp: stop_channels_def)
    then have "m \<noteq> ToLower name" using assms by auto
    with m show ?thesis by (auto simp: stop_channels_def get_started)
  qed
  moreover have "reg_next reg \<in> stop_channels (start_controller w name reg)"
    by (auto simp: stop_channels_def get_started)
  moreover have "stop_channels (start_controller w name reg) \<subseteq> insert (reg_next reg) (stop_channels reg)"
    by (auto simp: stop_channels_def get_started split: if_splits)
  ultimately show ?thesis by blast
qed

lemma start_all_open:
  assumes "StartControllers p ld cfg emptyRegistry = Some reg"
  shows "stop_channels reg = {..<reg_next reg}" "reg_closed reg = {}"
proof -
  let ?h = "ld_Host ld cfg"
  have new: "gm_get (reg_controllers emptyRegistry) m = None" "reg_next emptyRegistry = 0" "reg_closed emptyRegistry = {}"
    "stop_channels emptyRegistry = {}" for m
    by (simp_all add: emptyRegistry_def CtlrCache_Reset_def stop_channels_def gm_get_def)
  note steps = StartControllers_def Let_def NewTrafficConfigController_def NewDependencyController_def
      NewSecretController_def NewController_def
  show "reg_closed reg = {}" using assms by (auto simp: steps started_fields new split: if_splits option.splits)
  show "stop_channels reg = {..<reg_next reg}"
    using assms main_names [of ?h]
    by (auto simp: steps stop_channels_start get_started started_fields new lessThan_Suc split: if_splits option.splits)
qed


text \<open>
  C38: controllers are registered under the name of the current context of their cluster's kubeconfig.
  When a second cluster has the same context name, its controllers take the names of those of the
  first: the service controller of the first cluster then runs for ever, because neither the shutdown nor
  the stop of any cluster closes its stop channel.
\<close>

theorem same_context_never_stops:
  fixes reg :: "'cc registry" and ld :: "('cc, 'rest) loader"
  assumes ok: "reg_ok reg"
    and a: "ld_ClientConfig ld (rcl_clientConfig a) = Inr ca" "ld_CurrentContext ld (rcl_clientConfig a) = Inr ctx" "ld_K8sClient ld ca = None"
    and b: "ld_ClientConfig ld (rcl_clientConfig b) = Inr cb" "ld_CurrentContext ld (rcl_clientConfig b) = Inr ctx" "ld_K8sClient ld cb = None"
    and ctx: "ctx \<noteq> []"
  shows "\<exists>reg_a reg'. reg_a = StartRemoteClusterControllers p ld a reg \<and> reg' = StartRemoteClusterControllers p ld b reg_a
    \<and> reg_next reg \<in> stop_channels reg_a \<and> reg_next reg \<notin> stop_channels reg'
    \<and> (\<exists>down. StopAllControllers reg' = Some down \<and> reg_next reg \<notin> reg_closed down)
    \<and> (\<forall>c down. StopRemoteClusterControllers c reg' = Some down \<longrightarrow> reg_next reg \<notin> reg_closed down)"
proof -
  let ?n = "reg_next reg" and ?svc = "ToLower (controller_name ''service-controller'' ctx [])"
  define only :: "'cc registry \<Rightarrow> bool" where "only r \<longleftrightarrow> ?n < reg_next r \<and> (\<forall>m c. gm_get (reg_controllers r) m = Some c \<and> cctx_StopCh c = Some ?n \<longrightarrow> m = ?svc)" for r
  define lost :: "'cc registry \<Rightarrow> bool" where "lost r \<longleftrightarrow> ?n < reg_next r \<and> ?n \<notin> stop_channels r" for r
  have name: "controller_name kind ctx host = controller_name kind ctx []" for kind host using ctx by (simp add: controller_name_def)
  have only_keep: "only (NewController p kind nm host err r)" if "only r" for r :: "'cc registry" and kind nm host err
    using that by (auto simp: only_def NewController_def get_started started_fields split: option.split)
  have lost_keep: "lost (NewController p kind nm host err r)" if "lost r" for r :: "'cc registry" and kind nm host err
    using that by (auto simp: lost_def NewController_def stop_channels_def get_started started_fields split: option.splits if_splits)
  have svc: "NewController p ''service-controller'' ctx host None r = start_controller (WorkerConcurrency p) (controller_name ''service-controller'' ctx []) r"
    for host and r :: "'cc registry" by (simp add: NewController_def name [of _ host])
  have first: "only (start_controller w (controller_name ''service-controller'' ctx []) reg)" for w
    using ok by (force simp: only_def get_started started_fields reg_ok_def)
  have second: "lost (start_controller w (controller_name ''service-controller'' ctx []) r)" if "only r" for w r
    using that by (auto simp: lost_def only_def stop_channels_def get_started started_fields split: if_splits)
  note starts = StartRemoteClusterControllers_def NewServiceController_def NewDeploymentController_def NewRolloutsController_def Let_def
  define reg_a where "reg_a = StartRemoteClusterControllers p ld a reg"
  define reg' where "reg' = StartRemoteClusterControllers p ld b reg_a"
  have "only reg_a" using first only_keep by (simp add: reg_a_def starts a svc)
  then have l: "lost reg'" using second lost_keep by (simp add: reg'_def starts b svc)
  have ok': "reg_ok reg'" "reg_ok reg_a" using ok by (simp_all add: reg'_def reg_a_def reg_ok_StartRemote)
  have closed: "?n \<notin> reg_closed reg'"
  proof -
    have "reg_closed (NewController p kind nm host err r) = reg_closed r" for kind nm host err and r :: "'cc registry"
      by (simp add: NewController_def started_fields split: option.split)
    then have "reg_closed reg' = reg_closed reg" by (simp add: reg'_def reg_a_def starts a b)
    with ok show ?thesis by (auto simp: reg_ok_def)
  qed
  have "?n \<in> stop_channels reg_a"
  proof -
    have low: "ToLower ''service-controller'' = ''service-controller''" "ToLower ''deployment-controller'' = ''deployment-controller''"
      "ToLower ''rollouts-controller'' = ''rollouts-controller''" by code_simp+
    have ne: "ToLower (controller_name ''deployment-controller'' x y) \<noteq> ?svc" "ToLower (controller_name ''rollouts-controller'' x y) \<noteq> ?svc" for x y
      unfolding controller_name_def ToLower_append low by simp_all
    have "gm_get (reg_controllers reg_a) ?svc = Some \<lparr>cctx_WorkerCtx = [0..<nat (WorkerConcurrency p)], cctx_StopCh = Some ?n\<rparr>"
      using ne [symmetric] name [of "''service-controller''" "ld_Host ld ca"]
      by (simp add: reg_a_def starts a NewController_def get_started split: option.split)
    then show ?thesis unfolding stop_channels_def by force
  qed
  moreover have "?n \<notin> reg_closed down" if "StopRemoteClusterControllers c reg' = Some down" for c down
    using that l closed by (rule_tac Stop_effect [OF ok'(1), of c]) (auto simp: lost_def stop_channels_def)
  moreover have "\<exists>down. StopAllControllers reg' = Some down \<and> ?n \<notin> reg_closed down"
    using StopAll_effect [OF ok'(1)] l closed by (simp add: lost_def)
  ultimately show ?thesis using l unfolding reg'_def reg_a_def lost_def by blast
qed

subsection \<open>Witnesses\<close>

theorem same_context_never_stops_witness:
  "\<exists>reg_a reg'. reg_a = StartRemoteClusterControllers (InitializeNaavikArgs None) sample_loader sample_cluster sample_registry
     \<and> reg' = StartRemoteClusterControllers (InitializeNaavikArgs None) sample_loader (sample_cluster\<lparr>rcl_clusterID := ''c2''\<rparr>) reg_a
     \<and> reg_next sample_registry \<in> stop_channels reg_a
     \<and> (\<exists>down. StopAllControllers reg' = Some down \<and> reg_next sample_registry \<notin> reg_closed down)"
proof -
  have a: "ld_ClientConfig sample_loader (rcl_clientConfig c) = Inr (rcl_clientConfig c)"
    "ld_CurrentContext sample_loader (rcl_clientConfig c) = Inr ''ctx''" "ld_K8sClient sample_loader x = None" for c :: "nat RemoteCluster" and x
    by (simp_all add: sample_loader_def)
  show ?thesis
    using same_context_never_stops [where p = "InitializeNaavikArgs None" and a = sample_cluster and b = "sample_cluster\<lparr>rcl_clusterID := ''c2''\<rparr>",
        OF sample_registry_ok a(1,2,3) a(1,2,3)] by auto
qed


end
