(* ===== verification/Loggers.thy ===== *)
theory Loggers
  imports Bootstrap
begin

text \<open>
  The two logging backends of \<open>pkg/logger\<close> behind the interface \<open>Logger\<close>: zap outside of development and
  zerolog in it.

  What is used of the two packages: a logger carries fields and hooks; a message is written when its
  level is at least the global level, with the fields of its logger, and then the hooks are called with
  the level and the message; a message of the panic level panics after it is written; the formatted
  variants format with \<open>fmt.Sprintf\<close>, the parameter \<open>sprintf\<close>.  Time stamps are left out.  Loggers are
  pointers into a store, because some methods return a new logger and others change theirs.
\<close>

subsection \<open>Loggers\<close>

datatype severity = TraceLevel | DebugLevel | InfoLevel | WarnLevel | ErrorLevel | FatalLevel

fun LogLevel_String :: "severity \<Rightarrow> string" where
  "LogLevel_String TraceLevel = ''trace''"
| "LogLevel_String DebugLevel = ''debug''"
| "LogLevel_String InfoLevel = ''info''"
| "LogLevel_String WarnLevel = ''warn''"
| "LogLevel_String ErrorLevel = ''error''"
| "LogLevel_String FatalLevel = ''fatal''"

text \<open>\<open>LogArgs\<close> is a slice of arguments given as one argument.\<close>

datatype log_value = LogStr string | LogInt int | LogBool bool | LogAny string | LogArgs "log_value list"

datatype log_text = Msg string | Fmt string "log_value list"

record logger_obj =
  lg_fields :: "(string \<times> log_value) list"
  lg_hooks :: "nat list"

text \<open>A line that was written, with the level it shows and the calls of hooks.\<close>

record line =
  ln_level :: "string option"
  ln_fields :: "(string \<times> log_value) list"
  ln_msg :: string
  ln_hooks :: "(nat \<times> string \<times> string) list"

record 'l log_state =
  lo_level :: 'l
  lo_store :: "logger_obj list"
  lo_lines :: "line list"
  lo_panic :: bool

datatype backend = Zap | Zero

definition NewLogger :: "env_vars \<Rightarrow> backend" where
  "NewLogger ev = (if GetEnvironment ev = ''dev'' then Zero else Zap)"

text \<open>A new logger, made from one in the store with one more field, and a change in place.\<close>

definition new_logger :: "logger_obj \<Rightarrow> 'l log_state \<Rightarrow> 'l log_state \<times> nat" where
  "new_logger lg st = (st\<lparr>lo_store := lo_store st @ [lg]\<rparr>, length (lo_store st))"

definition with_field :: "string \<Rightarrow> log_value \<Rightarrow> logger_obj \<Rightarrow> logger_obj" where
  "with_field key v lg = lg\<lparr>lg_fields := lg_fields lg @ [(key, v)]\<rparr>"

definition set_logger :: "nat \<Rightarrow> logger_obj \<Rightarrow> 'l log_state \<Rightarrow> 'l log_state" where
  "set_logger p lg st = st\<lparr>lo_store := (lo_store st)[p := lg]\<rparr>"

subsection \<open>Zap\<close>

datatype zap_level = ZapDebug | ZapInfo | ZapWarn | ZapError | ZapPanic

fun zap_rank :: "zap_level \<Rightarrow> int" where
  "zap_rank ZapDebug = -1" | "zap_rank ZapInfo = 0" | "zap_rank ZapWarn = 1" | "zap_rank ZapError = 2" | "zap_rank ZapPanic = 4"

fun zap_name :: "zap_level \<Rightarrow> string" where
  "zap_name ZapDebug = ''debug''" | "zap_name ZapInfo = ''info''" | "zap_name ZapWarn = ''warn''"
| "zap_name ZapError = ''error''" | "zap_name ZapPanic = ''panic''"

definition zap_emit :: "zap_level \<Rightarrow> string option \<Rightarrow> string \<Rightarrow> nat \<Rightarrow> zap_level log_state \<Rightarrow> zap_level log_state" where
  "zap_emit lvl shown msg p st =
     (let lg = lo_store st ! p in
      st\<lparr>lo_lines := lo_lines st @ (if zap_rank (lo_level st) \<le> zap_rank lvl
            then [\<lparr>ln_level = shown, ln_fields = lg_fields lg, ln_msg = msg,
                   ln_hooks = map (\<lambda>h. (h, zap_name lvl, msg)) (lg_hooks lg)\<rparr>] else []),
         lo_panic := lo_panic st \<or> lvl = ZapPanic\<rparr>)"

text \<open>The methods \<open>Trace\<close> to \<open>Fatalf\<close>; \<open>Debugf\<close> passes the slice of its arguments as one argument.\<close>

fun zap_Log :: "(string \<Rightarrow> log_value list \<Rightarrow> string) \<Rightarrow> severity \<Rightarrow> log_text \<Rightarrow> nat \<Rightarrow> zap_level log_state \<Rightarrow> zap_level log_state" where
  "zap_Log sprintf TraceLevel (Msg msg) p st = zap_emit ZapDebug (Some (LogLevel_String TraceLevel)) msg p st"
| "zap_Log sprintf TraceLevel (Fmt msg args) p st = zap_emit ZapDebug (Some (LogLevel_String TraceLevel)) (sprintf msg args) p st"
| "zap_Log sprintf DebugLevel (Msg msg) p st = zap_emit ZapDebug (Some (LogLevel_String DebugLevel)) msg p st"
| "zap_Log sprintf DebugLevel (Fmt msg args) p st = zap_emit ZapDebug (Some (LogLevel_String DebugLevel)) (sprintf msg [LogArgs args]) p st"
| "zap_Log sprintf InfoLevel (Msg msg) p st = zap_emit ZapInfo (Some (LogLevel_String InfoLevel)) msg p st"
| "zap_Log sprintf InfoLevel (Fmt msg args) p st = zap_emit ZapInfo (Some (LogLevel_String InfoLevel)) (sprintf msg args) p st"
| "zap_Log sprintf WarnLevel (Msg msg) p st = zap_emit ZapWarn (Some (LogLevel_String WarnLevel)) msg p st"
| "zap_Log sprintf WarnLevel (Fmt msg args) p st = zap_emit ZapWarn (Some (LogLevel_String WarnLevel)) (sprintf msg args) p st"
| "zap_Log sprintf ErrorLevel (Msg msg) p st = zap_emit ZapError (Some (LogLevel_String ErrorLevel)) msg p st"
| "zap_Log sprintf ErrorLevel (Fmt msg args) p st = zap_emit ZapError (Some (LogLevel_String ErrorLevel)) (sprintf msg args) p st"
| "zap_Log sprintf FatalLevel (Msg msg) p st = zap_emit ZapPanic (Some (LogLevel_String FatalLevel)) msg p st"
| "zap_Log sprintf FatalLevel (Fmt msg args) p st = zap_emit ZapPanic (Some (LogLevel_String FatalLevel)) (sprintf msg args) p st"

definition zap_HandleError :: "string \<Rightarrow> nat \<Rightarrow> zap_level log_state \<Rightarrow> zap_level log_state" where
  "zap_HandleError err p st = zap_emit ZapError None err p st"

text \<open>\<open>Str\<close>, \<open>Int\<close>, \<open>Bool\<close> and \<open>Any\<close>; then \<open>WithStr\<close>, \<open>WithInt\<close>, \<open>WithBool\<close> and \<open>With\<close>.\<close>

definition zap_Field :: "string \<Rightarrow> log_value \<Rightarrow> nat \<Rightarrow> zap_level log_state \<Rightarrow> zap_level log_state \<times> nat" where
  "zap_Field key v p st = new_logger (with_field key v (lo_store st ! p)) st"

definition zap_With :: "string \<Rightarrow> log_value \<Rightarrow> nat \<Rightarrow> zap_level log_state \<Rightarrow> zap_level log_state" where
  "zap_With key v p st = set_logger p (with_field key v (lo_store st ! p)) st"

definition zap_GetLogLevel :: "zap_level log_state \<Rightarrow> string" where
  "zap_GetLogLevel st = zap_name (lo_level st)"

definition zap_Hook :: "nat \<Rightarrow> nat \<Rightarrow> zap_level log_state \<Rightarrow> zap_level log_state" where
  "zap_Hook h p st = set_logger p ((lo_store st ! p)\<lparr>lg_hooks := lg_hooks (lo_store st ! p) @ [h]\<rparr>) st"

definition zap_SetLogLevel :: "string \<Rightarrow> zap_level log_state \<Rightarrow> zap_level log_state" where
  "zap_SetLogLevel level st =
     (if level = ''trace'' then st\<lparr>lo_level := ZapDebug\<rparr>
      else if level = ''debug'' then st\<lparr>lo_level := ZapDebug\<rparr>
      else if level = ''info'' then st\<lparr>lo_level := ZapInfo\<rparr>
      else if level = ''warn'' then st\<lparr>lo_level := ZapWarn\<rparr>
      else if level = ''error'' then st\<lparr>lo_level := ZapError\<rparr>
      else st)"

text \<open>Go compares strings byte by byte.\<close>

fun string_less :: "string \<Rightarrow> string \<Rightarrow> bool" where
  "string_less _ [] = False"
| "string_less [] (y # ys) = True"
| "string_less (x # xs) (y # ys) =
     ((of_char x :: nat) < of_char y \<or> x = y \<and> string_less xs ys)"

record encoder_config =
  ec_ColorLevels :: bool
  ec_LevelKey :: string
  ec_StacktraceKey :: string

definition GetEncoderConfig :: "env_vars \<Rightarrow> NaavikArgs \<Rightarrow> zap_level log_state \<Rightarrow> encoder_config" where
  "GetEncoderConfig ev p st =
     (let ec = \<lparr>ec_ColorLevels = LogColor p, ec_LevelKey = [], ec_StacktraceKey = []\<rparr> in
      if GetEnvironment ev = ''dev'' then ec\<lparr>ec_LevelKey := ''level''\<rparr>
      else if string_less (LogLevel_String TraceLevel) (zap_name (lo_level st)) then ec\<lparr>ec_StacktraceKey := ''stacktrace''\<rparr>
      else ec)"

subsection \<open>Zerolog\<close>

datatype zero_level = ZeroTrace | ZeroDebug | ZeroInfo | ZeroWarn | ZeroError | ZeroPanic

fun zero_rank :: "zero_level \<Rightarrow> int" where
  "zero_rank ZeroTrace = -1" | "zero_rank ZeroDebug = 0" | "zero_rank ZeroInfo = 1" | "zero_rank ZeroWarn = 2"
| "zero_rank ZeroError = 3" | "zero_rank ZeroPanic = 5"

fun zero_name :: "zero_level \<Rightarrow> string" where
  "zero_name ZeroTrace = ''trace''" | "zero_name ZeroDebug = ''debug''" | "zero_name ZeroInfo = ''info''"
| "zero_name ZeroWarn = ''warn''" | "zero_name ZeroError = ''error''" | "zero_name ZeroPanic = ''panic''"

definition zero_emit :: "zero_level \<Rightarrow> string \<Rightarrow> nat \<Rightarrow> zero_level log_state \<Rightarrow> zero_level log_state" where
  "zero_emit lvl msg p st =
     (let lg = lo_store st ! p in
      st\<lparr>lo_lines := lo_lines st @ (if zero_rank (lo_level st) \<le> zero_rank lvl
            then [\<lparr>ln_level = Some (zero_name lvl), ln_fields = lg_fields lg, ln_msg = msg,
                   ln_hooks = map (\<lambda>h. (h, zero_name lvl, msg)) (lg_hooks lg)\<rparr>] else []),
         lo_panic := lo_panic st \<or> lvl = ZeroPanic\<rparr>)"

fun zero_Log :: "(string \<Rightarrow> log_value list \<Rightarrow> string) \<Rightarrow> severity \<Rightarrow> log_text \<Rightarrow> nat \<Rightarrow> zero_level log_state \<Rightarrow> zero_level log_state" where
  "zero_Log sprintf TraceLevel (Msg msg) p st = zero_emit ZeroTrace msg p st"
| "zero_Log sprintf TraceLevel (Fmt msg args) p st = zero_emit ZeroTrace (sprintf msg args) p st"
| "zero_Log sprintf DebugLevel (Msg msg) p st = zero_emit ZeroDebug msg p st"
| "zero_Log sprintf DebugLevel (Fmt msg args) p st = zero_emit ZeroDebug (sprintf msg args) p st"
| "zero_Log sprintf InfoLevel (Msg msg) p st = zero_emit ZeroInfo msg p st"
| "zero_Log sprintf InfoLevel (Fmt msg args) p st = zero_emit ZeroInfo (sprintf msg args) p st"
| "zero_Log sprintf WarnLevel (Msg msg) p st = zero_emit ZeroWarn msg p st"
| "zero_Log sprintf WarnLevel (Fmt msg args) p st = zero_emit ZeroWarn (sprintf msg args) p st"
| "zero_Log sprintf ErrorLevel (Msg msg) p st = zero_emit ZeroError msg p st"
| "zero_Log sprintf ErrorLevel (Fmt msg args) p st = zero_emit ZeroError (sprintf msg args) p st"
| "zero_Log sprintf FatalLevel (Msg msg) p st = zero_emit ZeroPanic msg p st"
| "zero_Log sprintf FatalLevel (Fmt msg args) p st = zero_emit ZeroPanic (sprintf msg args) p st"

definition zero_HandleError :: "string \<Rightarrow> nat \<Rightarrow> zero_level log_state \<Rightarrow> zero_level log_state" where
  "zero_HandleError err p st = zero_emit ZeroError err p st"

definition zero_Field :: "string \<Rightarrow> log_value \<Rightarrow> nat \<Rightarrow> zero_level log_state \<Rightarrow> zero_level log_state \<times> nat" where
  "zero_Field key v p st = new_logger (with_field key v (lo_store st ! p)) st"

definition zero_With :: "string \<Rightarrow> log_value \<Rightarrow> nat \<Rightarrow> zero_level log_state \<Rightarrow> zero_level log_state" where
  "zero_With key v p st = set_logger p (with_field key v (lo_store st ! p)) st"

definition zero_GetLogLevel :: "zero_level log_state \<Rightarrow> string" where
  "zero_GetLogLevel st = zero_name (lo_level st)"

definition zero_Hook :: "nat \<Rightarrow> nat \<Rightarrow> zero_level log_state \<Rightarrow> zero_level log_state" where
  "zero_Hook h p st = set_logger p ((lo_store st ! p)\<lparr>lg_hooks := lg_hooks (lo_store st ! p) @ [h]\<rparr>) st"

definition zero_SetLogLevel :: "string \<Rightarrow> zero_level log_state \<Rightarrow> zero_level log_state" where
  "zero_SetLogLevel level st =
     (if level = ''trace'' then st\<lparr>lo_level := ZeroTrace\<rparr>
      else if level = ''debug'' then st\<lparr>lo_level := ZeroDebug\<rparr>
      else if level = ''info'' then st\<lparr>lo_level := ZeroInfo\<rparr>
      else if level = ''warn'' then st\<lparr>lo_level := ZeroWarn\<rparr>
      else if level = ''error'' then st\<lparr>lo_level := ZeroError\<rparr>
      else st)"

subsection \<open>The interface\<close>

text \<open>What the users of a \<open>Logger\<close> rely on, whichever backend is behind it.\<close>

locale logger_interface =
  fixes Log :: "(string \<Rightarrow> log_value list \<Rightarrow> string) \<Rightarrow> severity \<Rightarrow> log_text \<Rightarrow> nat \<Rightarrow> 'l log_state \<Rightarrow> 'l log_state"
    and HandleError :: "string \<Rightarrow> nat \<Rightarrow> 'l log_state \<Rightarrow> 'l log_state"
    and Field :: "string \<Rightarrow> log_value \<Rightarrow> nat \<Rightarrow> 'l log_state \<Rightarrow> 'l log_state \<times> nat"
    and With :: "string \<Rightarrow> log_value \<Rightarrow> nat \<Rightarrow> 'l log_state \<Rightarrow> 'l log_state"
    and SetLogLevel :: "string \<Rightarrow> 'l log_state \<Rightarrow> 'l log_state"
  assumes log_store [simp]: "lo_store (Log f s t p st) = lo_store st"
    and error_store [simp]: "lo_store (HandleError e p st) = lo_store st"
    and level_store [simp]: "lo_store (SetLogLevel l st) = lo_store st"
    and field_new: "Field key v p st = new_logger (with_field key v (lo_store st ! p)) st"
    and with_set: "With key v p st = set_logger p (with_field key v (lo_store st ! p)) st"
    and log_lines: "\<exists>ls. lo_lines (Log f s t p st) = lo_lines st @ ls \<and> (\<forall>l \<in> set ls. ln_fields l = lg_fields (lo_store st ! p))"
begin

text \<open>A derived logger is new and leaves every other one as it is; a change in place is seen through the same pointer only.\<close>

lemma derived_isolated:
  assumes "Field key v p st = (st', q)"
  shows "q = length (lo_store st)" "lo_store st' ! q = with_field key v (lo_store st ! p)"
    "i < length (lo_store st) \<Longrightarrow> lo_store st' ! i = lo_store st ! i"
  using assms by (auto simp: field_new new_logger_def nth_append)

lemma changed_in_place:
  assumes "p < length (lo_store st)"
  shows "lo_store (With key v p st) ! p = with_field key v (lo_store st ! p)" "i \<noteq> p \<Longrightarrow> lo_store (With key v p st) ! i = lo_store st ! i"
  using assms by (simp_all add: with_set set_logger_def)

text \<open>A line of a derived logger has the fields of its origin and the new one.\<close>

lemma derived_line:
  assumes "Field key v p st = (st', q)" "l \<in> set (drop (length (lo_lines st')) (lo_lines (Log f s t q st')))"
  shows "ln_fields l = lg_fields (lo_store st ! p) @ [(key, v)]"
  using log_lines [of f s t q st'] assms derived_isolated(2) [OF assms(1)] by (auto simp: with_field_def)

end

lemma zap_log_emits: "\<exists>lvl shown msg. zap_Log f s t p st = zap_emit lvl shown msg p st"
  by (cases s; cases t) auto

lemma zero_log_emits: "\<exists>lvl msg. zero_Log f s t p st = zero_emit lvl msg p st"
  by (cases s; cases t) auto

interpretation zap: logger_interface zap_Log zap_HandleError zap_Field zap_With zap_SetLogLevel
proof
  fix f s t p and st :: "zap_level log_state"
  obtain lvl shown msg where e: "zap_Log f s t p st = zap_emit lvl shown msg p st" using zap_log_emits by blast
  show "lo_store (zap_Log f s t p st) = lo_store st"
    "\<exists>ls. lo_lines (zap_Log f s t p st) = lo_lines st @ ls \<and> (\<forall>l \<in> set ls. ln_fields l = lg_fields (lo_store st ! p))"
    unfolding e by (auto simp: zap_emit_def Let_def)
qed (simp_all add: zap_HandleError_def zap_emit_def Let_def zap_SetLogLevel_def zap_Field_def zap_With_def)

interpretation zero: logger_interface zero_Log zero_HandleError zero_Field zero_With zero_SetLogLevel
proof
  fix f s t p and st :: "zero_level log_state"
  obtain lvl msg where e: "zero_Log f s t p st = zero_emit lvl msg p st" using zero_log_emits by blast
  show "lo_store (zero_Log f s t p st) = lo_store st"
    "\<exists>ls. lo_lines (zero_Log f s t p st) = lo_lines st @ ls \<and> (\<forall>l \<in> set ls. ln_fields l = lg_fields (lo_store st ! p))"
    unfolding e by (auto simp: zero_emit_def Let_def)
qed (simp_all add: zero_HandleError_def zero_emit_def Let_def zero_SetLogLevel_def zero_Field_def zero_With_def)

subsection \<open>The filter for klog's messages\<close>

text \<open>
  \<open>klogFilter\<close> of \<open>internal/bootstrap/controllers.go\<close>: formatted messages of klog are dropped; those about
  failed lists are logged with the program's logger first, \<open>log\<close> at \<open>p\<close>.  The others pass.
\<close>

definition klog_Filter :: "log_value list \<Rightarrow> log_value list" where
  "klog_Filter args = args"

definition klog_FilterF ::
    "((string \<Rightarrow> log_value list \<Rightarrow> string) \<Rightarrow> severity \<Rightarrow> log_text \<Rightarrow> nat \<Rightarrow> 'l log_state \<Rightarrow> 'l log_state)
       \<Rightarrow> (string \<Rightarrow> log_value list \<Rightarrow> string) \<Rightarrow> nat \<Rightarrow> string \<Rightarrow> log_value list \<Rightarrow> 'l log_state \<Rightarrow> 'l log_state \<times> string \<times> log_value list" where
  "klog_FilterF log sprintf p format args st =
     (if Contains format ''failed to list'' then log sprintf WarnLevel (Fmt format args) p st else st, [], [])"

definition klog_FilterS :: "string \<Rightarrow> log_value list \<Rightarrow> string \<times> log_value list" where
  "klog_FilterS msg keysAndValues = (msg, keysAndValues)"

text \<open>A failed list is a warning with either backend; nothing else of klog's formatted messages is written.\<close>

lemma failed_lists_are_warnings:
  "lo_lines (fst (klog_FilterF zap_Log f p format args st)) = lo_lines st @
     (if Contains format ''failed to list'' \<and> zap_rank (lo_level st) \<le> 1
      then [\<lparr>ln_level = Some ''warn'', ln_fields = lg_fields (lo_store st ! p), ln_msg = f format args,
        ln_hooks = map (\<lambda>h. (h, ''warn'', f format args)) (lg_hooks (lo_store st ! p))\<rparr>] else [])"
  "lo_lines (fst (klog_FilterF zero_Log f p format args st')) = lo_lines st' @
     (if Contains format ''failed to list'' \<and> zero_rank (lo_level st') \<le> 2
      then [\<lparr>ln_level = Some ''warn'', ln_fields = lg_fields (lo_store st' ! p), ln_msg = f format args,
        ln_hooks = map (\<lambda>h. (h, ''warn'', f format args)) (lg_hooks (lo_store st' ! p))\<rparr>] else [])"
  by (simp_all add: klog_FilterF_def zap_emit_def zero_emit_def Let_def)

text \<open>
  \<open>rudimentaryErrorBackoff.OnError\<close>, which reads the clock twice: the new time of the last error, and how
  long the caller sleeps.
\<close>

definition OnError :: "int \<Rightarrow> int \<Rightarrow> int \<Rightarrow> int \<Rightarrow> int \<times> int" where
  "OnError minPeriod lastErrorTime now now' = (let d = now - lastErrorTime in (now', max 0 (minPeriod - d)))"

text \<open>A caller returns no sooner than the minimal period after the error before, and sleeps no longer than that.\<close>

lemma OnError_spacing:
  assumes "now \<le> now'" "lastErrorTime \<le> now" "0 \<le> minPeriod" "OnError minPeriod lastErrorTime now now' = (last', sleep)"
  shows "lastErrorTime + minPeriod \<le> last' + sleep \<and> 0 \<le> sleep \<and> sleep \<le> minPeriod"
  using assms by (auto simp: OnError_def Let_def)

subsection \<open>The two backends side by side\<close>

datatype log_call = CallLog severity log_text nat | CallError string nat | CallField string log_value nat
  | CallWith string log_value nat | CallHook nat nat | CallLevel string

fun zap_exec :: "(string \<Rightarrow> log_value list \<Rightarrow> string) \<Rightarrow> log_call \<Rightarrow> zap_level log_state \<Rightarrow> zap_level log_state" where
  "zap_exec f (CallLog s t p) st = zap_Log f s t p st"
| "zap_exec f (CallError e p) st = zap_HandleError e p st"
| "zap_exec f (CallField key v p) st = fst (zap_Field key v p st)"
| "zap_exec f (CallWith key v p) st = zap_With key v p st"
| "zap_exec f (CallHook h p) st = zap_Hook h p st"
| "zap_exec f (CallLevel l) st = zap_SetLogLevel l st"

fun zero_exec :: "(string \<Rightarrow> log_value list \<Rightarrow> string) \<Rightarrow> log_call \<Rightarrow> zero_level log_state \<Rightarrow> zero_level log_state" where
  "zero_exec f (CallLog s t p) st = zero_Log f s t p st"
| "zero_exec f (CallError e p) st = zero_HandleError e p st"
| "zero_exec f (CallField key v p) st = fst (zero_Field key v p st)"
| "zero_exec f (CallWith key v p) st = zero_With key v p st"
| "zero_exec f (CallHook h p) st = zero_Hook h p st"
| "zero_exec f (CallLevel l) st = zero_SetLogLevel l st"

text \<open>The calls the backends do not treat alike: messages of the trace level, and \<open>Debugf\<close>.\<close>

fun treated_alike :: "log_call \<Rightarrow> bool" where
  "treated_alike (CallLog TraceLevel t p) = False"
| "treated_alike (CallLog DebugLevel (Fmt m args) p) = False"
| "treated_alike _ = True"

definition same_line :: "line \<Rightarrow> line \<Rightarrow> bool" where
  "same_line a b \<longleftrightarrow> ln_fields a = ln_fields b \<and> ln_msg a = ln_msg b \<and> ln_hooks a = ln_hooks b
     \<and> (ln_level a = ln_level b \<or> ln_level a = None \<and> ln_level b = Some ''error''
        \<or> ln_level a = Some ''fatal'' \<and> ln_level b = Some ''panic'')"

fun levels_agree :: "zap_level \<Rightarrow> zero_level \<Rightarrow> bool" where
  "levels_agree ZapDebug l \<longleftrightarrow> l = ZeroTrace \<or> l = ZeroDebug"
| "levels_agree ZapInfo l \<longleftrightarrow> l = ZeroInfo"
| "levels_agree ZapWarn l \<longleftrightarrow> l = ZeroWarn"
| "levels_agree ZapError l \<longleftrightarrow> l = ZeroError"
| "levels_agree ZapPanic l \<longleftrightarrow> False"

definition backends_in_step :: "zap_level log_state \<Rightarrow> zero_level log_state \<Rightarrow> bool" where
  "backends_in_step s t \<longleftrightarrow> levels_agree (lo_level s) (lo_level t) \<and> lo_store s = lo_store t
     \<and> list_all2 same_line (lo_lines s) (lo_lines t) \<and> lo_panic s = lo_panic t"

lemma emit_in_step:
  assumes "backends_in_step s t"
    and "(zl, shown, ol) \<in> {(ZapDebug, Some ''debug'', ZeroDebug), (ZapInfo, Some ''info'', ZeroInfo), (ZapWarn, Some ''warn'', ZeroWarn),
      (ZapError, Some ''error'', ZeroError), (ZapError, None, ZeroError), (ZapPanic, Some ''fatal'', ZeroPanic)}"
  shows "backends_in_step (zap_emit zl shown msg p s) (zero_emit ol msg p t)"
proof -
  have "zap_rank (lo_level s) \<le> zap_rank zl \<longleftrightarrow> zero_rank (lo_level t) \<le> zero_rank ol"
    using assms unfolding backends_in_step_def by (cases "lo_level s") auto
  moreover have "zap_name zl = zero_name ol" "zl = ZapPanic \<longleftrightarrow> ol = ZeroPanic" using assms(2) by auto
  moreover have "same_line \<lparr>ln_level = shown, ln_fields = fs, ln_msg = m, ln_hooks = hs\<rparr>
      \<lparr>ln_level = Some (zero_name ol), ln_fields = fs, ln_msg = m, ln_hooks = hs\<rparr>" for fs m hs
    using assms(2) by (auto simp: same_line_def)
  ultimately show ?thesis using assms(1)
    by (auto simp: backends_in_step_def zap_emit_def zero_emit_def Let_def intro!: list_all2_appendI)
qed

lemma set_level_in_step:
  assumes "backends_in_step s t"
  shows "backends_in_step (zap_SetLogLevel l s) (zero_SetLogLevel l t)"
  using assms by (auto simp: backends_in_step_def zap_SetLogLevel_def zero_SetLogLevel_def)

lemma log_in_step:
  assumes "backends_in_step s t" "treated_alike (CallLog sev tx p)"
  shows "backends_in_step (zap_Log f sev tx p s) (zero_Log f sev tx p t)"
  using assms by (cases sev; cases tx) (auto intro!: emit_in_step)

lemma exec_in_step:
  assumes "backends_in_step s t" "treated_alike c"
  shows "backends_in_step (zap_exec f c s) (zero_exec f c t)"
proof (cases c)
  case (CallError e p)
  then show ?thesis using assms by (auto simp: zap_HandleError_def zero_HandleError_def intro!: emit_in_step)
qed (use assms log_in_step set_level_in_step in \<open>auto simp: backends_in_step_def zap_Field_def zero_Field_def zap_With_def
    zero_With_def zap_Hook_def zero_Hook_def new_logger_def set_logger_def\<close>)

lemma run_in_step:
  assumes "backends_in_step s t" "\<forall>c \<in> set cs. treated_alike c"
  shows "backends_in_step (fold (zap_exec f) cs s) (fold (zero_exec f) cs t)"
  using assms by (induction cs arbitrary: s t) (auto intro: exec_in_step)

subsection \<open>Properties\<close>


text \<open>
  The stack traces that are meant for the levels above trace come with warnings only: the levels are
  compared as strings.
\<close>

lemma stacktrace_at_warn:
  assumes "GetEnvironment ev \<noteq> ''dev''"
  shows "ec_StacktraceKey (GetEncoderConfig ev p st) = ''stacktrace'' \<longleftrightarrow> lo_level st = ZapWarn"
  using assms by (cases "lo_level st") (simp_all add: GetEncoderConfig_def Let_def)

subsection \<open>Witness\<close>

definition sample_calls :: "log_call list" where
  "sample_calls = [CallField ''controller'' (LogStr ''c'') 0, CallLog InfoLevel (Fmt ''m'' [LogInt 1]) 1,
     CallWith ''op'' (LogStr ''x'') 0, CallLog DebugLevel (Msg ''d'') 0, CallError ''e'' 0, CallLog FatalLevel (Msg ''f'') 0]"


end
