(* ===== verification/WorkloadHandlers.thy ===== *)
theory WorkloadHandlers
  imports TrafficConfigHandler
begin

text \<open>
  The handlers of \<open>internal/handler/k8shandler\<close>: deployments, Argo rollouts and services of a remote
  cluster, whose id is the handler's only field.  They keep the workload caches and the clusters of each
  identity; a new workload triggers the traffic config handler for its identity.
\<close>

subsection \<open>Deployments\<close>

definition Deployment_Added ::
    "'w environment \<Rightarrow> string \<Rightarrow> context_t \<Rightarrow> k8s_object option \<Rightarrow> nat option
       \<Rightarrow> ('cc, 'w) system \<times> chans \<Rightarrow> ('cc, 'w) handled" where
  "Deployment_Added env clusterID ctx obj statusChan = (\<lambda>(st, cs).
     case as_Deployment obj of
       None \<Rightarrow> logged ctx (finish statusChan st cs)
     | Some w \<Rightarrow>
         if IsResourceIgnored (en_Params env) (wl_Template w) \<or> \<not> IsResourceMeshEnabled (en_Params env) (wl_Template w)
         then finish statusChan st cs
         else (let workloadIdentifier = GetWorkloadIdentifier (en_Params env) (wl_Template w) in
           if length workloadIdentifier = 0 then logged ctx (finish statusChan st cs)
           else logged ctx (let st1 = st
               \<lparr>sy_IdentityCluster := AddClusterToIdentity workloadIdentifier clusterID (sy_IdentityCluster st),
                sy_Deployments := Deployments_Add (en_Params env) clusterID w (sy_Deployments st)\<rparr> in
             if \<not> cache_warm env st1 then finish statusChan st1 cs
             else do {
               (st2, cs2) \<leftarrow> TriggerTrafficConfigHandlerForIdentity env ctx workloadIdentifier statusChan (st1, cs);
               finish statusChan st2 cs2
             })))"

definition Deployment_Updated ::
    "'w environment \<Rightarrow> string \<Rightarrow> context_t \<Rightarrow> k8s_object option \<Rightarrow> k8s_object option \<Rightarrow> nat option
       \<Rightarrow> ('cc, 'w) system \<times> chans \<Rightarrow> ('cc, 'w) handled" where
  "Deployment_Updated env clusterID ctx newObj oldObj statusChan = (\<lambda>(st, cs).
     case (as_Deployment newObj, as_Deployment oldObj) of
       (Some new, Some old) \<Rightarrow>
         if IsResourceIgnored (en_Params env) (wl_Template new) \<or> \<not> IsResourceMeshEnabled (en_Params env) (wl_Template new)
         then finish statusChan st cs
         else (let newIdentifier = GetWorkloadIdentifier (en_Params env) (wl_Template new);
                   oldIdentifier = GetWorkloadIdentifier (en_Params env) (wl_Template old) in
           if length newIdentifier = 0 then logged ctx (finish statusChan st cs)
           else logged ctx (let st1 = (if length oldIdentifier > 0 \<and> newIdentifier \<noteq> oldIdentifier then st
                   \<lparr>sy_IdentityCluster := DeleteClusterFromIdentity oldIdentifier clusterID (sy_IdentityCluster st),
                    sy_Deployments := Deployments_Delete (en_Params env) clusterID old (sy_Deployments st)\<rparr> else st);
                 st2 = st1
                   \<lparr>sy_IdentityCluster := AddClusterToIdentity newIdentifier clusterID (sy_IdentityCluster st1),
                    sy_Deployments := Deployments_Add (en_Params env) clusterID new (sy_Deployments st1)\<rparr> in
             finish statusChan st2 cs))
     | _ \<Rightarrow> logged ctx (finish statusChan st cs))"

definition Deployment_Deleted ::
    "'w environment \<Rightarrow> string \<Rightarrow> context_t \<Rightarrow> k8s_object option \<Rightarrow> nat option
       \<Rightarrow> ('cc, 'w) system \<times> chans \<Rightarrow> ('cc, 'w) handled" where
  "Deployment_Deleted env clusterID ctx obj statusChan = (\<lambda>(st, cs).
     case as_Deployment obj of
       None \<Rightarrow> logged ctx (finish statusChan st cs)
     | Some w \<Rightarrow>
         if IsResourceIgnored (en_Params env) (wl_Template w) \<or> \<not> IsResourceMeshEnabled (en_Params env) (wl_Template w)
         then finish statusChan st cs
         else (let workloadIdentifier = GetWorkloadIdentifier (en_Params env) (wl_Template w) in
           if length workloadIdentifier = 0 then logged ctx (finish statusChan st cs)
           else logged ctx (finish statusChan (st
             \<lparr>sy_Deployments := Deployments_Delete (en_Params env) clusterID w (sy_Deployments st),
              sy_IdentityCluster := DeleteClusterFromIdentity workloadIdentifier clusterID (sy_IdentityCluster st)\<rparr>) cs)))"

subsection \<open>Rollouts\<close>

definition Rollout_Added ::
    "'w environment \<Rightarrow> string \<Rightarrow> context_t \<Rightarrow> k8s_object option \<Rightarrow> nat option
       \<Rightarrow> ('cc, 'w) system \<times> chans \<Rightarrow> ('cc, 'w) handled" where
  "Rollout_Added env clusterID ctx obj statusChan = (\<lambda>(st, cs).
     case as_Rollout obj of
       None \<Rightarrow> logged ctx (finish statusChan st cs)
     | Some w \<Rightarrow>
         if IsResourceIgnored (en_Params env) (wl_Template w) \<or> \<not> IsResourceMeshEnabled (en_Params env) (wl_Template w)
         then finish statusChan st cs
         else (let workloadIdentifier = GetWorkloadIdentifier (en_Params env) (wl_Template w) in
           if length workloadIdentifier = 0 then logged ctx (finish statusChan st cs)
           else logged ctx (let st1 = st
               \<lparr>sy_IdentityCluster := AddClusterToIdentity workloadIdentifier clusterID (sy_IdentityCluster st),
                sy_Rollouts := Rollouts_Add (en_Params env) clusterID w (sy_Rollouts st)\<rparr> in
             if \<not> cache_warm env st1 then finish statusChan st1 cs
             else do {
               (st2, cs2) \<leftarrow> TriggerTrafficConfigHandlerForIdentity env ctx workloadIdentifier statusChan (st1, cs);
               finish statusChan st2 cs2
             })))"

definition Rollout_Updated ::
    "'w environment \<Rightarrow> string \<Rightarrow> context_t \<Rightarrow> k8s_object option \<Rightarrow> k8s_object option \<Rightarrow> nat option
       \<Rightarrow> ('cc, 'w) system \<times> chans \<Rightarrow> ('cc, 'w) handled" where
  "Rollout_Updated env clusterID ctx newObj oldObj statusChan = (\<lambda>(st, cs).
     case (as_Rollout newObj, as_Rollout oldObj) of
       (Some new, Some old) \<Rightarrow>
         if IsResourceIgnored (en_Params env) (wl_Template new) \<or> \<not> IsResourceMeshEnabled (en_Params env) (wl_Template new)
         then finish statusChan st cs
         else (let newIdentifier = GetWorkloadIdentifier (en_Params env) (wl_Template new);
                   oldIdentifier = GetWorkloadIdentifier (en_Params env) (wl_Template old) in
           if length newIdentifier = 0 then logged ctx (finish statusChan st cs)
           else logged ctx (let st1 = (if length oldIdentifier > 0 \<and> newIdentifier \<noteq> oldIdentifier then st
                   \<lparr>sy_IdentityCluster := DeleteClusterFromIdentity oldIdentifier clusterID (sy_IdentityCluster st),
                    sy_Rollouts := Rollouts_Delete (en_Params env) clusterID old (sy_Rollouts st)\<rparr> else st);
                 st2 = st1
                   \<lparr>sy_IdentityCluster := AddClusterToIdentity newIdentifier clusterID (sy_IdentityCluster st1),
                    sy_Rollouts := Rollouts_Add (en_Params env) clusterID new (sy_Rollouts st1)\<rparr> in
             finish statusChan st2 cs))
     | _ \<Rightarrow> logged ctx (finish statusChan st cs))"

definition Rollout_Deleted ::
    "'w environment \<Rightarrow> string \<Rightarrow> context_t \<Rightarrow> k8s_object option \<Rightarrow> nat option
       \<Rightarrow> ('cc, 'w) system \<times> chans \<Rightarrow> ('cc, 'w) handled" where
  "Rollout_Deleted env clusterID ctx obj statusChan = (\<lambda>(st, cs).
     case as_Rollout obj of
       None \<Rightarrow> logged ctx (finish statusChan st cs)
     | Some w \<Rightarrow>
         if IsResourceIgnored (en_Params env) (wl_Template w) \<or> \<not> IsResourceMeshEnabled (en_Params env) (wl_Template w)
         then finish statusChan st cs
         else (let workloadIdentifier = GetWorkloadIdentifier (en_Params env) (wl_Template w) in
           if length workloadIdentifier = 0 then logged ctx (finish statusChan st cs)
           else logged ctx (finish statusChan (st
             \<lparr>sy_Rollouts := Rollouts_Delete (en_Params env) clusterID w (sy_Rollouts st),
              sy_IdentityCluster := DeleteClusterFromIdentity workloadIdentifier clusterID (sy_IdentityCluster st)\<rparr>) cs)))"

subsection \<open>Services\<close>

definition Service_Added ::
    "string \<Rightarrow> context_t \<Rightarrow> k8s_object option \<Rightarrow> nat option
       \<Rightarrow> ('cc, 'w) system \<times> chans \<Rightarrow> ('cc, 'w) handled" where
  "Service_Added clusterID ctx obj statusChan = (\<lambda>(st, cs).
     case as_Service obj of
       None \<Rightarrow> logged ctx (finish statusChan st cs)
     | Some service \<Rightarrow> logged ctx (finish statusChan
         (st\<lparr>sy_Services := Services_Add clusterID service (sy_Services st)\<rparr>) cs))"

definition Service_Updated ::
    "string \<Rightarrow> context_t \<Rightarrow> k8s_object option \<Rightarrow> k8s_object option \<Rightarrow> nat option
       \<Rightarrow> ('cc, 'w) system \<times> chans \<Rightarrow> ('cc, 'w) handled" where
  "Service_Updated clusterID ctx newObj oldObj statusChan = (\<lambda>(st, cs).
     case as_Service newObj of
       None \<Rightarrow> logged ctx (finish statusChan st cs)
     | Some service \<Rightarrow> logged ctx (finish statusChan
         (st\<lparr>sy_Services := Services_Add clusterID service (sy_Services st)\<rparr>) cs))"

definition Service_Deleted ::
    "string \<Rightarrow> context_t \<Rightarrow> k8s_object option \<Rightarrow> nat option
       \<Rightarrow> ('cc, 'w) system \<times> chans \<Rightarrow> ('cc, 'w) handled" where
  "Service_Deleted clusterID ctx obj statusChan = (\<lambda>(st, cs).
     case as_Service obj of
       None \<Rightarrow> logged ctx (finish statusChan st cs)
     | Some service \<Rightarrow> logged ctx (finish statusChan
         (st\<lparr>sy_Services := Services_Delete clusterID service (sy_Services st)\<rparr>) cs))"

subsection \<open>The handlers keep their contract\<close>

text \<open>Every event runs a few cache operations.\<close>

lemma deployment_added_steps:
  "state_steps p st (st\<lparr>sy_IdentityCluster := AddClusterToIdentity i c (sy_IdentityCluster st),
     sy_Deployments := Deployments_Add p c d (sy_Deployments st)\<rparr>)"
  using more_steps [OF one_step [OF add_cluster [of p st i c]] add_deployment [of p _ c d]] by simp

lemma deployment_deleted_steps:
  "state_steps p st (st\<lparr>sy_Deployments := Deployments_Delete p c d (sy_Deployments st),
     sy_IdentityCluster := DeleteClusterFromIdentity i c (sy_IdentityCluster st)\<rparr>)"
  using more_steps [OF one_step [OF delete_deployment [of p st c d]] delete_cluster [of p _ i c]] by simp

lemma deployment_moved_steps:
  "state_steps p st (st\<lparr>sy_IdentityCluster := AddClusterToIdentity j c (DeleteClusterFromIdentity i c (sy_IdentityCluster st)),
     sy_Deployments := Deployments_Add p c e (Deployments_Delete p c d (sy_Deployments st))\<rparr>)"
proof -
  let ?st = "st\<lparr>sy_IdentityCluster := DeleteClusterFromIdentity i c (sy_IdentityCluster st),
     sy_Deployments := Deployments_Delete p c d (sy_Deployments st)\<rparr>"
  have "state_steps p st ?st"
    using more_steps [OF one_step [OF delete_cluster [of p st i c]] delete_deployment [of p _ c d]] by simp
  from steps_trans [OF this deployment_added_steps [where p = p and st = ?st and i = j and c = c and d = e]] show ?thesis by simp
qed

lemma rollout_added_steps:
  "state_steps p st (st\<lparr>sy_IdentityCluster := AddClusterToIdentity i c (sy_IdentityCluster st),
     sy_Rollouts := Rollouts_Add p c d (sy_Rollouts st)\<rparr>)"
  using more_steps [OF one_step [OF add_cluster [of p st i c]] add_rollout [of p _ c d]] by simp

lemma rollout_deleted_steps:
  "state_steps p st (st\<lparr>sy_Rollouts := Rollouts_Delete p c d (sy_Rollouts st),
     sy_IdentityCluster := DeleteClusterFromIdentity i c (sy_IdentityCluster st)\<rparr>)"
  using more_steps [OF one_step [OF delete_rollout [of p st c d]] delete_cluster [of p _ i c]] by simp

lemma rollout_moved_steps:
  "state_steps p st (st\<lparr>sy_IdentityCluster := AddClusterToIdentity j c (DeleteClusterFromIdentity i c (sy_IdentityCluster st)),
     sy_Rollouts := Rollouts_Add p c e (Rollouts_Delete p c d (sy_Rollouts st))\<rparr>)"
proof -
  let ?st = "st\<lparr>sy_IdentityCluster := DeleteClusterFromIdentity i c (sy_IdentityCluster st),
     sy_Rollouts := Rollouts_Delete p c d (sy_Rollouts st)\<rparr>"
  have "state_steps p st ?st"
    using more_steps [OF one_step [OF delete_cluster [of p st i c]] delete_rollout [of p _ c d]] by simp
  from steps_trans [OF this rollout_added_steps [where p = p and st = ?st and i = j and c = c and d = e]] show ?thesis by simp
qed

lemmas workload_steps = deployment_added_steps deployment_deleted_steps deployment_moved_steps
  rollout_added_steps rollout_deleted_steps rollout_moved_steps
  one_step [OF add_service] one_step [OF delete_service]

lemma event_ok_Deployment_Added:
  "chan_open c cs \<Longrightarrow> event_ok (en_Params env) c st cs (Deployment_Added env clusterID ctx obj (Some c) (st, cs))"
  by (auto simp: Deployment_Added_def Let_def intro!: event_ok_logged event_ok_now event_ok_trigger workload_steps
      split: option.split)

lemma event_ok_Deployment_Updated:
  "chan_open c cs \<Longrightarrow> event_ok (en_Params env) c st cs (Deployment_Updated env clusterID ctx new old (Some c) (st, cs))"
  by (auto simp: Deployment_Updated_def Let_def intro!: event_ok_logged event_ok_now event_ok_trigger workload_steps
      split: option.split)

lemma event_ok_Deployment_Deleted:
  "chan_open c cs \<Longrightarrow> event_ok (en_Params env) c st cs (Deployment_Deleted env clusterID ctx obj (Some c) (st, cs))"
  by (auto simp: Deployment_Deleted_def Let_def intro!: event_ok_logged event_ok_now event_ok_trigger workload_steps
      split: option.split)

lemma event_ok_Rollout_Added:
  "chan_open c cs \<Longrightarrow> event_ok (en_Params env) c st cs (Rollout_Added env clusterID ctx obj (Some c) (st, cs))"
  by (auto simp: Rollout_Added_def Let_def intro!: event_ok_logged event_ok_now event_ok_trigger workload_steps
      split: option.split)

lemma event_ok_Rollout_Updated:
  "chan_open c cs \<Longrightarrow> event_ok (en_Params env) c st cs (Rollout_Updated env clusterID ctx new old (Some c) (st, cs))"
  by (auto simp: Rollout_Updated_def Let_def intro!: event_ok_logged event_ok_now event_ok_trigger workload_steps
      split: option.split)

lemma event_ok_Rollout_Deleted:
  "chan_open c cs \<Longrightarrow> event_ok (en_Params env) c st cs (Rollout_Deleted env clusterID ctx obj (Some c) (st, cs))"
  by (auto simp: Rollout_Deleted_def Let_def intro!: event_ok_logged event_ok_now event_ok_trigger workload_steps
      split: option.split)

lemma event_ok_Service_Added:
  "chan_open c cs \<Longrightarrow> event_ok p c st cs (Service_Added clusterID ctx obj (Some c) (st, cs))"
  by (auto simp: Service_Added_def Let_def intro!: event_ok_logged event_ok_now event_ok_trigger workload_steps
      split: option.split)

lemma event_ok_Service_Updated:
  "chan_open c cs \<Longrightarrow> event_ok p c st cs (Service_Updated clusterID ctx new old (Some c) (st, cs))"
  by (auto simp: Service_Updated_def Let_def intro!: event_ok_logged event_ok_now event_ok_trigger workload_steps
      split: option.split)

lemma event_ok_Service_Deleted:
  "chan_open c cs \<Longrightarrow> event_ok p c st cs (Service_Deleted clusterID ctx obj (Some c) (st, cs))"
  by (auto simp: Service_Deleted_def Let_def intro!: event_ok_logged event_ok_now event_ok_trigger workload_steps
      split: option.split)

definition deployment_delegator :: "'w environment \<Rightarrow> string \<Rightarrow> (k8s_object option, ('cc, 'w) system) delegator" where
  "deployment_delegator env clusterID =
     handler_delegator (Deployment_Added env clusterID) (Deployment_Updated env clusterID) (Deployment_Deleted env clusterID)"

interpretation deployment_handler: event_handler "deployment_delegator env clusterID" "system_inv (en_Params env)"
  unfolding deployment_delegator_def
  by (rule event_handler_intro) (rule event_ok_Deployment_Added event_ok_Deployment_Updated event_ok_Deployment_Deleted, assumption)+

definition rollout_delegator :: "'w environment \<Rightarrow> string \<Rightarrow> (k8s_object option, ('cc, 'w) system) delegator" where
  "rollout_delegator env clusterID =
     handler_delegator (Rollout_Added env clusterID) (Rollout_Updated env clusterID) (Rollout_Deleted env clusterID)"

interpretation rollout_handler: event_handler "rollout_delegator env clusterID" "system_inv (en_Params env)"
  unfolding rollout_delegator_def
  by (rule event_handler_intro) (rule event_ok_Rollout_Added event_ok_Rollout_Updated event_ok_Rollout_Deleted, assumption)+

definition service_delegator :: "string \<Rightarrow> (k8s_object option, ('cc, 'w) system) delegator" where
  "service_delegator clusterID =
     handler_delegator (Service_Added clusterID) (Service_Updated clusterID) (Service_Deleted clusterID)"

interpretation service_handler: event_handler "service_delegator clusterID" "system_inv p"
  unfolding service_delegator_def
  by (rule event_handler_intro) (rule event_ok_Service_Added event_ok_Service_Updated event_ok_Service_Deleted, assumption)+

subsection \<open>The handlers return\<close>

lemma Deployment_Added_returns:
  "env_total env \<Longrightarrow> cache_complete (sy_TrafficConfigs st) \<Longrightarrow> ctx_Log ctx \<Longrightarrow> chan_open c cs \<Longrightarrow>
     event_returns (Deployment_Added env clusterID ctx obj (Some c) (st, cs))"
  by (simp add: Deployment_Added_def Let_def triggered_returns split: option.split)

lemma Deployment_Updated_returns: "ctx_Log ctx \<Longrightarrow> chan_open c cs \<Longrightarrow> event_returns (Deployment_Updated env clusterID ctx new old (Some c) (st, cs))"
  by (simp add: Deployment_Updated_def Let_def split: option.split)

lemma Deployment_Deleted_returns: "ctx_Log ctx \<Longrightarrow> chan_open c cs \<Longrightarrow> event_returns (Deployment_Deleted env clusterID ctx obj (Some c) (st, cs))"
  by (simp add: Deployment_Deleted_def Let_def split: option.split)

interpretation deployment_return: returning_handler "deployment_delegator env clusterID" "system_inv (en_Params env)" "safe_event env"
proof
  fix it :: "k8s_object option item" and cs and st
  assume c: "chan_open (it_statusChan it) cs" and safe: "safe_event env st it"
  have logger: "ctx_Log NewContextWithLogger" by (simp add: NewContextWithLogger_def)
  show "dispatch (deployment_delegator env clusterID) it (st, cs) \<noteq> None"
    unfolding deployment_delegator_def
    by (rule dispatch_returns)
      (use Deployment_Added_returns [OF _ _ logger c, of env st clusterID "it_obj it"]
        Deployment_Updated_returns [OF logger c] Deployment_Deleted_returns [OF logger c, of env clusterID "it_obj it" st]
        safe in \<open>auto simp: safe_event_def\<close>)
qed

lemma Rollout_Added_returns:
  "env_total env \<Longrightarrow> cache_complete (sy_TrafficConfigs st) \<Longrightarrow> ctx_Log ctx \<Longrightarrow> chan_open c cs \<Longrightarrow>
     event_returns (Rollout_Added env clusterID ctx obj (Some c) (st, cs))"
  by (simp add: Rollout_Added_def Let_def triggered_returns split: option.split)

lemma Rollout_Updated_returns: "ctx_Log ctx \<Longrightarrow> chan_open c cs \<Longrightarrow> event_returns (Rollout_Updated env clusterID ctx new old (Some c) (st, cs))"
  by (simp add: Rollout_Updated_def Let_def split: option.split)

lemma Rollout_Deleted_returns: "ctx_Log ctx \<Longrightarrow> chan_open c cs \<Longrightarrow> event_returns (Rollout_Deleted env clusterID ctx obj (Some c) (st, cs))"
  by (simp add: Rollout_Deleted_def Let_def split: option.split)

interpretation rollout_return: returning_handler "rollout_delegator env clusterID" "system_inv (en_Params env)" "safe_event env"
proof
  fix it :: "k8s_object option item" and cs and st
  assume c: "chan_open (it_statusChan it) cs" and safe: "safe_event env st it"
  have logger: "ctx_Log NewContextWithLogger" by (simp add: NewContextWithLogger_def)
  show "dispatch (rollout_delegator env clusterID) it (st, cs) \<noteq> None"
    unfolding rollout_delegator_def
    by (rule dispatch_returns)
      (use Rollout_Added_returns [OF _ _ logger c, of env st clusterID "it_obj it"]
        Rollout_Updated_returns [OF logger c] Rollout_Deleted_returns [OF logger c, of env clusterID "it_obj it" st]
        safe in \<open>auto simp: safe_event_def\<close>)
qed

lemma Service_Added_returns: "ctx_Log ctx \<Longrightarrow> chan_open c cs \<Longrightarrow> event_returns (Service_Added clusterID ctx obj (Some c) (st, cs))"
  by (simp add: Service_Added_def split: option.split)

lemma Service_Updated_returns: "ctx_Log ctx \<Longrightarrow> chan_open c cs \<Longrightarrow> event_returns (Service_Updated clusterID ctx new old (Some c) (st, cs))"
  by (simp add: Service_Updated_def split: option.split)

lemma Service_Deleted_returns: "ctx_Log ctx \<Longrightarrow> chan_open c cs \<Longrightarrow> event_returns (Service_Deleted clusterID ctx obj (Some c) (st, cs))"
  by (simp add: Service_Deleted_def split: option.split)

interpretation service_return: returning_handler "service_delegator clusterID" "system_inv p" "\<lambda>_ _. True"
  by (unfold_locales, unfold service_delegator_def, rule dispatch_returns)
    (simp_all add: Service_Added_returns Service_Updated_returns Service_Deleted_returns NewContextWithLogger_def)

end
