(* ===== verification/DependencyHandler.thy ===== *)
theory DependencyHandler
  imports TrafficConfigHandler
begin

text \<open>
  The handler of \<open>internal/handler/dependency/dependency_handler.go\<close>: a dependency record names a source
  identity and the identities it calls.  New destinations trigger the traffic config handler, in the
  order of the map of new destinations.
\<close>

definition add_destinations :: "string \<Rightarrow> string list \<Rightarrow> dependency_cache \<Rightarrow> dependency_cache" where
  "add_destinations sourceIdentity destinations =
     fold (\<lambda>dIdentity s. AddDependentToIdentity dIdentity sourceIdentity (AddDependencyToIdentity sourceIdentity dIdentity s))
       destinations"

definition new_destinations :: "string list \<Rightarrow> string list \<Rightarrow> (string, unit) gomap" where
  "new_destinations new old =
     fold (\<lambda>dIdentity m. gm_del dIdentity m) old (fold (\<lambda>dIdentity m. gm_put dIdentity () m) new [])"

definition Dependency_Added ::
    "context_t \<Rightarrow> k8s_object option \<Rightarrow> nat option \<Rightarrow> ('cc, 'w) system \<times> chans \<Rightarrow> ('cc, 'w) handled" where
  "Dependency_Added ctx obj statusChan = (\<lambda>(st, cs).
     case as_Dependency obj of
       None \<Rightarrow> logged ctx (finish statusChan st cs)
     | Some dependencyRecord \<Rightarrow>
         if length (dep_Source dependencyRecord) = 0 then logged ctx (finish statusChan st cs)
         else logged ctx (finish statusChan
           (st\<lparr>sy_IdentityDependency := add_destinations (dep_Source dependencyRecord) (dep_Destinations dependencyRecord)
             (sy_IdentityDependency st)\<rparr>) cs))"

definition Dependency_Updated ::
    "'w environment \<Rightarrow> context_t \<Rightarrow> k8s_object option \<Rightarrow> k8s_object option \<Rightarrow> nat option
       \<Rightarrow> ('cc, 'w) system \<times> chans \<Rightarrow> ('cc, 'w) handled" where
  "Dependency_Updated env ctx newObj oldObj statusChan = (\<lambda>(st, cs).
     case as_Dependency newObj of
       None \<Rightarrow> logged ctx (finish statusChan st cs)
     | Some dependencyRecord \<Rightarrow>
         if length (dep_Source dependencyRecord) = 0 then logged ctx (finish statusChan st cs)
         else (let st1 = st\<lparr>sy_IdentityDependency := add_destinations (dep_Source dependencyRecord)
                 (dep_Destinations dependencyRecord) (sy_IdentityDependency st)\<rparr> in
           if dep_Destinations dependencyRecord \<noteq> [] \<and> \<not> ctx_Log ctx then None
           else if \<not> cache_warm env st1 then logged ctx (finish statusChan st1 cs)
           else (let newDestinations = new_destinations (dep_Destinations dependencyRecord)
                   (case as_Dependency oldObj of None \<Rightarrow> [] | Some old \<Rightarrow> dep_Destinations old) in
             if length newDestinations = 0 then finish statusChan st1 cs
             else do {
               (st2, cs2) \<leftarrow> foreach (\<lambda>(dIdentity, _). TriggerTrafficConfigHandlerForIdentity env ctx dIdentity statusChan)
                 newDestinations (st1, cs);
               finish statusChan st2 cs2
             })))"

definition Dependency_Deleted ::
    "context_t \<Rightarrow> k8s_object option \<Rightarrow> nat option \<Rightarrow> ('cc, 'w) system \<times> chans \<Rightarrow> ('cc, 'w) handled" where
  "Dependency_Deleted ctx obj statusChan = (\<lambda>(st, cs).
     case as_Dependency obj of
       None \<Rightarrow> logged ctx (finish statusChan st cs)
     | Some dependencyRecord \<Rightarrow> finish statusChan st cs)"

subsection \<open>The handler keeps its contract\<close>

text \<open>Recording the destinations one by one.\<close>

lemma add_destinations_steps:
  "state_steps p st (st\<lparr>sy_IdentityDependency := add_destinations a ds (sy_IdentityDependency st)\<rparr>)"
proof (induction ds arbitrary: st)
  case Nil
  have "st\<lparr>sy_IdentityDependency := add_destinations a [] (sy_IdentityDependency st)\<rparr> = st" by (simp add: add_destinations_def)
  then show ?case by simp
next
  case (Cons b ds)
  let ?st = "st\<lparr>sy_IdentityDependency := AddDependentToIdentity b a (AddDependencyToIdentity a b (sy_IdentityDependency st))\<rparr>"
  have "state_steps p st ?st" by (rule one_step, rule add_dependency)
  moreover have "state_steps p ?st (st\<lparr>sy_IdentityDependency := add_destinations a (b # ds) (sy_IdentityDependency st)\<rparr>)"
    using Cons.IH [of ?st] by (simp add: add_destinations_def)
  ultimately show ?case by (rule steps_trans)
qed

lemma event_ok_Dependency_Added: "chan_open c cs \<Longrightarrow> event_ok p c st cs (Dependency_Added ctx obj (Some c) (st, cs))"
  by (auto simp: Dependency_Added_def intro!: event_ok_logged event_ok_now add_destinations_steps split: option.split)

lemma event_ok_Dependency_Updated:
  "chan_open c cs \<Longrightarrow> event_ok (en_Params env) c st cs (Dependency_Updated env ctx new old (Some c) (st, cs))"
  by (auto simp: Dependency_Updated_def Let_def intro!: event_ok_logged event_ok_now event_ok_trigger_loop
      add_destinations_steps split: option.split)

lemma event_ok_Dependency_Deleted: "chan_open c cs \<Longrightarrow> event_ok p c st cs (Dependency_Deleted ctx obj (Some c) (st, cs))"
  by (auto simp: Dependency_Deleted_def intro!: event_ok_logged event_ok_now split: option.split)

definition dependency_delegator :: "'w environment \<Rightarrow> (k8s_object option, ('cc, 'w) system) delegator" where
  "dependency_delegator env = handler_delegator Dependency_Added (Dependency_Updated env) Dependency_Deleted"

interpretation dependency_handler: event_handler "dependency_delegator env" "system_inv (en_Params env)"
  unfolding dependency_delegator_def
  by (rule event_handler_intro)
    (rule event_ok_Dependency_Added event_ok_Dependency_Updated event_ok_Dependency_Deleted, assumption)+

text \<open>It returns on safe events.\<close>

lemma Dependency_Added_returns: "ctx_Log ctx \<Longrightarrow> chan_open c cs \<Longrightarrow> event_returns (Dependency_Added ctx obj (Some c) (st, cs))"
  by (simp add: Dependency_Added_def split: option.split)

lemma Dependency_Updated_returns:
  "env_total env \<Longrightarrow> cache_complete (sy_TrafficConfigs st) \<Longrightarrow> ctx_Log ctx \<Longrightarrow> chan_open c cs \<Longrightarrow>
     event_returns (Dependency_Updated env ctx new old (Some c) (st, cs))"
  by (simp add: Dependency_Updated_def Let_def triggered_loop_returns split: option.split)

lemma Dependency_Deleted_returns: "ctx_Log ctx \<Longrightarrow> chan_open c cs \<Longrightarrow> event_returns (Dependency_Deleted ctx obj (Some c) (st, cs))"
  by (simp add: Dependency_Deleted_def split: option.split)

interpretation dependency_return: returning_handler "dependency_delegator env" "system_inv (en_Params env)" "safe_event env"
proof
  fix it cs and st
  assume c: "chan_open (it_statusChan it) cs" and safe: "safe_event env st it"
  have logger: "ctx_Log NewContextWithLogger" by (simp add: NewContextWithLogger_def)
  show "dispatch (dependency_delegator env) it (st, cs) \<noteq> None"
    unfolding dependency_delegator_def
    by (rule dispatch_returns)
      (use Dependency_Added_returns [OF logger c, of "it_obj it" st] Dependency_Updated_returns [OF _ _ logger c, of env st "it_obj it"]
        Dependency_Deleted_returns [OF logger c, of "it_obj it" st] safe in \<open>auto simp: safe_event_def\<close>)
qed

end
