(* ===== verification/Controllers.thy ===== *)
theory Controllers
  imports WorkloadHandlers DependencyHandler
begin

text \<open>
  The controllers together: each watches one kind of object (in one cluster, for workloads) and hands
  its events to one handler, as \<open>internal/bootstrap/controllers.go\<close> and \<open>StartRemoteClusterControllers\<close>
  wire them.  The events of all controllers interleave; each is processed as a whole.
\<close>

subsection \<open>The secret handler on the whole state\<close>

text \<open>The secret handler touches the registry of clusters and controllers only.\<close>

definition on_registry ::
    "('cc registry \<times> chans \<Rightarrow> (EventStatus \<times> 'cc registry \<times> chans) option) \<Rightarrow> ('cc, 'w) system \<times> chans \<Rightarrow> ('cc, 'w) handled" where
  "on_registry f = (\<lambda>(st, cs).
     map_option (\<lambda>(status, reg, cs'). (status, st\<lparr>sy_Registry := reg\<rparr>, cs')) (f (sy_Registry st, cs)))"

definition secret_delegator :: "NaavikArgs \<Rightarrow> ('cc, 'rest) loader \<Rightarrow> (k8s_object option, ('cc, 'w) system) delegator" where
  "secret_delegator p ld = handler_delegator
     (\<lambda>ctx obj ch. on_registry (Secret_Added p ld (as_Secret obj) ch))
     (\<lambda>ctx new old ch. on_registry (Secret_Updated p ld (as_Secret new) (as_Secret old) ch))
     (\<lambda>ctx obj ch. on_registry (Secret_Deleted (as_Secret obj) ch))"

text \<open>The three operations with an open channel: how they end and what they keep of the registry.\<close>

lemma skip_settles: "chan_open c cs \<Longrightarrow> SkipClose NewEventProcessStatus (Some c) cs = Some (EventSkip, close_with c skip_status cs)"
  by (simp add: SkipClose_open skip_status_def)

lemma reg_ok_secret_adds: "reg_ok reg \<Longrightarrow> reg_ok (fold (secret_add_cluster p ld sid) es reg)"
  by (induction es arbitrary: reg) (simp_all add: secret_add_cluster_ok)

definition registry_ok :: "nat \<Rightarrow> 'cc registry \<Rightarrow> chans \<Rightarrow> (EventStatus \<times> 'cc registry \<times> chans) option \<Rightarrow> bool" where
  "registry_ok c reg cs r \<longleftrightarrow> (case r of None \<Rightarrow> \<not> reg_ok reg
     | Some (status, reg', cs') \<Rightarrow> status = EventSkip \<and> cs' = close_with c skip_status cs \<and> (reg_ok reg \<longrightarrow> reg_ok reg'))"

lemma Secret_Added_ok: "chan_open c cs \<Longrightarrow> registry_ok c reg cs (Secret_Added p ld obj (Some c) (reg, cs))"
  by (auto simp: registry_ok_def Secret_Added_def Let_def skip_settles reg_ok_secret_adds split: option.split)

lemma drop_ok:
  assumes "chan_open c cs"
  shows "registry_ok c reg cs (do {
     reg' \<leftarrow> secret_drop_clusters secret reg;
     (st, cs') \<leftarrow> SkipClose NewEventProcessStatus (Some c) cs;
     Some (st, reg', cs')
   })"
proof (cases "reg_ok reg")
  case True
  obtain reg' where "secret_drop_clusters secret reg = Some reg'" "reg_ok reg'" by (rule drop_clusters_effect [OF True])
  then show ?thesis by (simp add: registry_ok_def skip_settles [OF assms])
next
  case False
  then show ?thesis by (simp add: registry_ok_def skip_settles [OF assms] split: option.split bind_split)
qed

lemma Secret_Deleted_ok:
  assumes "chan_open c cs" shows "registry_ok c reg cs (Secret_Deleted obj (Some c) (reg, cs))"
proof (cases obj)
  case None
  then show ?thesis by (simp add: registry_ok_def Secret_Deleted_def skip_settles [OF assms])
next
  case (Some secret)
  then show ?thesis using drop_ok [OF assms, of reg secret] by (simp add: Secret_Deleted_def)
qed

lemma Secret_Updated_ok:
  assumes "chan_open c cs" shows "registry_ok c reg cs (Secret_Updated p ld new old (Some c) (reg, cs))"
proof -
  have same: "registry_ok c reg cs (do { (st, cs') \<leftarrow> SkipClose NewEventProcessStatus (Some c) cs; Some (st, reg, cs') })"
    by (simp add: registry_ok_def skip_settles [OF assms])
  show ?thesis
  proof (cases new)
    case None
    then show ?thesis using same by (simp add: Secret_Updated_def)
  next
    case (Some a)
    then show ?thesis
      using same Secret_Added_ok [OF assms, of reg p ld new] drop_ok [OF assms, of reg a]
      by (cases old) (simp_all add: Secret_Updated_def)
  qed
qed

lemma event_ok_registry:
  assumes "registry_ok c (sy_Registry st) cs (f (sy_Registry st, cs))" "chan_open c cs"
  shows "event_ok p c st cs (on_registry f (st, cs))"
proof (cases "f (sy_Registry st, cs)")
  case None
  then show ?thesis by (simp add: on_registry_def)
next
  case (Some r)
  obtain status reg cs' where r: "r = (status, reg, cs')" by (cases r) auto
  then have "status = EventSkip" "cs' = close_with c skip_status cs" "reg_ok (sy_Registry st) \<longrightarrow> reg_ok reg"
    using assms(1) Some by (simp_all add: registry_ok_def)
  then show ?thesis
    using settled_close [OF assms(2)] one_step [OF registry, of st reg p] by (simp add: event_ok_def on_registry_def Some r)
qed

lemma returns_registry:
  assumes "registry_ok c (sy_Registry st) cs (f (sy_Registry st, cs))" "system_inv p st"
  shows "event_returns (on_registry f (st, cs))"
proof -
  have "reg_ok (sy_Registry st)" using assms(2) by (simp add: system_inv_def system_ok_def)
  then show ?thesis using assms(1) by (auto simp: registry_ok_def event_returns_def on_registry_def split: option.splits)
qed

interpretation secret_handler: event_handler "secret_delegator p ld" "system_inv p"
  unfolding secret_delegator_def
  by (rule event_handler_intro; rule event_ok_registry)
    (rule Secret_Added_ok Secret_Updated_ok Secret_Deleted_ok, assumption | assumption)+

interpretation secret_return: returning_handler "secret_delegator p ld" "system_inv p" "\<lambda>_ _. True"
  by (unfold_locales, unfold secret_delegator_def, rule dispatch_returns; rule returns_registry)
    (rule Secret_Added_ok Secret_Updated_ok Secret_Deleted_ok, assumption | assumption)+

subsection \<open>The program\<close>

datatype controller = TrafficConfigs | Dependencies | Secrets
  | DeploymentsOf string | RolloutsOf string | ServicesOf string

fun controller_delegator ::
    "'w environment \<Rightarrow> ('cc, 'rest) loader \<Rightarrow> controller \<Rightarrow> (k8s_object option, ('cc, 'w) system) delegator" where
  "controller_delegator env ld TrafficConfigs = traffic_config_delegator env"
| "controller_delegator env ld Dependencies = dependency_delegator env"
| "controller_delegator env ld Secrets = secret_delegator (en_Params env) ld"
| "controller_delegator env ld (DeploymentsOf c) = deployment_delegator env c"
| "controller_delegator env ld (RolloutsOf c) = rollout_delegator env c"
| "controller_delegator env ld (ServicesOf c) = service_delegator c"

text \<open>
  A step of the program: an informer makes an item with its channel, a worker processes an item whose
  channel is fresh, the lease check runs, or something else changes the API servers (other writers, time).
\<close>

inductive program_step ::
    "'w environment \<Rightarrow> ('cc, 'rest) loader \<Rightarrow> ('cc, 'w) system \<times> chans \<Rightarrow> ('cc, 'w) system \<times> chans \<Rightarrow> bool"
  for env ld where
  informer: "informer_item key ev (obj :: k8s_object option) old cs = (cs', it) \<Longrightarrow> program_step env ld (st, cs) (st, cs')"
| process: "fresh_chan (it_statusChan it) cs \<Longrightarrow>
    processItem (controller_delegator env ld k) it (st, cs) = Some (it', (st', cs'), effs) \<Longrightarrow>
    program_step env ld (st, cs) (st', cs')"
| lease: "program_step env ld (st, cs) (st\<lparr>sy_Lease := RunStateCheck checker (sy_Lease st)\<rparr>, cs)"
| outside: "program_step env ld (st, cs) (st\<lparr>sy_World := w\<rparr>, cs)"

inductive_cases program_stepE: "program_step env ld s s'"

abbreviation program_run ::
    "'w environment \<Rightarrow> ('cc, 'rest) loader \<Rightarrow> ('cc, 'w) system \<times> chans \<Rightarrow> ('cc, 'w) system \<times> chans \<Rightarrow> bool" where
  "program_run env ld \<equiv> (program_step env ld)\<^sup>*\<^sup>*"

text \<open>Every controller keeps the contract; what each proved of its own delegator, for all of them.\<close>

lemma controller_delivery:
  assumes "fresh_chan (it_statusChan it) cs"
    "processItem (controller_delegator env ld k) it (st, cs) = Some (it', (st', cs'), effs)"
  shows "settled (it_statusChan it) cs cs' \<and> (system_inv (en_Params env) st \<longrightarrow> system_inv (en_Params env) st')
    \<and> \<not> delivered_again effs \<and> (\<exists>kids. effs = kids @ [QueueDone])"
  using assms(2)
proof (cases k)
  case TrafficConfigs
  with assms(2) tc_handler.delivery [OF assms(1)] show ?thesis by fastforce
next
  case Dependencies
  with assms(2) dependency_handler.delivery [OF assms(1)] show ?thesis by fastforce
next
  case Secrets
  with assms(2) secret_handler.delivery [OF assms(1)] show ?thesis by fastforce
next
  case (DeploymentsOf c)
  with assms(2) deployment_handler.delivery [OF assms(1)] show ?thesis by fastforce
next
  case (RolloutsOf c)
  with assms(2) rollout_handler.delivery [OF assms(1)] show ?thesis by fastforce
next
  case (ServicesOf c)
  with assms(2) service_handler.delivery [OF assms(1)] show ?thesis by fastforce
qed

lemma program_step_inv:
  assumes "program_step env ld s s'" "system_inv (en_Params env) (fst s)"
  shows "system_inv (en_Params env) (fst s')"
  using assms
proof (cases rule: program_step.cases)
  case (process it cs k st it' st' cs' effs)
  with assms(2) controller_delivery [OF process(3,4)] show ?thesis by simp
qed (auto simp: system_inv_def system_ok_def)

lemma program_run_inv:
  "program_run env ld s s' \<Longrightarrow> system_inv (en_Params env) (fst s) \<Longrightarrow> system_inv (en_Params env) (fst s')"
  by (induction rule: rtranclp_induct) (auto dest: program_step_inv)

lemma reachable_inv: "program_run env ld (initial_system w, []) (st, cs) \<Longrightarrow> system_inv (en_Params env) st"
  using program_run_inv [of env ld "(initial_system w, [])" "(st, cs)"] by (simp add: initial_inv)

text \<open>A channel nobody is writing to: not used yet, or closed.\<close>

definition quiet :: "chans \<Rightarrow> bool" where
  "quiet cs \<longleftrightarrow> (\<forall>d < length cs. fresh_chan d cs \<or> ch_closed (cs ! d))"

lemma settled_quiet:
  assumes "settled c cs cs'" "quiet cs"
  shows "quiet cs'"
proof -
  obtain ms where s: "ch_closed (cs' ! c)" "grows {c} cs cs'" "\<forall>d. length cs \<le> d \<and> d < length cs' \<longrightarrow> done_chan (cs' ! d)"
    by (rule settled_chans [OF assms(1)]) blast
  have "fresh_chan d cs' \<or> ch_closed (cs' ! d)" if d: "d < length cs'" for d
  proof (cases "d < length cs \<and> d \<noteq> c")
    case True
    then have "cs' ! d = cs ! d" using s(2) by (simp add: grows_def)
    with True assms(2) d show ?thesis by (auto simp: quiet_def fresh_chan_def chan_open_def)
  next
    case False
    with s(1,3) d show ?thesis by (auto simp: done_chan_def not_less)
  qed
  then show ?thesis by (simp add: quiet_def)
qed

lemma program_step_quiet:
  assumes "program_step env ld s s'" "quiet (snd s)"
  shows "quiet (snd s')"
  using assms(1)
proof (cases rule: program_step.cases)
  case (informer key ev obj old cs cs' it st)
  have "cs' = cs @ [\<lparr>ch_sent = [], ch_closed = False\<rparr>]"
    using informer(3) by (auto simp: informer_item_def make_chan_def Let_def)
  with informer assms(2) show ?thesis
    by (auto simp: quiet_def fresh_chan_def chan_open_def nth_append less_Suc_eq)
next
  case (process it cs k st it' st' cs' effs)
  with assms(2) controller_delivery [OF process(3,4)] show ?thesis using settled_quiet by auto
qed (use assms(2) in auto)

subsection \<open>A sample run\<close>

text \<open>An informer makes the event of a new dependency record, and the dependency controller processes it.\<close>

definition sample_dependency :: k8s_object where
  "sample_dependency = ObjDependency \<lparr>dep_Source = ''web'', dep_Destinations = [''Shop'']\<rparr>"

definition sample_event :: "k8s_object option item" where
  "sample_event = \<lparr>it_key = ''ns/web'', it_eventType = Add, it_obj = Some sample_dependency, it_oldObj = None,
     it_retryCount = 0, it_statusChan = 0, it_onStatusOverride = None\<rparr>"

definition sample_state :: "server \<Rightarrow> (nat, server) system" where
  "sample_state w = (initial_system w)\<lparr>sy_IdentityDependency :=
     add_destinations ''web'' [''Shop''] IdentityDependency_Reset\<rparr>"

lemma program_fresh: "fresh_chan (it_statusChan sample_event) sample_chans"
  by (simp add: fresh_chan_def chan_open_def sample_event_def sample_chans_def)

lemma sample_run_informed:
  "program_run sample_env sample_loader (initial_system w, []) (initial_system w, sample_chans)"
proof -
  have "informer_item (\<lambda>_. Some ''ns/web'') Add (Some sample_dependency) None [] = (sample_chans, Some sample_event)"
    by (simp add: informer_item_def make_chan_def sample_chans_def sample_event_def)
  then show ?thesis by (intro r_into_rtranclp informer)
qed

lemma sample_processed:
  "processItem (controller_delegator sample_env sample_loader Dependencies) sample_event (initial_system w, sample_chans)
     = Some (sample_event, (sample_state w, close_with 0 skip_status sample_chans), [QueueDone])"
proof -
  have c: "chan_open 0 sample_chans" by (simp add: chan_open_def sample_chans_def)
  have "Dependency_Added NewContextWithLogger (Some sample_dependency) (Some 0) (initial_system w, sample_chans)
      = Some (EventSkip, sample_state w, close_with 0 skip_status sample_chans)"
    by (simp add: Dependency_Added_def sample_dependency_def finish_settles [OF c] sample_state_def initial_system_def)
  then show ?thesis
    by (simp add: processItem_def dispatch_def dependency_delegator_def handler_delegator_def sample_event_def
        handleStatus_def close_with_def sample_chans_def status_step_def)
qed

lemma sample_run:
  "program_run sample_env sample_loader (initial_system w, []) (sample_state w, close_with 0 skip_status sample_chans)"
  using sample_run_informed process [OF program_fresh sample_processed] by (rule rtranclp.rtrancl_into_rtrancl)

lemma sample_dependents: "GetDependentsForIdentity (sy_IdentityDependency (sample_state w)) ''Shop'' = [''web'']"
proof -
  have "GetDependentsForIdentity (add_destinations ''web'' [''Shop''] IdentityDependency_Reset) ''Shop'' = [''web'']"
    by code_simp
  then show ?thesis by (simp add: sample_state_def)
qed

lemma sample_safe: "safe_event sample_env (initial_system w) sample_event"
  by (auto simp: safe_event_def env_total_def sample_scope cache_complete_def sample_event_def sample_dependency_def
      initial_system_def TCCache_Reset_def TCCache_GetTrafficConfigEntry_def)
    (simp_all add: sample_env_def sample_api_def)

subsection \<open>Properties\<close>

text \<open>
  C4: every state the program reaches from its start, under any interleaving of the events of its
  controllers with runs of the lease check and writes of others, is well formed: the nested maps of the
  workload, service, identity, dependency and traffic config caches, the registry of clusters and
  controllers.
\<close>

theorem program_state_well_formed:
  assumes "program_run env ld (initial_system w, []) (st, cs)"
  shows "system_ok (en_Params env) st"
  using reachable_inv [OF assms] by (simp add: system_inv_def)

text \<open>
  C14: in every reachable state the dependents of an identity are exactly the identities that depend on
  it, whatever events came before.
\<close>

theorem dependents_converse:
  assumes "program_run env ld (initial_system w, []) (st, cs)"
  shows "ToLower b \<in> set (GetDependenciesForIdentity (sy_IdentityDependency st) a)
    \<longleftrightarrow> ToLower a \<in> set (GetDependentsForIdentity (sy_IdentityDependency st) b)"
  using reachable_inv [OF assms] by (simp add: system_inv_def dep_graph.converse_def)

text \<open>
  C15: no event leaves a channel behind: in every reachable state each status channel is untouched or
  closed, the channels of child events included, so no goroutine that reads one waits for ever on an
  event that was processed.
\<close>

theorem channels_closed:
  assumes "program_run env ld (initial_system w, []) (st, cs)" "d < length cs"
  shows "fresh_chan d cs \<or> ch_closed (cs ! d)"
proof -
  have "quiet (snd (st, cs))"
    using assms(1)
  proof (induction rule: rtranclp_induct)
    case base
    then show ?case by (simp add: quiet_def)
  qed (rule program_step_quiet)
  then show ?thesis using assms(2) by (simp add: quiet_def)
qed


theorem program_state_well_formed_witness:
  "program_run sample_env sample_loader (initial_system ([], []), []) (sample_state ([], []), close_with 0 skip_status sample_chans)
     \<and> system_ok (en_Params sample_env) (sample_state ([], []))
     \<and> GetDependentsForIdentity (sy_IdentityDependency (sample_state ([], []))) ''Shop'' = [''web'']"
  using sample_run program_state_well_formed [OF sample_run] sample_dependents by blast

theorem dependents_converse_witness:
  "ToLower ''Shop'' \<in> set (GetDependenciesForIdentity (sy_IdentityDependency (sample_state ([], []))) ''web'')
     \<longleftrightarrow> ToLower ''web'' \<in> set (GetDependentsForIdentity (sy_IdentityDependency (sample_state ([], []))) ''Shop'')"
  by (rule dependents_converse [OF sample_run])

theorem channels_closed_witness:
  "fresh_chan 0 (close_with 0 skip_status sample_chans) \<or> ch_closed (close_with 0 skip_status sample_chans ! 0)"
  by (rule channels_closed [OF sample_run]) (simp add: sample_chans_def)


end
