(* ===== verification/EventInvariants.thy ===== *)
theory EventInvariants
  imports ApiWrites Controllers
begin

text \<open>
  What every event of every controller keeps.  The locale \<open>feature_invariant\<close> takes a predicate on the
  state that processing a traffic config keeps, and proves that triggering keeps it; \<open>event_invariant\<close>
  takes one that cache operations keep too, and proves that the handlers keep it.  It is interpreted for
  two predicates: a program that may not write leaves the API servers as they are, and clusters out of
  reach are never written to.
\<close>

definition event_keeps :: "(('cc, 'w) system \<Rightarrow> bool) \<Rightarrow> ('cc, 'w) handled \<Rightarrow> bool" where
  "event_keeps Inv r \<longleftrightarrow> (case r of None \<Rightarrow> True | Some (_, st', _) \<Rightarrow> Inv st')"

named_theorems keeps_intros

lemma keeps_finish [keeps_intros]: "Inv st \<Longrightarrow> event_keeps Inv (finish ch st cs)"
  by (auto simp: event_keeps_def finish_def split: option.split)

lemma keeps_logged [keeps_intros]: "event_keeps Inv k \<Longrightarrow> event_keeps Inv (logged ctx k)"
  by (simp add: event_keeps_def logged_def)

lemma keeps_panic [keeps_intros]: "event_keeps Inv None"
  by (simp add: event_keeps_def)

lemma dispatch_keeps:
  assumes "\<And>ctx obj ch. event_keeps Inv (a ctx obj ch (st, cs))" "\<And>ctx obj old ch. event_keeps Inv (u ctx obj old ch (st, cs))"
    "\<And>ctx obj ch. event_keeps Inv (d ctx obj ch (st, cs))" "dispatch (handler_delegator a u d) it (st, cs) = Some (st', cs')"
  shows "Inv st'"
  using assms(4) by (cases rule: dispatch_cases) (use assms(1-3) in \<open>fastforce simp: event_keeps_def split: option.splits\<close>)+

locale feature_invariant =
  fixes env :: "'w environment" and Inv :: "('cc, 'w) system \<Rightarrow> bool"
  assumes features: "Inv st \<Longrightarrow> process_traffic_config env ctx tc ev ch (st, cs) = Some (status, st', cs') \<Longrightarrow> Inv st'"
begin

lemma keeps_process: "Inv st \<Longrightarrow> event_keeps Inv (process_traffic_config env ctx tc ev ch (st, cs))"
  using features by (fastforce simp: event_keeps_def split: option.split)

lemma keeps_Updated: "Inv st \<Longrightarrow> event_keeps Inv (TrafficConfig_Updated env ctx new old ch (st, cs))"
  by (auto simp: TrafficConfig_Updated_def intro!: keeps_intros keeps_process split: option.split)

lemma trigger_one_keeps:
  assumes "trigger_traffic_config env ctx src ch tc s = Some s'" "Inv (fst s)"
  shows "Inv (fst s')"
proof -
  obtain st cs st' cs' where eq: "s = (st, cs)" "s' = (st', cs')" by fastforce
  obtain childCtx childChan cs1 status where
    "TrafficConfig_Updated env childCtx (Some (ObjTrafficConfig tc)) None childChan (st, cs1) = Some (status, st', cs')"
    using assms(1) by (auto simp: trigger_traffic_config_def eq logged_Some split: bind_splits)
  then show ?thesis
    using keeps_Updated [of st childCtx "Some (ObjTrafficConfig tc)" None childChan cs1] assms(2) by (simp add: event_keeps_def eq)
qed

lemma trigger_entry_keeps:
  assumes "trigger_entry env ctx src ch owner s = Some s'" "Inv (fst s)"
  shows "Inv (fst s')"
proof (cases "TCCache_GetTrafficConfigEntry (sy_TrafficConfigs (fst s)) owner")
  case None
  with assms show ?thesis by (cases s) (auto simp: trigger_entry_def)
next
  case (Some e)
  with assms(1) have "foreach (\<lambda>(workload_env, tc). trigger_traffic_config env ctx src ch tc) (tce_EnvTrafficConfig e) s = Some s'"
    by (cases s) (simp add: trigger_entry_def)
  then show ?thesis
    by (rule foreach_invariant [where P = "\<lambda>s. Inv (fst s)"]) (use assms(2) trigger_one_keeps in \<open>auto split: prod.splits\<close>)
qed

lemma Trigger_keeps:
  assumes "TriggerTrafficConfigHandlerForIdentity env ctx i ch s = Some s'" "Inv (fst s)"
  shows "Inv (fst s')"
proof -
  obtain s1 where s1: "trigger_entry env ctx None ch i s = Some s1"
    "foreach (trigger_entry env ctx (Some i) ch) (GetDependentsForIdentity (sy_IdentityDependency (fst s1)) i) s1 = Some s'"
    using assms(1) by (auto simp: TriggerTrafficConfigHandlerForIdentity_def logged_Some split: bind_splits prod.splits)
  show ?thesis
    by (rule foreach_invariant [where P = "\<lambda>s. Inv (fst s)", OF s1(2) trigger_entry_keeps [OF s1(1) assms(2)]])
      (rule trigger_entry_keeps)
qed

lemma keeps_bind_finish:
  assumes "\<And>s. r = Some s \<Longrightarrow> Inv (fst s)"
  shows "event_keeps Inv (Option.bind r (\<lambda>(st2, cs2). finish ch st2 cs2))"
proof (cases r)
  case None
  then show ?thesis by (simp add: keeps_panic)
next
  case (Some s)
  with assms show ?thesis by (cases s) (simp add: keeps_finish)
qed

lemma keeps_trigger:
  "Inv st \<Longrightarrow> event_keeps Inv (Option.bind (TriggerTrafficConfigHandlerForIdentity env ctx i ch (st, cs))
     (\<lambda>(st2, cs2). finish ch st2 cs2))"
  by (rule keeps_bind_finish) (drule Trigger_keeps, simp_all)

lemma keeps_trigger_loop:
  "Inv st \<Longrightarrow> event_keeps Inv (Option.bind (foreach (\<lambda>(i, _). TriggerTrafficConfigHandlerForIdentity env ctx i ch) is (st, cs))
     (\<lambda>(st2, cs2). finish ch st2 cs2))"
  by (rule keeps_bind_finish, erule foreach_invariant [where P = "\<lambda>s. Inv (fst s)"])
    (auto intro: Trigger_keeps split: prod.splits)

end

locale event_invariant = feature_invariant env Inv for env :: "'w environment" and Inv :: "('cc, 'w) system \<Rightarrow> bool" +
  assumes caches: "Inv st \<Longrightarrow> state_steps (en_Params env) st st' \<Longrightarrow> sy_World st' = sy_World st
      \<Longrightarrow> sy_Registry st' = sy_Registry st \<Longrightarrow> sy_Lease st' = sy_Lease st \<Longrightarrow> Inv st'"
begin

text \<open>One step of a cache, and the few a handler runs.\<close>

lemma keeps_caches:
  assumes "Inv st"
  shows "Inv (st\<lparr>sy_TrafficConfigs := AddTrafficConfigToCache (en_Params env) tc (sy_TrafficConfigs st)\<rparr>)"
    "Inv (st\<lparr>sy_TrafficConfigs := DeleteTrafficConfigFromCache (en_Params env) tc (sy_TrafficConfigs st)\<rparr>)"
    "Inv (st\<lparr>sy_IdentityCluster := AddClusterToIdentity i c (sy_IdentityCluster st),
       sy_Deployments := Deployments_Add (en_Params env) c d (sy_Deployments st)\<rparr>)"
    "Inv (st\<lparr>sy_Deployments := Deployments_Delete (en_Params env) c d (sy_Deployments st),
       sy_IdentityCluster := DeleteClusterFromIdentity i c (sy_IdentityCluster st)\<rparr>)"
    "Inv (st\<lparr>sy_IdentityCluster := AddClusterToIdentity j c (DeleteClusterFromIdentity i c (sy_IdentityCluster st)),
       sy_Deployments := Deployments_Add (en_Params env) c e (Deployments_Delete (en_Params env) c d (sy_Deployments st))\<rparr>)"
    "Inv (st\<lparr>sy_IdentityCluster := AddClusterToIdentity i c (sy_IdentityCluster st),
       sy_Rollouts := Rollouts_Add (en_Params env) c d (sy_Rollouts st)\<rparr>)"
    "Inv (st\<lparr>sy_Rollouts := Rollouts_Delete (en_Params env) c d (sy_Rollouts st),
       sy_IdentityCluster := DeleteClusterFromIdentity i c (sy_IdentityCluster st)\<rparr>)"
    "Inv (st\<lparr>sy_IdentityCluster := AddClusterToIdentity j c (DeleteClusterFromIdentity i c (sy_IdentityCluster st)),
       sy_Rollouts := Rollouts_Add (en_Params env) c e (Rollouts_Delete (en_Params env) c d (sy_Rollouts st))\<rparr>)"
    "Inv (st\<lparr>sy_Services := Services_Add c s (sy_Services st)\<rparr>)"
    "Inv (st\<lparr>sy_Services := Services_Delete c s (sy_Services st)\<rparr>)"
    "Inv (st\<lparr>sy_IdentityDependency := add_destinations i ds (sy_IdentityDependency st)\<rparr>)"
  by (rule caches [OF assms], rule workload_steps add_destinations_steps one_step [OF add_traffic_config]
      one_step [OF delete_traffic_config], simp_all)+

lemmas handler_keeps = keeps_intros keeps_process keeps_caches keeps_trigger keeps_trigger_loop

lemma keeps_handlers:
  assumes "Inv st"
  shows "event_keeps Inv (TrafficConfig_Added env ctx obj ch (st, cs))"
    "event_keeps Inv (TrafficConfig_Deleted env ctx obj ch (st, cs))"
    "event_keeps Inv (Deployment_Added env c ctx obj ch (st, cs))"
    "event_keeps Inv (Deployment_Updated env c ctx obj old ch (st, cs))"
    "event_keeps Inv (Deployment_Deleted env c ctx obj ch (st, cs))"
    "event_keeps Inv (Rollout_Added env c ctx obj ch (st, cs))"
    "event_keeps Inv (Rollout_Updated env c ctx obj old ch (st, cs))"
    "event_keeps Inv (Rollout_Deleted env c ctx obj ch (st, cs))"
    "event_keeps Inv (Service_Added c ctx obj ch (st, cs))"
    "event_keeps Inv (Service_Updated c ctx obj old ch (st, cs))"
    "event_keeps Inv (Service_Deleted c ctx obj ch (st, cs))"
    "event_keeps Inv (Dependency_Added ctx obj ch (st, cs))"
    "event_keeps Inv (Dependency_Updated env ctx obj old ch (st, cs))"
    "event_keeps Inv (Dependency_Deleted ctx obj ch (st, cs))"
  using assms
  by (auto simp: TrafficConfig_Added_def TrafficConfig_Deleted_def Deployment_Added_def Deployment_Updated_def
      Deployment_Deleted_def Rollout_Added_def Rollout_Updated_def Rollout_Deleted_def Service_Added_def
      Service_Updated_def Service_Deleted_def Dependency_Added_def Dependency_Updated_def Dependency_Deleted_def Let_def
      intro!: handler_keeps split: option.split)

lemma controller_keeps:
  assumes "Inv st" "k \<noteq> Secrets" "dispatch (controller_delegator env ld k) it (st, cs) = Some (st', cs')"
  shows "Inv st'"
proof (cases k)
  case TrafficConfigs
  show ?thesis by (rule dispatch_keeps [OF _ _ _ assms(3) [unfolded TrafficConfigs controller_delegator.simps traffic_config_delegator_def]])
      (rule keeps_handlers keeps_Updated, rule assms(1))+
next
  case Dependencies
  show ?thesis by (rule dispatch_keeps [OF _ _ _ assms(3) [unfolded Dependencies controller_delegator.simps dependency_delegator_def]])
      (rule keeps_handlers, rule assms(1))+
next
  case Secrets
  with assms(2) show ?thesis by simp
next
  case (DeploymentsOf c)
  show ?thesis by (rule dispatch_keeps [OF _ _ _ assms(3) [unfolded DeploymentsOf controller_delegator.simps deployment_delegator_def]])
      (rule keeps_handlers, rule assms(1))+
next
  case (RolloutsOf c)
  show ?thesis by (rule dispatch_keeps [OF _ _ _ assms(3) [unfolded RolloutsOf controller_delegator.simps rollout_delegator_def]])
      (rule keeps_handlers, rule assms(1))+
next
  case (ServicesOf c)
  show ?thesis by (rule dispatch_keeps [OF _ _ _ assms(3) [unfolded ServicesOf controller_delegator.simps service_delegator_def]])
      (rule keeps_handlers, rule assms(1))+
qed

end

text \<open>The secret handler does not write to the API servers at all.\<close>

lemma on_registry_world: "on_registry f (st, cs) = Some (status, st', cs') \<Longrightarrow> sy_World st' = sy_World st"
  by (auto simp: on_registry_def)

lemma secret_world:
  assumes "dispatch (secret_delegator p ld) it (st, cs) = Some (st', cs')"
  shows "sy_World st' = sy_World st"
  using assms unfolding secret_delegator_def by (cases rule: dispatch_cases) (erule on_registry_world)+

lemma processed_state:
  assumes "processItem d it (st, cs) = Some (it', (st', cs'), effs)"
  obtains cs1 where "dispatch d it (st, cs) = Some (st', cs1)"
  using assms by (auto simp: processItem_def Let_def split: bind_splits prod.splits)

subsection \<open>Read-only and warming up\<close>

definition may_not_write :: "'w environment \<Rightarrow> ('cc, 'w) system \<Rightarrow> bool" where
  "may_not_write env st \<longleftrightarrow> IsReadOnly (sy_Lease st) \<or> \<not> cache_warm env st"

interpretation held_back: event_invariant "env :: 'w environment" "\<lambda>st :: ('cc, 'w) system. may_not_write env st \<and> sy_World st = w"
proof
  fix st st' :: "('cc, 'w) system"
  show "may_not_write env st \<and> sy_World st = w \<Longrightarrow> state_steps (en_Params env) st st' \<Longrightarrow> sy_World st' = sy_World st
      \<Longrightarrow> sy_Registry st' = sy_Registry st \<Longrightarrow> sy_Lease st' = sy_Lease st \<Longrightarrow> may_not_write env st' \<and> sy_World st' = w"
    by (auto simp: may_not_write_def cache_warm_def)
next
  fix ctx tc ev ch cs status cs' and st st' :: "('cc, 'w) system"
  assume "may_not_write env st \<and> sy_World st = w" "process_traffic_config env ctx tc ev ch (st, cs) = Some (status, st', cs')"
  then have "st' = st" by (auto simp: process_traffic_config_def may_not_write_def logged_Some dest: finish_state split: if_splits)
  with \<open>may_not_write env st \<and> sy_World st = w\<close> show "may_not_write env st' \<and> sy_World st' = w" by simp
qed

subsection \<open>Clusters out of reach\<close>

text \<open>The objects of a cluster change only by writes addressed to it.\<close>

definition writes_local :: "'w istio_api \<Rightarrow> ('w \<Rightarrow> string \<Rightarrow> 'o) \<Rightarrow> bool" where
  "writes_local api objs \<longleftrightarrow> (\<forall>d x. ef_writes_keep api (\<lambda>c. c \<noteq> d) (\<lambda>w. objs w d = x)
     \<and> vs_writes_keep api (\<lambda>c. c \<noteq> d) (\<lambda>w. objs w d = x))"

lemma ef_keep_fewer: "ef_writes_keep api allowed P \<Longrightarrow> (\<And>c. allowed' c \<Longrightarrow> allowed c) \<Longrightarrow> ef_writes_keep api allowed' P"
  unfolding ef_writes_keep_def by blast

lemma vs_keep_fewer: "vs_writes_keep api allowed P \<Longrightarrow> (\<And>c. allowed' c \<Longrightarrow> allowed c) \<Longrightarrow> vs_writes_keep api allowed' P"
  unfolding vs_writes_keep_def by blast

definition reach_inv :: "'w environment \<Rightarrow> ('cc registry) \<Rightarrow> ('w \<Rightarrow> bool) \<Rightarrow> ('cc, 'w) system \<Rightarrow> bool" where
  "reach_inv env reg P st \<longleftrightarrow> system_ok (en_Params env) st \<and> sy_Registry st = reg
     \<and> (ef_writes_keep (en_Api env) (reachable_cluster env reg) P \<and> vs_writes_keep (en_Api env) (reachable_cluster env reg) P
        \<longrightarrow> P (sy_World st))"

interpretation in_reach: event_invariant "env :: 'w environment" "reach_inv env (reg :: 'cc registry) P"
proof
  fix st st' :: "('cc, 'w) system"
  show "reach_inv env reg P st \<Longrightarrow> state_steps (en_Params env) st st' \<Longrightarrow> sy_World st' = sy_World st
      \<Longrightarrow> sy_Registry st' = sy_Registry st \<Longrightarrow> sy_Lease st' = sy_Lease st \<Longrightarrow> reach_inv env reg P st'"
    using state_steps_ok by (auto simp: reach_inv_def)
next
  fix ctx tc ev ch cs status cs' and st st' :: "('cc, 'w) system"
  assume inv: "reach_inv env reg P st" and run: "process_traffic_config env ctx tc ev ch (st, cs) = Some (status, st', cs')"
  then consider "st' = st" | "run_features env ctx tc ev st = Some st'"
    by (auto simp: process_traffic_config_def logged_Some dest: finish_state split: if_splits bind_splits)
  then show "reach_inv env reg P st'"
  proof cases
    case 1
    with inv show ?thesis by simp
  next
    case 2
    then have "only_world st st'" by (rule run_features_world)
    moreover note run_features_keeps [OF _ _ _ 2, of P]
    ultimately show ?thesis using inv only_world_ok only_world_registry by (fastforce simp: reach_inv_def)
  qed
qed

subsection \<open>Properties\<close>

text \<open>
  C6: while the program is read-only or its caches are warming up, no event of any controller changes
  anything on the API servers, whatever the handlers and the handlers they trigger do.
\<close>

theorem held_back_writes_nothing:
  assumes "IsReadOnly (sy_Lease st) \<or> \<not> cache_warm env st"
    and "processItem (controller_delegator env ld k) it (st, cs) = Some (it', (st', cs'), effs)"
  shows "sy_World st' = sy_World st"
proof -
  obtain cs1 where run: "dispatch (controller_delegator env ld k) it (st, cs) = Some (st', cs1)"
    by (rule processed_state [OF assms(2)])
  show ?thesis
  proof (cases "k = Secrets")
    case True
    with run show ?thesis by (simp add: secret_world)
  next
    case False
    with held_back.controller_keeps [OF _ False run, of "sy_World st"] assms(1) show ?thesis by (simp add: may_not_write_def)
  qed
qed

text \<open>
  C7: an event of any controller leaves alone the objects of every cluster that is out of the allowed
  scope or not registered, given that a write changes the objects of the cluster it is addressed to
  only.
\<close>

theorem unreachable_clusters_untouched:
  assumes "writes_local (en_Api env) objs" "system_ok (en_Params env) st" "\<not> reachable_cluster env (sy_Registry st) d"
    and "processItem (controller_delegator env ld k) it (st, cs) = Some (it', (st', cs'), effs)"
  shows "objs (sy_World st') d = objs (sy_World st) d"
proof -
  obtain cs1 where run: "dispatch (controller_delegator env ld k) it (st, cs) = Some (st', cs1)"
    by (rule processed_state [OF assms(4)])
  let ?P = "\<lambda>w. objs w d = objs (sy_World st) d" and ?reg = "sy_Registry st"
  have "ef_writes_keep (en_Api env) (\<lambda>c. c \<noteq> d) ?P" "vs_writes_keep (en_Api env) (\<lambda>c. c \<noteq> d) ?P"
    using assms(1) unfolding writes_local_def by blast+
  then have keep: "ef_writes_keep (en_Api env) (reachable_cluster env ?reg) ?P" "vs_writes_keep (en_Api env) (reachable_cluster env ?reg) ?P"
    using ef_keep_fewer vs_keep_fewer assms(3) by blast+
  show ?thesis
  proof (cases "k = Secrets")
    case True
    with run show ?thesis by (simp add: secret_world)
  next
    case False
    with in_reach.controller_keeps [OF _ False run, of ?reg ?P] keep assms(2) show ?thesis by (simp add: reach_inv_def)
  qed
qed

subsection \<open>Witnesses\<close>

text \<open>The program of the sample run is read-only when it starts, and no cluster is registered.\<close>

theorem held_back_writes_nothing_witness: "sy_World (sample_state ([], [])) = sy_World (initial_system ([], []) :: (nat, server) system)"
  by (rule held_back_writes_nothing [OF _ sample_processed]) (simp add: initial_system_def initialLeaseState_def IsReadOnly_def)

lemma sample_local: "writes_local (en_Api sample_env) (\<lambda>w d. (\<lambda>k. sample_efs w (d, k), \<lambda>k. sample_vss w (d, k)))"
proof -
  have ef: "sample_efs (gm_put (c, ns, n) f a, b) (d, k) = sample_efs (a, b) (d, k)"
    "sample_efs (gm_del (c, ns, n) a, b) (d, k) = sample_efs (a, b) (d, k)"
    "sample_efs (a, x) (d, k) = sample_efs (a, b) (d, k)" if "c \<noteq> d" for c ns n f a b d k x
    using that by (auto simp: sample_efs_def)
  have vs: "sample_vss (a, gm_put (c, ns, n) f b) (d, k) = sample_vss (a, b) (d, k)"
    "sample_vss (a, gm_del (c, ns, n) b) (d, k) = sample_vss (a, b) (d, k)"
    "sample_vss (x, b) (d, k) = sample_vss (a, b) (d, k)" if "c \<noteq> d" for c ns n f a b d k x
    using that by (auto simp: sample_vss_def)
  show ?thesis
    unfolding writes_local_def ef_writes_keep_def vs_writes_keep_def
    by (auto simp: sample_env_def sample_api_def fun_eq_iff ef vs sample_efs_def sample_vss_def split: option.splits)
qed

theorem unreachable_clusters_untouched_witness:
  "\<forall>ns n. sample_efs (sy_World (sample_state ([], []))) (''c9'', ns, n) = None
     \<and> sample_vss (sy_World (sample_state ([], []))) (''c9'', ns, n) = None"
proof -
  let ?st = "initial_system ([], []) :: (nat, server) system"
  have "system_inv (en_Params sample_env) ?st" by (rule initial_inv)
  then have "system_ok (en_Params sample_env) ?st" by (simp add: system_inv_def)
  moreover have "\<not> reachable_cluster sample_env (sy_Registry ?st) ''c9''"
    by (simp add: reachable_cluster_def initial_system_def emptyRegistry_def RC_GetCluster_def RC_Reset_def)
  ultimately show ?thesis
    using unreachable_clusters_untouched [OF sample_local _ _ sample_processed, of "([], [])" "''c9''"]
    by (simp add: fun_eq_iff initial_system_def sample_efs_def sample_vss_def gm_get_def)
qed

end
