(* ===== verification/WorkloadEvents.thy ===== *)
theory WorkloadEvents
  imports TrafficConfigEvents WorkloadHandlers DependencyHandler
begin

text \<open>
  What the events of workloads and dependency records achieve: which traffic configs they trigger, and
  what they leave in the identity caches.
\<close>

subsection \<open>What is triggered\<close>

text \<open>Identities without a cached traffic config are passed over.\<close>

lemma trigger_entry_none:
  "TCCache_GetTrafficConfigEntry (sy_TrafficConfigs st) owner = None \<Longrightarrow> trigger_entry env ctx src ch owner (st, cs) = Some (st, cs)"
  by (simp add: trigger_entry_def)

lemma trigger_nothing:
  assumes "ctx_Log ctx"
    and "\<forall>owner \<in> insert i (set (GetDependentsForIdentity (sy_IdentityDependency st) i)).
           TCCache_GetTrafficConfigEntry (sy_TrafficConfigs st) owner = None"
  shows "TriggerTrafficConfigHandlerForIdentity env ctx i ch (st, cs) = Some (st, cs)"
proof -
  have "foreach (trigger_entry env ctx (Some i) ch) owners (st, cs) = Some (st, cs)"
    if "\<forall>owner \<in> set owners. TCCache_GetTrafficConfigEntry (sy_TrafficConfigs st) owner = None" for owners
    using that by (induction owners) (simp_all add: trigger_entry_none)
  with assms show ?thesis by (simp add: TriggerTrafficConfigHandlerForIdentity_def trigger_entry_none)
qed

subsection \<open>The edges of dependency records\<close>

lemma add_destinations_items:
  assumes "dc_ok s"
  shows "dc_ok (add_destinations a ds s)
    \<and> set (GetDependenciesForIdentity (add_destinations a ds s) x) =
        set (GetDependenciesForIdentity s x) \<union> (if ToLower x = ToLower a then ToLower ` set ds else {})
    \<and> set (GetDependentsForIdentity (add_destinations a ds s) x) =
        set (GetDependentsForIdentity s x) \<union> (if ToLower x \<in> ToLower ` set ds then {ToLower a} else {})"
  using assms
proof (induction ds arbitrary: s)
  case Nil
  then show ?case by (simp add: add_destinations_def)
next
  case (Cons b ds)
  let ?s = "AddDependentToIdentity b a (AddDependencyToIdentity a b s)"
  have ok: "dc_ok ?s" using Cons.prems by (simp add: dep_graph.fwd.ok_add dep_graph.bwd.ok_add)
  have "add_destinations a (b # ds) s = add_destinations a ds ?s" by (simp add: add_destinations_def)
  with Cons.IH [OF ok] Cons.prems show ?case
    by (auto simp: dep_graph.frame dep_graph.frame' dep_graph.fwd.items_add dep_graph.bwd.items_add dep_graph.fwd.ok_add
        split: if_splits)
qed

lemma only_world_dependency:
  assumes "only_world st1 st'"
  shows "sy_IdentityDependency st' = sy_IdentityDependency st1"
proof -
  have "st' = st1\<lparr>sy_World := sy_World st'\<rparr>" using assms by (simp only: only_world_def)
  then have "sy_IdentityDependency st' = sy_IdentityDependency (st1\<lparr>sy_World := sy_World st'\<rparr>)" by (rule arg_cong)
  then show ?thesis by simp
qed

lemma Dependency_Updated_cache:
  assumes "Dependency_Updated env ctx (Some (ObjDependency d)) old (Some c) (st, cs) = Some (status, st', cs')"
    "dep_Source d \<noteq> []" "chan_open c cs"
  shows "sy_IdentityDependency st' = add_destinations (dep_Source d) (dep_Destinations d) (sy_IdentityDependency st)"
proof -
  let ?st = "st\<lparr>sy_IdentityDependency := add_destinations (dep_Source d) (dep_Destinations d) (sy_IdentityDependency st)\<rparr>"
  let ?xs = "new_destinations (dep_Destinations d) (case as_Dependency old of None \<Rightarrow> [] | Some r \<Rightarrow> dep_Destinations r)"
  let ?run = "foreach (\<lambda>(i, _). TriggerTrafficConfigHandlerForIdentity env ctx i (Some c)) ?xs (?st, cs)"
  have "finish (Some c) ?st cs = Some (status, st', cs')
      \<or> Option.bind ?run (\<lambda>(st2, cs2). finish (Some c) st2 cs2) = Some (status, st', cs')"
    using assms(1,2) by (auto simp: Dependency_Updated_def Let_def logged_Some split: if_splits)
  then consider "finish (Some c) ?st cs = Some (status, st', cs')" | st2 cs2 where
      "?run = Some (st2, cs2)" "finish (Some c) st2 cs2 = Some (status, st', cs')"
    by (cases ?run) auto
  then show ?thesis
  proof cases
    case 1
    then show ?thesis using finish_state by fastforce
  next
    case (2 st2 cs2)
    have "trigger_effect c (?st, cs) (st2, cs2)"
      by (rule trigger_loop [OF 2(1)]) (use assms(3) in \<open>auto intro: Trigger_effect\<close>)
    moreover have "st' = st2" by (rule finish_state [OF 2(2)])
    ultimately show ?thesis using only_world_dependency by (fastforce simp: trigger_effect_def)
  qed
qed

subsection \<open>Properties\<close>

text \<open>
  A new deployment only triggers the traffic configs of its identity and of the identities that
  depend on it.  When there is none of those, the event ends with nothing written, although the
  identities the workload calls may have traffic configs whose virtual services are wanted in the
  cluster it just appeared in.
\<close>

theorem new_workload_triggers_dependents_only:
  assumes w: "\<not> IsResourceIgnored (en_Params env) (wl_Template w)" "IsResourceMeshEnabled (en_Params env) (wl_Template w)"
      "GetWorkloadIdentifier (en_Params env) (wl_Template w) = i" "i \<noteq> []"
    and none: "\<forall>owner \<in> insert i (set (GetDependentsForIdentity (sy_IdentityDependency st) i)).
       TCCache_GetTrafficConfigEntry (sy_TrafficConfigs st) owner = None"
    and ctx: "ctx_Log ctx" "chan_open c cs"
  shows "Deployment_Added env clusterID ctx (Some (ObjDeployment w)) (Some c) (st, cs) =
    Some (EventSkip, st\<lparr>sy_IdentityCluster := AddClusterToIdentity i clusterID (sy_IdentityCluster st),
       sy_Deployments := Deployments_Add (en_Params env) clusterID w (sy_Deployments st)\<rparr>, close_with c skip_status cs)"
proof -
  let ?st = "st\<lparr>sy_IdentityCluster := AddClusterToIdentity i clusterID (sy_IdentityCluster st),
       sy_Deployments := Deployments_Add (en_Params env) clusterID w (sy_Deployments st)\<rparr>"
  have "TriggerTrafficConfigHandlerForIdentity env ctx i (Some c) (?st, cs) = Some (?st, cs)"
    by (rule trigger_nothing [OF ctx(1)]) (use none in simp)
  with w ctx show ?thesis by (simp add: Deployment_Added_def Let_def finish_settles)
qed

text \<open>
  C36: deleting the deployment of one environment takes the cluster from the identity, although the
  deployment of another environment of the identity stays cached in that cluster: later events of the
  identity's traffic configs pass the cluster by.
\<close>

theorem deleted_environment_drops_cluster:
  assumes w: "\<not> IsResourceIgnored (en_Params env) (wl_Template w)" "IsResourceMeshEnabled (en_Params env) (wl_Template w)"
      "GetWorkloadIdentifier (en_Params env) (wl_Template w) = i" "i \<noteq> []"
    and ok: "system_ok (en_Params env) st" and ctx: "ctx_Log ctx" "chan_open c cs"
    and other: "Deployments_GetByClusterIdentityEnv (sy_Deployments st) clusterID i e = Some d" "ToLower e \<noteq> Workload_env (en_Params env) w"
  shows "\<exists>st'. Deployment_Deleted env clusterID ctx (Some (ObjDeployment w)) (Some c) (st, cs)
        = Some (EventSkip, st', close_with c skip_status cs)
    \<and> Deployments_GetByClusterIdentityEnv (sy_Deployments st') clusterID i e = Some d
    \<and> ToLower clusterID \<notin> set (GetClustersForIdentity (sy_IdentityCluster st') i)"
proof -
  let ?st = "st\<lparr>sy_Deployments := Deployments_Delete (en_Params env) clusterID w (sy_Deployments st),
       sy_IdentityCluster := DeleteClusterFromIdentity i clusterID (sy_IdentityCluster st)\<rparr>"
  have cc: "cc_ok (sy_Deployments st)" and sm: "sm_ok (sy_IdentityCluster st)" using ok by (simp_all add: system_ok_def)
  have "Deployment_Deleted env clusterID ctx (Some (ObjDeployment w)) (Some c) (st, cs)
      = Some (EventSkip, ?st, close_with c skip_status cs)"
    using w ctx by (simp add: Deployment_Deleted_def Let_def finish_settles)
  moreover have "Deployments_GetByClusterIdentityEnv (sy_Deployments ?st) clusterID i e = Some d"
    using other by (simp add: Deployments_read dep_cache.look_remove [OF cc] Workload_slot_def)
  moreover have "ToLower clusterID \<notin> set (GetClustersForIdentity (sy_IdentityCluster ?st) i)"
    by (simp add: id_cluster.items_del [OF sm])
  ultimately show ?thesis by blast
qed

text \<open>
  C37: dependency records only ever add edges.  An addition or update records exactly the edges from the
  source to each destination, on both sides, on top of what was there, whatever the old record was; a
  deletion removes none.  So a destination that is dropped from a record stays a dependency.
\<close>

theorem dependency_edges_only_grow:
  assumes "dc_ok (sy_IdentityDependency st)" "dep_Source d \<noteq> []" "chan_open c cs"
    and "Dependency_Added ctx (Some (ObjDependency d)) (Some c) (st, cs) = Some (status, st', cs')
      \<or> Dependency_Updated env ctx (Some (ObjDependency d)) old (Some c) (st, cs) = Some (status, st', cs')"
    and "Dependency_Deleted ctx (Some (ObjDependency d)) (Some c) (st, cs) = Some (status2, st2, cs2)"
  shows "set (GetDependenciesForIdentity (sy_IdentityDependency st') x) =
        set (GetDependenciesForIdentity (sy_IdentityDependency st) x)
          \<union> (if ToLower x = ToLower (dep_Source d) then ToLower ` set (dep_Destinations d) else {})
    \<and> set (GetDependentsForIdentity (sy_IdentityDependency st') x) =
        set (GetDependentsForIdentity (sy_IdentityDependency st) x)
          \<union> (if ToLower x \<in> ToLower ` set (dep_Destinations d) then {ToLower (dep_Source d)} else {})
    \<and> st2 = st"
proof -
  have "sy_IdentityDependency st' = add_destinations (dep_Source d) (dep_Destinations d) (sy_IdentityDependency st)"
    using assms(4)
  proof
    assume "Dependency_Added ctx (Some (ObjDependency d)) (Some c) (st, cs) = Some (status, st', cs')"
    then show ?thesis using assms(2) by (auto simp: Dependency_Added_def logged_Some dest: finish_state)
  next
    assume "Dependency_Updated env ctx (Some (ObjDependency d)) old (Some c) (st, cs) = Some (status, st', cs')"
    then show ?thesis by (rule Dependency_Updated_cache [OF _ assms(2,3)])
  qed
  moreover have "st2 = st" using assms(5) by (auto simp: Dependency_Deleted_def dest: finish_state)
  ultimately show ?thesis using add_destinations_items [OF assms(1)] by simp
qed

subsection \<open>Witnesses\<close>

text \<open>A workload of \<open>web\<close>, which calls \<open>Shop\<close>, appears in the cluster \<open>c2\<close>.\<close>

definition web_workload :: "string \<Rightarrow> Workload" where
  "web_workload e = \<lparr>wl_Meta = \<lparr>om_Name = ''web'', om_Namespace = ''web'', om_Labels = Some [(''app'', ''web'')], om_Annotations = None\<rparr>,
     wl_Template = \<lparr>om_Name = [], om_Namespace = [], om_Labels = Some [(''alpha.istio.io/identity'', ''web''),
       (''admiral.io/env'', e), (''sidecar.istio.io/inject'', ''true'')], om_Annotations = None\<rparr>\<rparr>"

lemma web_workload: "\<not> IsResourceIgnored (en_Params sample_env) (wl_Template (web_workload ''qal''))"
  "IsResourceMeshEnabled (en_Params sample_env) (wl_Template (web_workload ''qal''))"
  "GetWorkloadIdentifier (en_Params sample_env) (wl_Template (web_workload ''qal'')) = ''web''"
  unfolding event_params by code_simp+

lemma event_context: "ctx_Log NewContextWithLogger" "chan_open 0 sample_chans"
  by (simp_all add: NewContextWithLogger_def chan_open_def sample_chans_def)

theorem new_workload_triggers_dependents_only_witness:
  "\<exists>st'. Deployment_Added sample_env ''c2'' NewContextWithLogger (Some (ObjDeployment (web_workload ''qal''))) (Some 0)
        (event_system ([], []), sample_chans) = Some (EventSkip, st', close_with 0 skip_status sample_chans)
     \<and> sy_World st' = ([], []) \<and> ''c2'' \<in> virtual_service_targets sample_env st' rate_tc"
proof -
  let ?st = "event_system ([], [])"
  let ?st' = "?st\<lparr>sy_IdentityCluster := AddClusterToIdentity ''web'' ''c2'' (sy_IdentityCluster ?st),
       sy_Deployments := Deployments_Add (en_Params sample_env) ''c2'' (web_workload ''qal'') (sy_Deployments ?st)\<rparr>"
  have "GetDependentsForIdentity (sy_IdentityDependency ?st) ''web'' = []"
    "TCCache_GetTrafficConfigEntry (sy_TrafficConfigs ?st) ''web'' = None"
    unfolding event_system_def rate_system_def sample_system_def initial_system_def by code_simp+
  then have none: "\<forall>owner \<in> insert ''web'' (set (GetDependentsForIdentity (sy_IdentityDependency ?st) ''web'')).
      TCCache_GetTrafficConfigEntry (sy_TrafficConfigs ?st) owner = None" by simp
  have "GetClustersForIdentity (AddClusterToIdentity ''web'' ''c2'' (sy_IdentityCluster ?st)) ''web'' = [''c1'', ''c2'']"
    "GetDependentsForIdentity (sy_IdentityDependency ?st) (TC_GetIdentity (InitializeNaavikArgs None) rate_tc) = [''web'']"
    "\<not> IsAssetIgnored (InitializeNaavikArgs None) ''web''"
    "map_option rcl_clusterID (RC_GetCluster (reg_clusters (sy_Registry ?st)) ''c2'') = Some ''c2''"
    unfolding event_system_def rate_system_def sample_system_def initial_system_def by code_simp+
  then have "''c2'' \<in> virtual_service_targets sample_env ?st' rate_tc"
    by (auto simp: virtual_service_targets_def reachable_cluster_def sample_scope event_params)
  with new_workload_triggers_dependents_only [OF web_workload _ none event_context, of "''c2''"] show ?thesis
    by (intro exI [of _ ?st']) (simp add: event_world)
qed

theorem deleted_environment_drops_cluster_witness:
  "\<exists>st'. Deployment_Deleted sample_env ''c1'' NewContextWithLogger (Some (ObjDeployment (web_workload ''qal''))) (Some 0)
        (event_system ([], [])\<lparr>sy_Deployments := Deployments_Add (InitializeNaavikArgs None) ''c1'' (web_workload ''e2e'') Deployments_Reset\<rparr>,
         sample_chans) = Some (EventSkip, st', close_with 0 skip_status sample_chans)
     \<and> Deployments_GetByClusterIdentityEnv (sy_Deployments st') ''c1'' ''web'' ''e2e'' = Some (web_workload ''e2e'')
     \<and> ToLower ''c1'' \<notin> set (GetClustersForIdentity (sy_IdentityCluster st') ''web'')"
proof (rule deleted_environment_drops_cluster [OF web_workload _ _ event_context])
  let ?ds = "Deployments_Add (InitializeNaavikArgs None) ''c1'' (web_workload ''e2e'') Deployments_Reset"
  have "cc_ok ?ds" using dep_cache.ok_add dep_cache.ok_emp by blast
  with event_system_ok [of "([], [])"] show "system_ok (en_Params sample_env) (event_system ([], [])\<lparr>sy_Deployments := ?ds\<rparr>)"
    by (simp add: system_ok_def)
  have "Deployments_GetByClusterIdentityEnv ?ds ''c1'' ''web'' ''e2e'' = Some (web_workload ''e2e'')" by code_simp
  then show "Deployments_GetByClusterIdentityEnv (sy_Deployments (event_system ([], [])\<lparr>sy_Deployments := ?ds\<rparr>)) ''c1'' ''web'' ''e2e''
      = Some (web_workload ''e2e'')" by simp
  show "ToLower ''e2e'' \<noteq> Workload_env (en_Params sample_env) (web_workload ''qal'')" unfolding event_params by code_simp
qed simp

theorem dependency_edges_only_grow_witness:
  "set (GetDependentsForIdentity (add_destinations ''web'' [''Shop''] IdentityDependency_Reset) ''SHOP'') = {''web''}"
proof -
  let ?st = "initial_system ([], []) :: (unit, server) system"
  let ?d = "\<lparr>dep_Source = ''web'', dep_Destinations = [''Shop'']\<rparr>"
  have added: "Dependency_Added NewContextWithLogger (Some (ObjDependency ?d)) (Some 0) (?st, sample_chans)
      = Some (EventSkip, ?st\<lparr>sy_IdentityDependency := add_destinations ''web'' [''Shop''] IdentityDependency_Reset\<rparr>,
          close_with 0 skip_status sample_chans)"
    using event_context by (simp add: Dependency_Added_def finish_settles initial_system_def)
  have deleted: "Dependency_Deleted NewContextWithLogger (Some (ObjDependency ?d)) (Some 0) (?st, sample_chans)
      = Some (EventSkip, ?st, close_with 0 skip_status sample_chans)"
    using event_context by (simp add: Dependency_Deleted_def finish_settles)
  have ok: "dc_ok (sy_IdentityDependency ?st)" by (simp add: initial_system_def dep_graph.bwd.ok_emp)
  have low: "lower_char CHR ''H'' = CHR ''h''" "lower_char CHR ''O'' = CHR ''o''" "lower_char CHR ''P'' = CHR ''p''"
    "lower_char CHR ''h'' = CHR ''h''" "lower_char CHR ''o'' = CHR ''o''" "lower_char CHR ''p'' = CHR ''p''"
    "lower_char CHR ''w'' = CHR ''w''" "lower_char CHR ''e'' = CHR ''e''" "lower_char CHR ''b'' = CHR ''b''"
    by code_simp+
  from dependency_edges_only_grow [OF ok _ event_context(2) disjI1 [OF added] deleted, of "''SHOP''"] show ?thesis
    by (simp add: low initial_system_def dep_graph.bwd.items_emp)
qed

end
