(* ===== verification/Program.thy ===== *)
theory Program
  imports Controllers Bootstrap
begin

text \<open>
  The whole program: what \<open>InitNaavik\<close> leaves is the start of the runs of theory Controllers, a worker is
  a run of its controller's events, and the shutdown may come in any state.
\<close>

definition started :: "'cc process \<Rightarrow> 'w \<Rightarrow> ('cc, 'w) system" where
  "started pr w = (initial_system w)\<lparr>sy_Lease := pr_Lease pr, sy_Registry := pr_Registry pr\<rparr>"

lemma init_registry_ok: "InitNaavik ev build ld p = Some pr \<Longrightarrow> reg_ok (pr_Registry pr)"
  using reg_ok_StartControllers [OF reg_ok_empty] by (auto simp: InitNaavik_def Let_def split: sum.splits prod.splits bind_splits)

lemma started_inv:
  fixes pr :: "'cc process" and w :: 'w
  assumes "InitNaavik ev build ld p = Some pr"
  shows "system_inv p (started pr w)"
proof -
  have "system_inv p (initial_system w :: ('cc, 'w) system)" by (rule initial_inv)
  with init_registry_ok [OF assms] show ?thesis by (simp add: started_def system_inv_def system_ok_def)
qed

text \<open>Other channels stay as they were when an event is processed.\<close>

lemma fresh_kept:
  assumes "settled c cs cs'" "fresh_chan d cs" "d \<noteq> c"
  shows "fresh_chan d cs'"
proof -
  have "grows {c} cs cs'" by (rule settled_chans [OF assms(1)]) blast
  with assms(2,3) show ?thesis by (auto simp: fresh_chan_def chan_open_def grows_def)
qed

text \<open>
  C23: a worker of any controller is a run of the program: when it returns, the events it was handed, each
  with a status channel of its own, were processed one after the other, each to its end, and none is
  queued again, so the queue drains.
\<close>

theorem worker_is_a_run:
  assumes "runWorker synced (controller_delegator env ld k) gets (st, cs) = Some ((st', cs'), effss)"
    and "distinct (map it_statusChan gets)" "\<forall>it \<in> set gets. fresh_chan (it_statusChan it) cs"
  shows "program_run env ld (st, cs) (st', cs') \<and> length effss = (if synced then length gets else 0)
    \<and> (\<forall>effs \<in> set effss. \<not> delivered_again effs \<and> last effs = QueueDone)"
proof (cases synced)
  case True
  have "program_run env ld (st, cs) (st', cs') \<and> length effss = length gets
    \<and> (\<forall>effs \<in> set effss. \<not> delivered_again effs \<and> last effs = QueueDone)"
    if "processNextItems (controller_delegator env ld k) gets (st, cs) = Some ((st', cs'), effss)"
    using that assms(2,3)
  proof (induction gets arbitrary: st cs effss)
    case Nil
    then show ?case by simp
  next
    case (Cons it gets)
    obtain it' st1 cs1 effs rest where one: "processItem (controller_delegator env ld k) it (st, cs) = Some (it', (st1, cs1), effs)"
      "processNextItems (controller_delegator env ld k) gets (st1, cs1) = Some ((st', cs'), rest)" "effss = effs # rest"
      using Cons.prems(1) by (auto split: bind_splits)
    have fresh: "fresh_chan (it_statusChan it) cs" using Cons.prems(3) by simp
    note d = controller_delivery [OF fresh one(1)]
    have "\<forall>it \<in> set gets. fresh_chan (it_statusChan it) cs1"
      using Cons.prems(2,3) fresh_kept d by (metis distinct.simps(2) image_eqI list.set_intros(2) list.set_map list.simps(9))
    with Cons.IH [OF one(2)] Cons.prems(2)
    have rest: "program_run env ld (st1, cs1) (st', cs')" "length rest = length gets"
      "\<forall>effs \<in> set rest. \<not> delivered_again effs \<and> last effs = QueueDone" by simp_all
    have "program_step env ld (st, cs) (st1, cs1)" by (rule process [OF fresh one(1)])
    with rest(1) have "program_run env ld (st, cs) (st', cs')" by (rule converse_rtranclp_into_rtranclp [rotated])
    with rest(2,3) d show ?case by (auto simp: one(3))
  qed
  with assms(1) True show ?thesis by (simp add: runWorker_def)
qed (use assms(1) in \<open>simp add: runWorker_def\<close>)


subsection \<open>Witnesses\<close>

theorem worker_is_a_run_witness:
  "\<exists>effss. runWorker True (controller_delegator sample_env sample_loader Dependencies) [sample_event] (initial_system ([], []), sample_chans)
       = Some ((sample_state ([], []), close_with 0 skip_status sample_chans), effss)
     \<and> program_run sample_env sample_loader (initial_system ([], []), sample_chans) (sample_state ([], []), close_with 0 skip_status sample_chans)
     \<and> length effss = 1"
proof -
  have "runWorker True (controller_delegator sample_env sample_loader Dependencies) [sample_event] (initial_system ([], []), sample_chans)
       = Some ((sample_state ([], []), close_with 0 skip_status sample_chans), [[QueueDone]])"
    by (simp add: runWorker_def sample_processed del: controller_delegator.simps)
  moreover from worker_is_a_run [OF this] program_fresh
  have "program_run sample_env sample_loader (initial_system ([], []), sample_chans) (sample_state ([], []), close_with 0 skip_status sample_chans)"
    by simp
  ultimately show ?thesis by auto
qed

text \<open>A start of the program with the default parameters.\<close>

definition sample_start :: "env_vars" where
  "sample_start = \<lparr>ev_APP_ENV = [], ev_MESH_TRAFFIC_PORT = [], ev_ENFORCE_TLS_12 = []\<rparr>"

lemma sample_started: "\<exists>pr. InitNaavik sample_start (\<lambda>_. (Some (0::nat), None)) sample_loader (en_Params sample_env) = Some pr"
proof -
  have p: "StateChecker (en_Params sample_env) = ''none''" "ConfigResolver (en_Params sample_env) = ''secret''"
    unfolding sample_env_def environment.simps by code_simp+
  have "InitNaavik sample_start (\<lambda>_. (Some (0::nat), None)) sample_loader (en_Params sample_env) \<noteq> None"
    by (simp add: sample_start_def InitNaavik_def Let_def GetConfigFromPath_def startStateChecker_def GetStateChecker_def StartControllers_def p
        split: prod.split)
  then show ?thesis by blast
qed


end
