(* ===== verification/Origins.thy ===== *)
theory Origins
  imports EventInvariants WorkloadEvents Program
begin

text \<open>
  Where the contents of the caches come from: whatever the program knows was brought by an event that it
  has processed before.
\<close>

subsection \<open>Facts\<close>

datatype 'cc fact = CachedConfig TrafficConfig | CachedDeployment string Workload | CachedRollout string Workload
  | CachedService string Service | RunsIn string string | Calls string string | KnownCluster "'cc RemoteCluster"

text \<open>What the caches of a state hold; clusters and identities are in lower case.\<close>

fun holds :: "('cc, 'w) system \<Rightarrow> 'cc fact \<Rightarrow> bool" where
  "holds st (CachedConfig tc) \<longleftrightarrow> (\<exists>x. tcc_look (sy_TrafficConfigs st) x = Some tc)"
| "holds st (CachedDeployment c w) \<longleftrightarrow> (\<exists>x. cc_look (sy_Deployments st) (c, x) = Some w)"
| "holds st (CachedRollout c w) \<longleftrightarrow> (\<exists>x. cc_look (sy_Rollouts st) (c, x) = Some w)"
| "holds st (CachedService c s) \<longleftrightarrow> (\<exists>x. cc_look (sy_Services st) (c, x) = Some s)"
| "holds st (RunsIn i c) \<longleftrightarrow> (\<exists>j. i = ToLower j \<and> c \<in> set (GetClustersForIdentity (sy_IdentityCluster st) j))"
| "holds st (Calls a b) \<longleftrightarrow> (\<exists>j. a = ToLower j \<and> b \<in> set (GetDependenciesForIdentity (sy_IdentityDependency st) j))"
| "holds st (KnownCluster rc) \<longleftrightarrow> (\<exists>c. gm_get (reg_clusters (sy_Registry st)) c = Some rc)"

text \<open>What an event may bring.\<close>

definition workload_facts :: "NaavikArgs \<Rightarrow> (string \<Rightarrow> Workload \<Rightarrow> 'cc fact) \<Rightarrow> string \<Rightarrow> Workload \<Rightarrow> 'cc fact set" where
  "workload_facts p cached c w =
     (let i = GetWorkloadIdentifier p (wl_Template w) in
      if \<not> IsResourceIgnored p (wl_Template w) \<and> IsResourceMeshEnabled p (wl_Template w) \<and> i \<noteq> []
      then {cached (ToLower c) w, RunsIn (ToLower i) (ToLower c)} else {})"

definition secret_facts :: "NaavikArgs \<Rightarrow> ('cc, 'rest) loader \<Rightarrow> Secret \<Rightarrow> 'cc fact set" where
  "secret_facts p ld s = (if IsSyncEnabled p (sec_Meta s)
     then {KnownCluster rc | rc c v. (c, v) \<in> set (sec_Data s) \<and> ResolveConfig ld c (secret_id s) v = Inr rc} else {})"

definition brings :: "NaavikArgs \<Rightarrow> ('cc, 'rest) loader \<Rightarrow> controller \<Rightarrow> k8s_object option item \<Rightarrow> 'cc fact set" where
  "brings p ld k it =
     (if it_eventType it = Delete then {}
      else (case (k, it_obj it) of
        (TrafficConfigs, Some (ObjTrafficConfig tc)) \<Rightarrow>
          if it_eventType it = Add \<and> \<not> TC_IsDisabled tc \<and> \<not> TC_IsIgnored p tc then {CachedConfig tc} else {}
      | (DeploymentsOf c, Some (ObjDeployment w)) \<Rightarrow> workload_facts p CachedDeployment c w
      | (RolloutsOf c, Some (ObjRollout w)) \<Rightarrow> workload_facts p CachedRollout c w
      | (ServicesOf c, Some (ObjService s)) \<Rightarrow> {CachedService (ToLower c) s}
      | (Dependencies, Some (ObjDependency d)) \<Rightarrow>
          if dep_Source d = [] then {} else (\<lambda>b. Calls (ToLower (dep_Source d)) (ToLower b)) ` set (dep_Destinations d)
      | (Secrets, Some (ObjSecret s)) \<Rightarrow> secret_facts p ld s
      | _ \<Rightarrow> {}))"

subsection \<open>What one operation adds\<close>

text \<open>The facts a state may hold: a well-formed state with no other facts than those of \<open>S\<close>.\<close>

definition knows :: "NaavikArgs \<Rightarrow> 'cc fact set \<Rightarrow> ('cc, 'w) system \<Rightarrow> bool" where
  "knows p S st \<longleftrightarrow> system_ok p st \<and> (\<forall>f. holds st f \<longrightarrow> f \<in> S)"

text \<open>Component by component.\<close>

lemma all_facts:
  "(\<forall>f. P f) \<longleftrightarrow> (\<forall>tc. P (CachedConfig tc)) \<and> (\<forall>c w. P (CachedDeployment c w)) \<and> (\<forall>c w. P (CachedRollout c w))
     \<and> (\<forall>c s. P (CachedService c s)) \<and> (\<forall>i c. P (RunsIn i c)) \<and> (\<forall>a b. P (Calls a b)) \<and> (\<forall>rc. P (KnownCluster rc))"
  by (metis fact.exhaust)

lemma knows_iff:
  "knows p S st \<longleftrightarrow> system_ok p st
     \<and> (\<forall>tc. (\<exists>x. tcc_look (sy_TrafficConfigs st) x = Some tc) \<longrightarrow> CachedConfig tc \<in> S)
     \<and> (\<forall>c w. (\<exists>x. cc_look (sy_Deployments st) (c, x) = Some w) \<longrightarrow> CachedDeployment c w \<in> S)
     \<and> (\<forall>c w. (\<exists>x. cc_look (sy_Rollouts st) (c, x) = Some w) \<longrightarrow> CachedRollout c w \<in> S)
     \<and> (\<forall>c s. (\<exists>x. cc_look (sy_Services st) (c, x) = Some s) \<longrightarrow> CachedService c s \<in> S)
     \<and> (\<forall>i c. (\<exists>j. i = ToLower j \<and> c \<in> set (GetClustersForIdentity (sy_IdentityCluster st) j)) \<longrightarrow> RunsIn i c \<in> S)
     \<and> (\<forall>a b. (\<exists>j. a = ToLower j \<and> b \<in> set (GetDependenciesForIdentity (sy_IdentityDependency st) j)) \<longrightarrow> Calls a b \<in> S)
     \<and> (\<forall>rc. (\<exists>c. gm_get (reg_clusters (sy_Registry st)) c = Some rc) \<longrightarrow> KnownCluster rc \<in> S)"
  by (simp only: knows_def all_facts holds.simps)

lemma knows_oks:
  assumes "knows p S st"
  shows "cc_ok (sy_Deployments st)" "cc_ok (sy_Rollouts st)" "cc_ok (sy_Services st)" "sm_ok (sy_IdentityCluster st)"
    "dc_ok (sy_IdentityDependency st)" "tcc_ok p (sy_TrafficConfigs st)" "reg_ok (sy_Registry st)"
  using assms by (simp_all add: knows_def system_ok_def)

named_theorems knows_intros

lemma knows_world [simp]: "knows p S (st\<lparr>sy_World := w\<rparr>) = knows p S st"
  by (simp add: knows_iff system_ok_def)

lemma knows_lease [simp]: "knows p S (st\<lparr>sy_Lease := l\<rparr>) = knows p S st"
  by (simp add: knows_iff system_ok_def)

lemma knows_only_world: "only_world st st' \<Longrightarrow> knows p S st \<Longrightarrow> knows p S st'"
  unfolding only_world_def by (metis knows_world)

lemma knows_Cached [knows_intros]:
  assumes "knows p S st" "CachedConfig tc \<in> S"
  shows "knows p S (st\<lparr>sy_TrafficConfigs := AddTrafficConfigToCache p tc (sy_TrafficConfigs st)\<rparr>)"
  using assms knows_oks [OF assms(1)]
  by (auto simp: knows_iff system_ok_def tcc_ok_Add tcc_look_Add split: if_splits)

lemma knows_Uncached [knows_intros]:
  assumes "knows p S st"
  shows "knows p S (st\<lparr>sy_TrafficConfigs := DeleteTrafficConfigFromCache p tc (sy_TrafficConfigs st)\<rparr>)"
  using assms knows_oks [OF assms]
  by (auto simp: knows_iff system_ok_def tcc_ok_Delete tcc_look_Delete tcc_spec_def split: option.splits if_splits)

text \<open>Workloads and services.\<close>

lemma knows_Seen [knows_intros]:
  assumes "knows p S st" "CachedDeployment (ToLower c) w \<in> S"
  shows "knows p S (st\<lparr>sy_Deployments := Deployments_Add p c w (sy_Deployments st)\<rparr>)"
  using assms knows_oks [OF assms(1)]
  by (auto simp: knows_iff system_ok_def dep_cache.ok_add dep_cache.look_add Workload_slot_def split: if_splits) metis+

lemma knows_Gone [knows_intros]:
  assumes "knows p S st"
  shows "knows p S (st\<lparr>sy_Deployments := Deployments_Delete p c w (sy_Deployments st)\<rparr>)"
  using assms knows_oks [OF assms]
  by (auto simp: knows_iff system_ok_def dep_cache.ok_remove dep_cache.look_remove split: if_splits) metis

lemma knows_Seen_rollout [knows_intros]:
  assumes "knows p S st" "CachedRollout (ToLower c) w \<in> S"
  shows "knows p S (st\<lparr>sy_Rollouts := Rollouts_Add p c w (sy_Rollouts st)\<rparr>)"
  using assms knows_oks [OF assms(1)]
  by (auto simp: knows_iff system_ok_def ro_cache.ok_add ro_cache.look_add Workload_slot_def split: if_splits) metis+

lemma knows_Gone_rollout [knows_intros]:
  assumes "knows p S st"
  shows "knows p S (st\<lparr>sy_Rollouts := Rollouts_Delete p c w (sy_Rollouts st)\<rparr>)"
  using assms knows_oks [OF assms]
  by (auto simp: knows_iff system_ok_def ro_cache.ok_remove ro_cache.look_remove split: if_splits) metis

lemma knows_service [knows_intros]:
  assumes "knows p S st" "CachedService (ToLower c) s \<in> S"
  shows "knows p S (st\<lparr>sy_Services := Services_Add c s (sy_Services st)\<rparr>)"
  using assms knows_oks [OF assms(1)]
  by (auto simp: knows_iff system_ok_def svc_cache.ok_add svc_cache.look_add split: if_splits) metis+

lemma knows_no_service [knows_intros]:
  assumes "knows p S st"
  shows "knows p S (st\<lparr>sy_Services := Services_Delete c s (sy_Services st)\<rparr>)"
  using assms knows_oks [OF assms]
  by (auto simp: knows_iff system_ok_def svc_cache.ok_remove svc_cache.look_remove split: if_splits) metis+

text \<open>The clusters of an identity, and its dependencies.\<close>

lemma knows_RunsIn [knows_intros]:
  assumes "knows p S st" "RunsIn (ToLower i) (ToLower c) \<in> S"
  shows "knows p S (st\<lparr>sy_IdentityCluster := AddClusterToIdentity i c (sy_IdentityCluster st)\<rparr>)"
  using assms knows_oks [OF assms(1)]
  by (auto simp: knows_iff system_ok_def id_cluster.ok_add id_cluster.items_add split: if_splits) metis+

lemma knows_no_longer [knows_intros]:
  assumes "knows p S st"
  shows "knows p S (st\<lparr>sy_IdentityCluster := DeleteClusterFromIdentity i c (sy_IdentityCluster st)\<rparr>)"
  using assms knows_oks [OF assms]
  by (auto simp: knows_iff system_ok_def id_cluster.ok_del id_cluster.items_del split: if_splits) metis+

lemma knows_Calls [knows_intros]:
  assumes "knows p S st" "\<forall>b \<in> set ds. Calls (ToLower a) (ToLower b) \<in> S"
  shows "knows p S (st\<lparr>sy_IdentityDependency := add_destinations a ds (sy_IdentityDependency st)\<rparr>)"
  using assms add_destinations_items [OF knows_oks(5) [OF assms(1)], of a ds]
  by (auto simp: knows_iff system_ok_def split: if_splits) metis+

subsection \<open>What an event adds\<close>

text \<open>The operations of one event together.\<close>

lemma knows_workload_added [knows_intros]:
  assumes "knows p S st" "RunsIn (ToLower i) (ToLower c) \<in> S" "CachedDeployment (ToLower c) w \<in> S"
  shows "knows p S (st\<lparr>sy_IdentityCluster := AddClusterToIdentity i c (sy_IdentityCluster st),
    sy_Deployments := Deployments_Add p c w (sy_Deployments st)\<rparr>)"
  using knows_Seen [OF knows_RunsIn [OF assms(1,2)] assms(3)] by simp

lemma knows_workload_deleted [knows_intros]:
  assumes "knows p S st"
  shows "knows p S (st\<lparr>sy_Deployments := Deployments_Delete p c w (sy_Deployments st),
    sy_IdentityCluster := DeleteClusterFromIdentity i c (sy_IdentityCluster st)\<rparr>)"
  using knows_no_longer [OF knows_Gone [OF assms]] by simp

lemma knows_workload_moved [knows_intros]:
  assumes "knows p S st" "RunsIn (ToLower i) (ToLower c) \<in> S" "CachedDeployment (ToLower c) w \<in> S"
  shows "knows p S (st\<lparr>sy_IdentityCluster := AddClusterToIdentity i c (DeleteClusterFromIdentity j c (sy_IdentityCluster st)),
    sy_Deployments := Deployments_Add p c w (Deployments_Delete p c v (sy_Deployments st))\<rparr>)"
  using knows_workload_added [OF knows_workload_deleted [OF assms(1)] assms(2,3)] by simp

lemma knows_rollout_added [knows_intros]:
  assumes "knows p S st" "RunsIn (ToLower i) (ToLower c) \<in> S" "CachedRollout (ToLower c) w \<in> S"
  shows "knows p S (st\<lparr>sy_IdentityCluster := AddClusterToIdentity i c (sy_IdentityCluster st),
    sy_Rollouts := Rollouts_Add p c w (sy_Rollouts st)\<rparr>)"
  using knows_Seen_rollout [OF knows_RunsIn [OF assms(1,2)] assms(3)] by simp

lemma knows_rollout_deleted [knows_intros]:
  assumes "knows p S st"
  shows "knows p S (st\<lparr>sy_Rollouts := Rollouts_Delete p c w (sy_Rollouts st),
    sy_IdentityCluster := DeleteClusterFromIdentity i c (sy_IdentityCluster st)\<rparr>)"
  using knows_no_longer [OF knows_Gone_rollout [OF assms]] by simp

lemma knows_rollout_moved [knows_intros]:
  assumes "knows p S st" "RunsIn (ToLower i) (ToLower c) \<in> S" "CachedRollout (ToLower c) w \<in> S"
  shows "knows p S (st\<lparr>sy_IdentityCluster := AddClusterToIdentity i c (DeleteClusterFromIdentity j c (sy_IdentityCluster st)),
    sy_Rollouts := Rollouts_Add p c w (Rollouts_Delete p c v (sy_Rollouts st))\<rparr>)"
  using knows_rollout_added [OF knows_rollout_deleted [OF assms(1)] assms(2,3)] by simp

interpretation origins: feature_invariant "env :: 'w environment" "knows (en_Params env) S :: ('cc, 'w) system \<Rightarrow> bool"
proof
  fix ctx tc ev ch cs status cs' and st st' :: "('cc, 'w) system"
  assume knows: "knows (en_Params env) S st" and run: "process_traffic_config env ctx tc ev ch (st, cs) = Some (status, st', cs')"
  then have "only_world st st'"
    by (auto simp: process_traffic_config_def logged_Some dest: finish_state run_features_world split: if_splits bind_splits)
  then show "knows (en_Params env) S st'" by (rule knows_only_world [OF _ knows])
qed

lemma as_object:
  "as_TrafficConfig obj = Some tc \<longleftrightarrow> obj = Some (ObjTrafficConfig tc)" "as_Deployment obj = Some w \<longleftrightarrow> obj = Some (ObjDeployment w)"
  "as_Rollout obj = Some w \<longleftrightarrow> obj = Some (ObjRollout w)" "as_Service obj = Some s \<longleftrightarrow> obj = Some (ObjService s)"
  "as_Dependency obj = Some d \<longleftrightarrow> obj = Some (ObjDependency d)" "as_Secret obj = Some x \<longleftrightarrow> obj = Some (ObjSecret x)"
  by (cases obj rule: as_TrafficConfig.cases, simp_all; cases obj rule: as_Deployment.cases, simp_all)+

lemmas fact_keeps = keeps_intros origins.keeps_process origins.keeps_trigger origins.keeps_trigger_loop knows_intros

lemma TrafficConfig_brings:
  assumes "knows (en_Params env) S st"
  shows "(\<And>tc. obj = Some (ObjTrafficConfig tc) \<Longrightarrow> \<not> TC_IsDisabled tc \<Longrightarrow> \<not> TC_IsIgnored (en_Params env) tc \<Longrightarrow> CachedConfig tc \<in> S)
      \<Longrightarrow> event_keeps (knows (en_Params env) S) (TrafficConfig_Added env ctx obj ch (st, cs))"
    "event_keeps (knows (en_Params env) S) (TrafficConfig_Deleted env ctx obj ch (st, cs))"
  using assms by (auto simp: TrafficConfig_Added_def TrafficConfig_Deleted_def as_object intro!: fact_keeps split: option.split)

lemma Deployment_brings:
  assumes "knows (en_Params env) S st"
    and "\<And>w. obj = Some (ObjDeployment w) \<Longrightarrow> workload_facts (en_Params env) CachedDeployment c w \<subseteq> S"
  shows "event_keeps (knows (en_Params env) S) (Deployment_Added env c ctx obj ch (st, cs))"
    "event_keeps (knows (en_Params env) S) (Deployment_Updated env c ctx obj old ch (st, cs))"
  using assms
  by (auto simp: Deployment_Added_def Deployment_Updated_def Let_def as_object workload_facts_def intro!: fact_keeps split: option.split)

lemma Deployment_Deleted_brings:
  "knows (en_Params env) S st \<Longrightarrow> event_keeps (knows (en_Params env) S) (Deployment_Deleted env c ctx obj ch (st, cs))"
  by (auto simp: Deployment_Deleted_def Let_def intro!: fact_keeps split: option.split)

lemma Rollout_brings:
  assumes "knows (en_Params env) S st"
    and "\<And>w. obj = Some (ObjRollout w) \<Longrightarrow> workload_facts (en_Params env) CachedRollout c w \<subseteq> S"
  shows "event_keeps (knows (en_Params env) S) (Rollout_Added env c ctx obj ch (st, cs))"
    "event_keeps (knows (en_Params env) S) (Rollout_Updated env c ctx obj old ch (st, cs))"
  using assms
  by (auto simp: Rollout_Added_def Rollout_Updated_def Let_def as_object workload_facts_def intro!: fact_keeps split: option.split)

lemma Rollout_Deleted_brings:
  "knows (en_Params env) S st \<Longrightarrow> event_keeps (knows (en_Params env) S) (Rollout_Deleted env c ctx obj ch (st, cs))"
  by (auto simp: Rollout_Deleted_def Let_def intro!: fact_keeps split: option.split)

lemma Service_brings:
  assumes "knows p S st" "\<And>s. obj = Some (ObjService s) \<Longrightarrow> CachedService (ToLower c) s \<in> S"
  shows "event_keeps (knows p S) (Service_Added c ctx obj ch (st, cs))"
    "event_keeps (knows p S) (Service_Updated c ctx obj old ch (st, cs))"
  using assms by (auto simp: Service_Added_def Service_Updated_def as_object intro!: fact_keeps split: option.split)

lemma Service_Deleted_brings: "knows p S st \<Longrightarrow> event_keeps (knows p S) (Service_Deleted c ctx obj ch (st, cs))"
  by (auto simp: Service_Deleted_def intro!: fact_keeps split: option.split)

lemma Dependency_brings:
  assumes "knows (en_Params env) S st"
    and "\<And>d b. obj = Some (ObjDependency d) \<Longrightarrow> dep_Source d \<noteq> [] \<Longrightarrow> b \<in> set (dep_Destinations d)
      \<Longrightarrow> Calls (ToLower (dep_Source d)) (ToLower b) \<in> S"
  shows "event_keeps (knows (en_Params env) S) (Dependency_Added ctx obj ch (st, cs))"
    "event_keeps (knows (en_Params env) S) (Dependency_Updated env ctx obj old ch (st, cs))"
  using assms by (auto simp: Dependency_Added_def Dependency_Updated_def Let_def as_object intro!: fact_keeps split: option.split)

lemma Dependency_Deleted_brings: "knows p S st \<Longrightarrow> event_keeps (knows p S) (Dependency_Deleted ctx obj ch (st, cs))"
  by (auto simp: Dependency_Deleted_def intro!: fact_keeps split: option.split)

text \<open>The secret handler: a secret brings the clusters its kubeconfigs resolve to.\<close>

lemma knows_registry:
  assumes "knows p S st" "reg_ok reg" "\<And>c rc. gm_get (reg_clusters reg) c = Some rc \<Longrightarrow> KnownCluster rc \<in> S"
  shows "knows p S (st\<lparr>sy_Registry := reg\<rparr>)"
  using assms by (auto simp: knows_iff system_ok_def)

lemma knows_cluster: "knows p S st \<Longrightarrow> gm_get (reg_clusters (sy_Registry st)) c = Some rc \<Longrightarrow> KnownCluster rc \<in> S"
  by (auto simp: knows_iff)

lemma secret_added_brings:
  assumes "knows p S st" "\<And>s. obj = Some (ObjSecret s) \<Longrightarrow> secret_facts p ld s \<subseteq> S"
  shows "event_keeps (knows p S) (on_registry (Secret_Added p ld (as_Secret obj) ch) (st, cs))"
proof (cases "Secret_Added p ld (as_Secret obj) ch (sy_Registry st, cs)")
  case None
  then show ?thesis by (simp add: on_registry_def keeps_panic)
next
  case (Some r)
  obtain status reg cs' where r: "r = (status, reg, cs')" by (cases r)
  have reg: "reg_ok (sy_Registry st)" by (rule knows_oks(7) [OF assms(1)])
  have "reg_ok reg \<and> (\<forall>c rc. gm_get (reg_clusters reg) c = Some rc \<longrightarrow> KnownCluster rc \<in> S)"
  proof (cases "as_Secret obj")
    case None
    with Some have "reg = sy_Registry st" by (auto simp: Secret_Added_def r split: bind_splits)
    then show ?thesis using reg knows_cluster [OF assms(1)] by blast
  next
    case sec: (Some s)
    let ?add = "secret_add_cluster p ld (secret_id s)"
    have reg': "reg = (if IsSyncEnabled p (sec_Meta s) then fold ?add (sec_Data s) (sy_Registry st) else sy_Registry st)"
      using Some by (auto simp: Secret_Added_def sec r split: bind_splits if_splits)
    note eff = secret_adds_effect [OF reg, of p ld "secret_id s" "sec_Data s"]
    have "KnownCluster rc \<in> S" if rc: "gm_get (reg_clusters reg) c = Some rc" for c rc
    proof (cases "gm_get (reg_clusters (sy_Registry st)) c")
      case None
      then have "KnownCluster rc \<in> secret_facts p ld s" using eff rc by (fastforce simp: secret_facts_def reg' split: if_splits)
      then show ?thesis using assms(2) sec by (auto simp: as_object)
    next
      case (Some rc0)
      then have "rc = rc0" using eff rc by (auto simp: reg' split: if_splits)
      then show ?thesis using knows_cluster [OF assms(1) Some] by simp
    qed
    moreover have "reg_ok reg" using eff reg by (simp add: reg')
    ultimately show ?thesis by blast
  qed
  then show ?thesis using knows_registry [OF assms(1)] by (simp add: event_keeps_def on_registry_def Some r)
qed

lemma secret_drop_brings:
  assumes "knows p S st" "secret_drop_clusters s (sy_Registry st) = Some reg"
  shows "knows p S (st\<lparr>sy_Registry := reg\<rparr>)"
proof -
  obtain reg' where d: "secret_drop_clusters s (sy_Registry st) = Some reg'" "reg_ok reg'"
    "gm_get (reg_clusters reg') = (\<lambda>k. if k \<in> ToLower ` fst ` set (sec_Data s) then None else gm_get (reg_clusters (sy_Registry st)) k)"
    by (rule drop_clusters_effect [OF knows_oks(7) [OF assms(1)], of s]) blast
  then have "reg = reg'" using assms(2) by simp
  with d(2,3) show ?thesis using knows_cluster [OF assms(1)] by (auto intro!: knows_registry [OF assms(1)] split: if_splits)
qed

lemma secret_deleted_brings:
  "knows p S st \<Longrightarrow> event_keeps (knows p S) (on_registry (Secret_Deleted obj ch) (st, cs))"
  using secret_drop_brings
  by (auto simp: event_keeps_def on_registry_def Secret_Deleted_def split: option.split option.splits bind_splits)

lemma secret_updated_brings:
  assumes "knows p S st" "\<And>s. obj = Some (ObjSecret s) \<Longrightarrow> secret_facts p ld s \<subseteq> S"
  shows "event_keeps (knows p S) (on_registry (Secret_Updated p ld (as_Secret obj) old ch) (st, cs))"
proof (cases "Secret_Updated p ld (as_Secret obj) old ch (sy_Registry st, cs) = Secret_Added p ld (as_Secret obj) ch (sy_Registry st, cs)")
  case True
  then show ?thesis using secret_added_brings [OF assms] by (simp add: on_registry_def)
next
  case False
  then show ?thesis using assms(1) secret_drop_brings [OF assms(1)]
    by (auto simp: event_keeps_def on_registry_def Secret_Updated_def split: option.split option.splits bind_splits if_splits)
qed

text \<open>Any event of any controller.\<close>

lemma event_dispatch:
  assumes "dispatch (handler_delegator a u d) it (st, cs) = Some (st', cs')"
    and "it_eventType it = Add \<Longrightarrow> event_keeps Inv (a NewContextWithLogger (it_obj it) (Some (it_statusChan it)) (st, cs))"
    and "\<And>old. it_eventType it = Update \<Longrightarrow> event_keeps Inv (u NewContextWithLogger (it_obj it) old (Some (it_statusChan it)) (st, cs))"
    and "it_eventType it = Delete \<Longrightarrow> event_keeps Inv (d NewContextWithLogger (it_obj it) (Some (it_statusChan it)) (st, cs))"
  shows "Inv st'"
  using assms by (cases "it_eventType it")
    (fastforce simp: dispatch_def handler_delegator_def Let_def event_keeps_def split: option.splits prod.splits)+

lemma controller_brings:
  assumes knows: "knows (en_Params env) S st" and new: "brings (en_Params env) ld k it \<subseteq> S"
    and run: "dispatch (controller_delegator env ld k) it (st, cs) = Some (st', cs')"
  shows "knows (en_Params env) S st'"
proof (cases k)
  case TrafficConfigs
  note r = run [unfolded TrafficConfigs controller_delegator.simps traffic_config_delegator_def]
  show ?thesis by (rule event_dispatch [OF r])
    (use new TrafficConfigs in \<open>auto simp: brings_def intro!: TrafficConfig_brings [OF knows] origins.keeps_Updated [OF knows]\<close>)
next
  case Dependencies
  note r = run [unfolded Dependencies controller_delegator.simps dependency_delegator_def]
  show ?thesis by (rule event_dispatch [OF r])
    (use new Dependencies in \<open>auto simp: brings_def intro!: Dependency_brings [OF knows] Dependency_Deleted_brings [OF knows]\<close>)
next
  case Secrets
  note r = run [unfolded Secrets controller_delegator.simps secret_delegator_def]
  show ?thesis by (rule event_dispatch [OF r])
    (use new Secrets in \<open>auto simp: brings_def intro!: secret_added_brings [OF knows] secret_updated_brings [OF knows]
      secret_deleted_brings [OF knows]\<close>)
next
  case (DeploymentsOf c)
  note r = run [unfolded DeploymentsOf controller_delegator.simps deployment_delegator_def]
  show ?thesis by (rule event_dispatch [OF r])
    (use new DeploymentsOf in \<open>auto simp: brings_def intro!: Deployment_brings [OF knows] Deployment_Deleted_brings [OF knows]\<close>)
next
  case (RolloutsOf c)
  note r = run [unfolded RolloutsOf controller_delegator.simps rollout_delegator_def]
  show ?thesis by (rule event_dispatch [OF r])
    (use new RolloutsOf in \<open>auto simp: brings_def intro!: Rollout_brings [OF knows] Rollout_Deleted_brings [OF knows]\<close>)
next
  case (ServicesOf c)
  note r = run [unfolded ServicesOf controller_delegator.simps service_delegator_def]
  show ?thesis by (rule event_dispatch [OF r])
    (use new ServicesOf in \<open>auto simp: brings_def intro!: Service_brings [OF knows] Service_Deleted_brings [OF knows]\<close>)
qed

subsection \<open>Histories\<close>

text \<open>A run of the program with the events it has processed, in order.\<close>

inductive history ::
    "'w environment \<Rightarrow> ('cc, 'rest) loader \<Rightarrow> ('cc, 'w) system \<times> chans
       \<Rightarrow> (controller \<times> k8s_object option item) list \<Rightarrow> ('cc, 'w) system \<times> chans \<Rightarrow> bool"
  for env ld s0 where
  start: "history env ld s0 [] s0"
| informer: "history env ld s0 evs (st, cs) \<Longrightarrow> informer_item key ev (obj :: k8s_object option) old cs = (cs', it) \<Longrightarrow>
    history env ld s0 evs (st, cs')"
| process: "history env ld s0 evs (st, cs) \<Longrightarrow> fresh_chan (it_statusChan it) cs \<Longrightarrow>
    processItem (controller_delegator env ld k) it (st, cs) = Some (it', (st', cs'), effs) \<Longrightarrow>
    history env ld s0 (evs @ [(k, it)]) (st', cs')"
| lease: "history env ld s0 evs (st, cs) \<Longrightarrow> history env ld s0 evs (st\<lparr>sy_Lease := RunStateCheck checker (sy_Lease st)\<rparr>, cs)"
| outside: "history env ld s0 evs (st, cs) \<Longrightarrow> history env ld s0 evs (st\<lparr>sy_World := w\<rparr>, cs)"

lemma run_has_history: "program_run env ld s0 s \<Longrightarrow> \<exists>evs. history env ld s0 evs s"
  by (induction rule: rtranclp_induct) (auto elim!: program_step.cases intro: history.intros)

lemma history_is_run: "history env ld s0 evs s \<Longrightarrow> program_run env ld s0 s"
  by (induction rule: history.induct)
    (auto intro: rtranclp.rtrancl_into_rtrancl program_step.intros)

lemma knows_mono: "knows p S st \<Longrightarrow> S \<subseteq> S' \<Longrightarrow> knows p S' st"
  by (auto simp: knows_def)

lemma history_knows:
  assumes "history env ld s0 evs s" "system_ok (en_Params env) (fst s0)"
  shows "knows (en_Params env) ({f. holds (fst s0) f} \<union> (\<Union>(k, it) \<in> set evs. brings (en_Params env) ld k it)) (fst s)"
  using assms
proof (induction rule: history.induct)
  case start
  then show ?case by (simp add: knows_def)
next
  case (process evs st cs it k it' st' cs' effs)
  obtain cs1 where run: "dispatch (controller_delegator env ld k) it (st, cs) = Some (st', cs1)"
    by (rule processed_state [OF process(3)])
  have "knows (en_Params env) ({f. holds (fst s0) f} \<union> (\<Union>(k, it) \<in> set (evs @ [(k, it)]). brings (en_Params env) ld k it)) st"
    by (rule knows_mono, use process in simp) auto
  from controller_brings [OF this _ run] show ?case by auto
qed simp_all

lemma nothing_known_at_start:
  fixes pr :: "'cc process" and w :: 'w
  assumes "InitNaavik ev build ld p = Some pr"
  shows "\<not> holds (started pr w) f"
proof -
  have "reg_clusters (pr_Registry pr) = reg_clusters emptyRegistry"
    using assms by (auto simp: InitNaavik_def StartControllers_def NewTrafficConfigController_def NewDependencyController_def
        NewSecretController_def Let_def split: sum.splits prod.splits bind_splits if_splits)
  then show ?thesis
    by (cases f) (simp_all add: started_def initial_system_def Deployments_Reset_def Rollouts_Reset_def Services_Reset_def
      TCCache_Reset_def id_cluster.items_emp dep_graph.fwd.items_emp emptyRegistry_def RC_Reset_def gm_get_def)
qed

lemma known_origin:
  fixes pr :: "'cc process" and st :: "('cc, 'w) system"
  assumes "InitNaavik ev build ld (en_Params env) = Some pr" "history env ld (started pr w, []) evs (st, cs)" "holds st f"
  shows "\<exists>(k, it) \<in> set evs. f \<in> brings (en_Params env) ld k it"
proof -
  have "system_ok (en_Params env) (started pr w)" using started_inv [OF assms(1), of w] by (simp add: system_inv_def)
  moreover have "Collect (holds (started pr w)) = {}" by (simp add: nothing_known_at_start [OF assms(1)])
  ultimately have "knows (en_Params env) (\<Union>(k, it) \<in> set evs. brings (en_Params env) ld k it) st"
    using history_knows [OF assms(2)] by simp
  with assms(3) show ?thesis by (fastforce simp: knows_def)
qed

subsection \<open>Properties\<close>

text \<open>
  C9: whatever the caches hold in any state of a run of the program, a traffic config, a workload or a
  service of a cluster, a cluster of an identity, a dependency, or a remote cluster, was brought by an
  addition or update of that very object that the right controller has processed, and that its handler
  accepts: enabled traffic configs, workloads of the mesh that are not ignored, synced secrets.
\<close>

theorem knowledge_has_an_origin:
  fixes pr :: "'cc process" and st :: "('cc, 'w) system"
  assumes "InitNaavik ev build ld (en_Params env) = Some pr" "history env ld (started pr w, []) evs (st, cs)" "holds st f"
  shows "\<exists>(k, it) \<in> set evs. f \<in> brings (en_Params env) ld k it"
  by (rule known_origin [OF assms])

subsection \<open>Witnesses\<close>

lemma sample_processed_in:
  "processItem (controller_delegator sample_env sample_loader Dependencies) sample_event (st, sample_chans)
     = Some (sample_event, (st\<lparr>sy_IdentityDependency := add_destinations ''web'' [''Shop''] (sy_IdentityDependency st)\<rparr>,
         close_with 0 skip_status sample_chans), [QueueDone])"
proof -
  have c: "chan_open 0 sample_chans" by (simp add: chan_open_def sample_chans_def)
  have "Dependency_Added NewContextWithLogger (Some sample_dependency) (Some 0) (st, sample_chans)
      = Some (EventSkip, st\<lparr>sy_IdentityDependency := add_destinations ''web'' [''Shop''] (sy_IdentityDependency st)\<rparr>,
          close_with 0 skip_status sample_chans)"
    by (simp add: Dependency_Added_def sample_dependency_def finish_settles [OF c])
  then show ?thesis
    by (simp add: processItem_def dispatch_def dependency_delegator_def handler_delegator_def sample_event_def
        handleStatus_def close_with_def sample_chans_def status_step_def)
qed

theorem knowledge_has_an_origin_witness:
  "Calls ''web'' ''shop'' \<in> brings (en_Params sample_env) sample_loader Dependencies sample_event"
proof -
  obtain pr where pr: "InitNaavik sample_start (\<lambda>_. (Some (0::nat), None)) sample_loader (en_Params sample_env) = Some pr"
    using sample_started by blast
  let ?st = "started pr ([], []) :: (nat, server) system"
  have "informer_item (\<lambda>_. Some ''ns/web'') Add (Some sample_dependency) None [] = (sample_chans, Some sample_event)"
    by (simp add: informer_item_def make_chan_def sample_chans_def sample_event_def)
  from informer [OF start this] have "history sample_env sample_loader (?st, []) [] (?st, sample_chans)" .
  from process [OF this program_fresh sample_processed_in]
  have h: "history sample_env sample_loader (?st, []) [(Dependencies, sample_event)]
      (?st\<lparr>sy_IdentityDependency := add_destinations ''web'' [''Shop''] (sy_IdentityDependency ?st)\<rparr>, close_with 0 skip_status sample_chans)"
    by simp
  have "ToLower ''web'' = ''web''" "''shop'' \<in> set (GetDependenciesForIdentity (add_destinations ''web'' [''Shop''] IdentityDependency_Reset) ''web'')"
    by code_simp+
  then have "holds (?st\<lparr>sy_IdentityDependency := add_destinations ''web'' [''Shop''] (sy_IdentityDependency ?st)\<rparr>) (Calls ''web'' ''shop'')"
    by (auto simp: started_def initial_system_def intro!: exI [of _ "''web''"])
  from knowledge_has_an_origin [OF pr h this] show ?thesis by simp
qed

end
