(* ===== verification/Informers.thy ===== *)
theory Informers
  imports Origins
begin

text \<open>
  What the controllers watch: the informers of \<open>internal/controller\<close> with the options
  \<open>internal/bootstrap/controllers.go\<close> and \<open>StartRemoteClusterControllers\<close> start them with, and what follows
  for the events they deliver.

  An informer of client-go delivers the objects of its resource in its namespace (all, when that is empty)
  with the labels of its selector; with a positive resync period it also delivers every object it holds
  as an update from itself, from time to time.
\<close>

subsection \<open>The informers\<close>

datatype resource = Secret_res | Dependency_res | TrafficConfig_res | Service_res | Deployment_res | Rollout_res

record informer =
  if_Resource :: resource
  if_Namespace :: string
  if_LabelSelector :: string
  if_Resync :: int

text \<open>The fields of a controller its informer is made from.\<close>

record controller_fields =
  cf_namespace :: string
  cf_labelSelector :: string
  cf_resyncPeriod :: int

definition NamespaceAll :: string where "NamespaceAll = []"

text \<open>The list and watch functions of the first three drop the options the reflector passes.\<close>

definition Secret_GetInformer :: "controller_fields \<Rightarrow> informer" where
  "Secret_GetInformer s = \<lparr>if_Resource = Secret_res, if_Namespace = cf_namespace s, if_LabelSelector = cf_labelSelector s,
     if_Resync = cf_resyncPeriod s\<rparr>"

definition Service_GetInformer :: "controller_fields \<Rightarrow> informer" where
  "Service_GetInformer s = \<lparr>if_Resource = Service_res, if_Namespace = cf_namespace s, if_LabelSelector = cf_labelSelector s,
     if_Resync = cf_resyncPeriod s\<rparr>"

definition Deployment_GetInformer :: "controller_fields \<Rightarrow> informer" where
  "Deployment_GetInformer s = \<lparr>if_Resource = Deployment_res, if_Namespace = cf_namespace s, if_LabelSelector = cf_labelSelector s,
     if_Resync = cf_resyncPeriod s\<rparr>"

text \<open>The rollouts informer watches all namespaces; the last three have no selector.\<close>

definition Rollouts_GetInformer :: "controller_fields \<Rightarrow> informer" where
  "Rollouts_GetInformer rc = \<lparr>if_Resource = Rollout_res, if_Namespace = NamespaceAll, if_LabelSelector = [],
     if_Resync = cf_resyncPeriod rc\<rparr>"

definition Dependency_GetInformer :: "controller_fields \<Rightarrow> informer" where
  "Dependency_GetInformer dc = \<lparr>if_Resource = Dependency_res, if_Namespace = cf_namespace dc, if_LabelSelector = [],
     if_Resync = cf_resyncPeriod dc\<rparr>"

definition TrafficConfig_GetInformer :: "controller_fields \<Rightarrow> informer" where
  "TrafficConfig_GetInformer tcc = \<lparr>if_Resource = TrafficConfig_res, if_Namespace = cf_namespace tcc, if_LabelSelector = [],
     if_Resync = cf_resyncPeriod tcc\<rparr>"

text \<open>What the controllers are started with.\<close>

definition startSecretController :: "NaavikArgs \<Rightarrow> controller_fields" where
  "startSecretController p = \<lparr>cf_namespace = ClusterRegistriesNamespace p, cf_labelSelector = SecretSyncLabel p @ ''=true'',
     cf_resyncPeriod = CacheRefreshInterval p\<rparr>"

definition startWorkloadDependencyController :: "NaavikArgs \<Rightarrow> controller_fields" where
  "startWorkloadDependencyController p = \<lparr>cf_namespace = DependenciesNamespace p, cf_labelSelector = [],
     cf_resyncPeriod = CacheRefreshInterval p\<rparr>"

definition startTrafficConfigController :: "NaavikArgs \<Rightarrow> controller_fields" where
  "startTrafficConfigController p = \<lparr>cf_namespace = TrafficConfigNamespace p, cf_labelSelector = [], cf_resyncPeriod = 0\<rparr>"

definition remote_controller :: "NaavikArgs \<Rightarrow> controller_fields" where
  "remote_controller p = \<lparr>cf_namespace = NamespaceAll, cf_labelSelector = [], cf_resyncPeriod = CacheRefreshInterval p\<rparr>"

fun controller_informer :: "NaavikArgs \<Rightarrow> controller \<Rightarrow> informer" where
  "controller_informer p Secrets = Secret_GetInformer (startSecretController p)"
| "controller_informer p Dependencies = Dependency_GetInformer (startWorkloadDependencyController p)"
| "controller_informer p TrafficConfigs = TrafficConfig_GetInformer (startTrafficConfigController p)"
| "controller_informer p (ServicesOf c) = Service_GetInformer (remote_controller p)"
| "controller_informer p (DeploymentsOf c) = Deployment_GetInformer (remote_controller p)"
| "controller_informer p (RolloutsOf c) = Rollouts_GetInformer (remote_controller p)"

subsection \<open>The events they deliver\<close>

text \<open>A label selector of the forms used: empty, or one equation.\<close>

definition selects :: "string \<Rightarrow> labels option \<Rightarrow> bool" where
  "selects selector m \<longleftrightarrow> selector = []
     \<or> (let key = takeWhile (\<lambda>c. c \<noteq> CHR ''='') selector; val = tl (dropWhile (\<lambda>c. c \<noteq> CHR ''='') selector) in
        case m of None \<Rightarrow> False | Some ls \<Rightarrow> gm_get ls key = Some val)"

fun object_meta :: "k8s_object \<Rightarrow> ObjectMeta option" where
  "object_meta (ObjTrafficConfig tc) = Some (tc_Meta tc)"
| "object_meta (ObjDeployment w) = Some (wl_Meta w)"
| "object_meta (ObjRollout w) = Some (wl_Meta w)"
| "object_meta (ObjService s) = Some (svc_Meta s)"
| "object_meta (ObjSecret s) = Some (sec_Meta s)"
| "object_meta (ObjDependency d) = None"

fun object_resource :: "k8s_object \<Rightarrow> resource" where
  "object_resource (ObjTrafficConfig tc) = TrafficConfig_res"
| "object_resource (ObjDeployment w) = Deployment_res"
| "object_resource (ObjRollout w) = Rollout_res"
| "object_resource (ObjService s) = Service_res"
| "object_resource (ObjSecret s) = Secret_res"
| "object_resource (ObjDependency d) = Dependency_res"

definition watches :: "informer \<Rightarrow> k8s_object \<Rightarrow> bool" where
  "watches i obj \<longleftrightarrow> object_resource obj = if_Resource i
     \<and> (case object_meta obj of None \<Rightarrow> True
        | Some m \<Rightarrow> (if_Namespace i = NamespaceAll \<or> om_Namespace m = if_Namespace i) \<and> selects (if_LabelSelector i) (om_Labels m))"

text \<open>
  An event has objects the informer watches; only a deletion may come without one, when the informer
  missed it (the model of a tombstone, whose cast fails).
\<close>

definition delivers :: "informer \<Rightarrow> k8s_object option item \<Rightarrow> bool" where
  "delivers i it \<longleftrightarrow> (case it_obj it of None \<Rightarrow> it_eventType it = Delete | Some obj \<Rightarrow> watches i obj)
     \<and> (it_eventType it = Update \<longrightarrow> (\<exists>old. it_oldObj it = Some (Some old) \<and> watches i old))"

definition resync_event :: "informer \<Rightarrow> k8s_object option item \<Rightarrow> bool" where
  "resync_event i it \<longleftrightarrow> if_Resync i > 0 \<and> it_eventType it = Update \<and> it_oldObj it = Some (it_obj it)"

text \<open>The selector of the secret controller.\<close>

lemma selects_label:
  assumes "CHR ''='' \<notin> set k" "selects (k @ ''='' @ v) m"
  shows "\<exists>ls. m = Some ls \<and> gm_get ls k = Some v"
proof -
  have all: "\<forall>c \<in> set k. c \<noteq> CHR ''=''" using assms(1) by blast
  then have "takeWhile (\<lambda>c. c \<noteq> CHR ''='') (k @ ''='' @ v) = k" "dropWhile (\<lambda>c. c \<noteq> CHR ''='') (k @ ''='' @ v) = ''='' @ v"
    by (simp_all add: takeWhile_append2 dropWhile_append2)
  then show ?thesis using assms(2) by (simp add: selects_def split: option.splits)
qed

lemma watched_secret:
  assumes "CHR ''='' \<notin> set (SecretSyncLabel p)" "watches (controller_informer p Secrets) obj"
  obtains s ls where "obj = ObjSecret s" "ClusterRegistriesNamespace p = [] \<or> om_Namespace (sec_Meta s) = ClusterRegistriesNamespace p"
    "om_Labels (sec_Meta s) = Some ls" "gm_get ls (SecretSyncLabel p) = Some ''true''"
proof -
  obtain s where s: "obj = ObjSecret s"
    using assms(2) by (cases obj) (auto simp: watches_def Secret_GetInformer_def)
  have "selects (SecretSyncLabel p @ ''='' @ ''true'') (om_Labels (sec_Meta s))"
    "ClusterRegistriesNamespace p = [] \<or> om_Namespace (sec_Meta s) = ClusterRegistriesNamespace p"
    using assms(2) by (auto simp: s watches_def Secret_GetInformer_def startSecretController_def NamespaceAll_def)
  with selects_label [OF assms(1)] s that show ?thesis by blast
qed

lemma watched_secret_synced:
  assumes "CHR ''='' \<notin> set (SecretSyncLabel p)" "watches (controller_informer p Secrets) (ObjSecret s)"
  shows "IsSyncEnabled p (sec_Meta s)"
proof -
  have low: "ToLower ''true'' = IsTrue" by code_simp
  obtain ls where "om_Labels (sec_Meta s) = Some ls" "gm_get ls (SecretSyncLabel p) = Some ''true''"
    using watched_secret [OF assms] by auto
  with low show ?thesis by (simp add: IsSyncEnabled_def flag_on_def gm_str_def)
qed

text \<open>Which events bring a cluster, and which a traffic config.\<close>

lemma brings_KnownCluster:
  "KnownCluster rc \<in> brings p ld k it \<Longrightarrow> \<exists>s. k = Secrets \<and> it_obj it = Some (ObjSecret s) \<and> KnownCluster rc \<in> secret_facts p ld s"
  by (cases k) (auto simp: brings_def workload_facts_def Let_def split: if_splits option.splits k8s_object.splits)

lemma brings_CachedConfig:
  "CachedConfig tc \<in> brings p ld k it \<Longrightarrow> k = TrafficConfigs \<and> it_obj it = Some (ObjTrafficConfig tc)
     \<and> \<not> TC_IsDisabled tc \<and> \<not> TC_IsIgnored p tc"
  by (cases k) (auto simp: brings_def workload_facts_def secret_facts_def Let_def split: if_splits option.splits k8s_object.splits)

subsection \<open>Resyncs\<close>

definition untouched :: "('cc, 'w) system \<Rightarrow> ('cc, 'w) system \<Rightarrow> bool" where
  "untouched st st' \<longleftrightarrow> sy_World st' = sy_World st \<and> sy_TrafficConfigs st' = sy_TrafficConfigs st"

text \<open>A dependency record has no new destination against itself.\<close>

lemma no_new_destinations: "new_destinations ds ds = []"
proof -
  have get: "gm_get (fold gm_del xs m) k = (if k \<in> set xs then None else gm_get m k)"
    for xs k and m :: "(string, unit) gomap" by (induction xs arbitrary: m) auto
  have put: "gm_get (fold (\<lambda>d. gm_put d ()) xs m) k = (if k \<in> set xs then Some () else gm_get m k)"
    for xs k and m :: "(string, unit) gomap" by (induction xs arbitrary: m) auto
  have "gm_get (new_destinations ds ds) k = None" for k
    by (simp add: new_destinations_def get put)
  then show ?thesis by (metis gm_get_Cons neq_Nil_conv option.distinct(1) surj_pair)
qed

lemma resync_untouched:
  "event_keeps (untouched st) (Deployment_Updated env c ctx obj old ch (st, cs))"
  "event_keeps (untouched st) (Rollout_Updated env c ctx obj old ch (st, cs))"
  "event_keeps (untouched st) (Service_Updated c ctx obj old ch (st, cs))"
  "event_keeps (untouched st) (Dependency_Updated env ctx obj obj ch (st, cs))"
  by (auto simp: Deployment_Updated_def Rollout_Updated_def Service_Updated_def Dependency_Updated_def no_new_destinations
      Let_def untouched_def intro!: keeps_intros split: option.split)

lemma registry_untouched: "event_keeps (untouched st) (on_registry f (st, cs))"
  by (auto simp: event_keeps_def on_registry_def untouched_def split: option.split)

lemma resync_dispatch:
  assumes "dispatch (handler_delegator a u d) it (st, cs) = Some (st', cs')" "resync_event i it"
    and "event_keeps Inv (u NewContextWithLogger (it_obj it) (it_obj it) (Some (it_statusChan it)) (st, cs))"
  shows "Inv st'"
  using assms by (fastforce simp: resync_event_def dispatch_def handler_delegator_def Let_def event_keeps_def split: option.splits)

subsection \<open>Properties\<close>

text \<open>
  C10: when the informers deliver what they watch, every remote cluster the program knows in a run comes
  from a secret in the namespace of the cluster registries whose sync label is \<open>true\<close>, with one of its
  kubeconfigs, and every cached traffic config from the namespace of traffic configs, enabled and not
  ignored.
\<close>

theorem known_objects_are_watched:
  fixes pr :: "'cc process" and st :: "('cc, 'w) system"
  assumes "InitNaavik ev build ld (en_Params env) = Some pr" "history env ld (started pr w, []) evs (st, cs)"
    and del: "\<forall>(k, it) \<in> set evs. delivers (controller_informer (en_Params env) k) it"
    and label: "CHR ''='' \<notin> set (SecretSyncLabel (en_Params env))"
  shows "(\<forall>rc. holds st (KnownCluster rc) \<longrightarrow> (\<exists>it s c v ls. (Secrets, it) \<in> set evs \<and> it_obj it = Some (ObjSecret s)
        \<and> (ClusterRegistriesNamespace (en_Params env) = [] \<or> om_Namespace (sec_Meta s) = ClusterRegistriesNamespace (en_Params env))
        \<and> om_Labels (sec_Meta s) = Some ls \<and> gm_get ls (SecretSyncLabel (en_Params env)) = Some ''true''
        \<and> (c, v) \<in> set (sec_Data s) \<and> ResolveConfig ld c (secret_id s) v = Inr rc))
    \<and> (\<forall>tc. holds st (CachedConfig tc) \<longrightarrow>
        (TrafficConfigNamespace (en_Params env) = [] \<or> om_Namespace (tc_Meta tc) = TrafficConfigNamespace (en_Params env))
        \<and> \<not> TC_IsDisabled tc \<and> \<not> TC_IsIgnored (en_Params env) tc)"
proof (intro conjI allI impI)
  fix rc
  assume "holds st (KnownCluster rc)"
  then obtain k it where e: "(k, it) \<in> set evs" "KnownCluster rc \<in> brings (en_Params env) ld k it"
    using known_origin [OF assms(1,2)] by blast
  then obtain s c v where s: "k = Secrets" "it_obj it = Some (ObjSecret s)" "(c, v) \<in> set (sec_Data s)"
    "ResolveConfig ld c (secret_id s) v = Inr rc"
    using brings_KnownCluster by (fastforce simp: secret_facts_def split: if_splits)
  have "watches (controller_informer (en_Params env) Secrets) (ObjSecret s)" using del e(1) s(1,2) by (fastforce simp: delivers_def)
  then obtain ls where "ClusterRegistriesNamespace (en_Params env) = [] \<or> om_Namespace (sec_Meta s) = ClusterRegistriesNamespace (en_Params env)"
    "om_Labels (sec_Meta s) = Some ls" "gm_get ls (SecretSyncLabel (en_Params env)) = Some ''true''"
    using watched_secret [OF label] by (metis k8s_object.inject(6))
  with e(1) s show "\<exists>it s c v ls. (Secrets, it) \<in> set evs \<and> it_obj it = Some (ObjSecret s)
        \<and> (ClusterRegistriesNamespace (en_Params env) = [] \<or> om_Namespace (sec_Meta s) = ClusterRegistriesNamespace (en_Params env))
        \<and> om_Labels (sec_Meta s) = Some ls \<and> gm_get ls (SecretSyncLabel (en_Params env)) = Some ''true''
        \<and> (c, v) \<in> set (sec_Data s) \<and> ResolveConfig ld c (secret_id s) v = Inr rc" by blast
next
  fix tc
  assume "holds st (CachedConfig tc)"
  then obtain k it where e: "(k, it) \<in> set evs" "CachedConfig tc \<in> brings (en_Params env) ld k it"
    using known_origin [OF assms(1,2)] by blast
  then have tc: "k = TrafficConfigs" "it_obj it = Some (ObjTrafficConfig tc)" "\<not> TC_IsDisabled tc" "\<not> TC_IsIgnored (en_Params env) tc"
    using brings_CachedConfig by blast+
  then have "watches (controller_informer (en_Params env) TrafficConfigs) (ObjTrafficConfig tc)"
    using del e(1) by (fastforce simp: delivers_def)
  then show "TrafficConfigNamespace (en_Params env) = [] \<or> om_Namespace (tc_Meta tc) = TrafficConfigNamespace (en_Params env)"
    by (auto simp: watches_def TrafficConfig_GetInformer_def startTrafficConfigController_def NamespaceAll_def)
  show "\<not> TC_IsDisabled tc" "\<not> TC_IsIgnored (en_Params env) tc" by (rule tc(3), rule tc(4))
qed

text \<open>
  C13: a resync repairs nothing: the controllers whose informers resync deliver each object as an update
  from itself, and such an event writes nothing to the API servers and leaves the cached traffic configs
  alone; traffic configs are not resynced at all.  So what was held back at start-up, or failed, is tried
  again only when something changes.
\<close>

theorem resyncs_write_nothing:
  assumes "resync_event (controller_informer p k) it"
    and "processItem (controller_delegator env ld k) it (st, cs) = Some (it', (st', cs'), effs)"
  shows "sy_World st' = sy_World st \<and> sy_TrafficConfigs st' = sy_TrafficConfigs st"
proof -
  obtain cs1 where run: "dispatch (controller_delegator env ld k) it (st, cs) = Some (st', cs1)"
    by (rule processed_state [OF assms(2)])
  note wired = controller_delegator.simps secret_delegator_def dependency_delegator_def deployment_delegator_def
    rollout_delegator_def service_delegator_def
  have "untouched st st'"
  proof (cases k)
    case TrafficConfigs
    with assms(1) show ?thesis by (simp add: resync_event_def TrafficConfig_GetInformer_def startTrafficConfigController_def)
  next
    case Dependencies
    show ?thesis by (rule resync_dispatch [OF run [unfolded Dependencies wired] assms(1) resync_untouched(4)])
  next
    case Secrets
    show ?thesis by (rule resync_dispatch [OF run [unfolded Secrets wired] assms(1) registry_untouched])
  next
    case (DeploymentsOf c)
    show ?thesis by (rule resync_dispatch [OF run [unfolded DeploymentsOf wired] assms(1) resync_untouched(1)])
  next
    case (RolloutsOf c)
    show ?thesis by (rule resync_dispatch [OF run [unfolded RolloutsOf wired] assms(1) resync_untouched(2)])
  next
    case (ServicesOf c)
    show ?thesis by (rule resync_dispatch [OF run [unfolded ServicesOf wired] assms(1) resync_untouched(3)])
  qed
  then show ?thesis by (simp add: untouched_def)
qed

text \<open>
  The branch of the secret handler that stops the clusters of a secret whose sync was switched off is
  never taken: the informer selects synced secrets only, so both secrets of an update are synced and the
  update is handled as an addition; switching off the label arrives as a deletion.
\<close>

theorem sync_switched_off_is_no_update:
  assumes "delivers (controller_informer p Secrets) it" "it_eventType it = Update" "CHR ''='' \<notin> set (SecretSyncLabel p)"
  shows "Secret_Updated p ld (as_Secret (it_obj it)) (as_Secret (Option.bind (it_oldObj it) id)) ch s
    = Secret_Added p ld (as_Secret (it_obj it)) ch s"
proof -
  obtain obj old where w: "it_obj it = Some obj" "watches (controller_informer p Secrets) obj"
    "it_oldObj it = Some (Some old)" "watches (controller_informer p Secrets) old"
    using assms(1,2) by (auto simp: delivers_def split: option.splits)
  then obtain a b where "obj = ObjSecret a" "old = ObjSecret b" using watched_secret [OF assms(3)] by metis
  then show ?thesis using w watched_secret_synced [OF assms(3)] by (cases s) (simp add: Secret_Updated_def)
qed

subsection \<open>Witnesses\<close>

text \<open>The event of a synced secret with one kubeconfig, in any state.\<close>

definition registry_secret :: Secret where
  "registry_secret = \<lparr>sec_Meta = \<lparr>om_Name = ''s'', om_Namespace = ''admiral'',
       om_Labels = Some [(''admiral.io/sync'', ''true'')], om_Annotations = None\<rparr>, sec_Data = [(''C1'', ''kc'')]\<rparr>"

definition secret_event :: "EventType \<Rightarrow> k8s_object option item" where
  "secret_event ev = \<lparr>it_key = ''admiral/s'', it_eventType = ev, it_obj = Some (ObjSecret registry_secret),
     it_oldObj = Some (Some (ObjSecret registry_secret)), it_retryCount = 0, it_statusChan = 0, it_onStatusOverride = None\<rparr>"

lemma sample_label: "CHR ''='' \<notin> set (SecretSyncLabel (en_Params sample_env))"
  unfolding sample_env_def environment.simps by code_simp

lemma secret_event_delivered: "delivers (controller_informer (en_Params sample_env) Secrets) (secret_event ev)"
proof -
  have "watches (controller_informer (en_Params sample_env) Secrets) (ObjSecret registry_secret)"
    unfolding sample_env_def environment.simps by code_simp
  then show ?thesis by (simp add: delivers_def secret_event_def)
qed

lemma secret_event_processed:
  "processItem (controller_delegator sample_env sample_loader Secrets) (secret_event Add) (st, sample_chans)
     = Some (secret_event Add, (st\<lparr>sy_Registry := secret_add_cluster (en_Params sample_env) sample_loader ''admiral/s''
         (''C1'', ''kc'') (sy_Registry st)\<rparr>, close_with 0 skip_status sample_chans), [QueueDone])"
proof -
  have c: "chan_open 0 sample_chans" by (simp add: chan_open_def sample_chans_def)
  have "IsSyncEnabled (en_Params sample_env) (sec_Meta registry_secret)" "secret_id registry_secret = ''admiral/s''"
    "sec_Data registry_secret = [(''C1'', ''kc'')]"
    unfolding sample_env_def environment.simps by code_simp+
  then have "Secret_Added (en_Params sample_env) sample_loader (Some registry_secret) (Some 0) (sy_Registry st, sample_chans)
      = Some (EventSkip, secret_add_cluster (en_Params sample_env) sample_loader ''admiral/s'' (''C1'', ''kc'') (sy_Registry st),
          close_with 0 skip_status sample_chans)"
    by (simp add: Secret_Added_def skip_settles [OF c])
  then show ?thesis
    by (simp add: processItem_def dispatch_def secret_delegator_def handler_delegator_def on_registry_def secret_event_def
        handleStatus_def close_with_def sample_chans_def status_step_def)
qed

theorem known_objects_are_watched_witness:
  "\<exists>(st :: (nat, server) system) rc s. holds st (KnownCluster rc) \<and> om_Namespace (sec_Meta s) = ''admiral''
     \<and> (\<exists>c v. (c, v) \<in> set (sec_Data s) \<and> ResolveConfig sample_loader c (secret_id s) v = Inr rc)"
proof -
  obtain pr where pr: "InitNaavik sample_start (\<lambda>_. (Some (0::nat), None)) sample_loader (en_Params sample_env) = Some pr"
    using sample_started by blast
  let ?st = "started pr ([], []) :: (nat, server) system"
  let ?reg = "secret_add_cluster (en_Params sample_env) sample_loader ''admiral/s'' (''C1'', ''kc'') (sy_Registry ?st)"
  have "informer_item (\<lambda>_. Some ''admiral/s'') Add (Some (ObjSecret registry_secret)) (Some (Some (ObjSecret registry_secret))) []
      = (sample_chans, Some (secret_event Add))"
    by (simp add: informer_item_def make_chan_def sample_chans_def secret_event_def)
  from informer [OF start this] have "history sample_env sample_loader (?st, []) [] (?st, sample_chans)" .
  from process [OF this _ secret_event_processed]
  have h: "history sample_env sample_loader (?st, []) [(Secrets, secret_event Add)]
      (?st\<lparr>sy_Registry := ?reg\<rparr>, close_with 0 skip_status sample_chans)"
    by (simp add: secret_event_def fresh_chan_def chan_open_def sample_chans_def)
  have "gm_get (reg_clusters (sy_Registry ?st)) (ToLower ''C1'') = None"
    using nothing_known_at_start [OF pr, of "([], []) :: server" "KnownCluster rc" for rc] by (cases "gm_get (reg_clusters (sy_Registry ?st)) (ToLower ''C1'')") auto
  moreover obtain rc where "ResolveConfig sample_loader ''C1'' ''admiral/s'' ''kc'' = Inr rc"
    by (cases "ResolveConfig sample_loader ''C1'' ''admiral/s'' ''kc''") (auto simp: ResolveConfig_def sample_loader_def)
  ultimately have "gm_get (reg_clusters ?reg) (ToLower ''C1'') = Some rc" by (simp add: secret_add_cluster_get)
  then have known: "holds (?st\<lparr>sy_Registry := ?reg\<rparr>) (KnownCluster rc)" by auto
  have ns: "ClusterRegistriesNamespace (en_Params sample_env) = ''admiral''"
    unfolding sample_env_def environment.simps by code_simp
  have del: "\<forall>(k, it) \<in> set [(Secrets, secret_event Add)]. delivers (controller_informer (en_Params sample_env) k) it"
    by (simp only: list.set ball_simps prod.case secret_event_delivered)
  note origin = known_objects_are_watched [OF pr h del sample_label, THEN conjunct1, rule_format, OF known]
  then obtain s c v where "ClusterRegistriesNamespace (en_Params sample_env) = []
      \<or> om_Namespace (sec_Meta s) = ClusterRegistriesNamespace (en_Params sample_env)" "(c, v) \<in> set (sec_Data s)"
    "ResolveConfig sample_loader c (secret_id s) v = Inr rc" by blast
  then have "om_Namespace (sec_Meta s) = ''admiral''" "(c, v) \<in> set (sec_Data s)"
    "ResolveConfig sample_loader c (secret_id s) v = Inr rc" by (simp_all add: ns)
  with known show ?thesis by blast
qed

text \<open>A resync of a service.\<close>

definition sample_service :: Service where
  "sample_service = \<lparr>svc_Meta = \<lparr>om_Name = ''web'', om_Namespace = ''shop'', om_Labels = None, om_Annotations = None\<rparr>\<rparr>"

definition service_event :: "k8s_object option item" where
  "service_event = (let s = sample_service in \<lparr>it_key = ''ns/svc'', it_eventType = Update, it_obj = Some (ObjService s), it_oldObj = Some (Some (ObjService s)),
     it_retryCount = 0, it_statusChan = 0, it_onStatusOverride = None\<rparr>)"

theorem resyncs_write_nothing_witness:
  "\<exists>it' st' cs' effs. processItem (controller_delegator sample_env sample_loader (ServicesOf ''c1'')) service_event
       (initial_system ([], []) :: (nat, server) system, sample_chans) = Some (it', (st', cs'), effs) \<and> sy_World st' = ([], [])"
proof -
  let ?st = "initial_system ([], []) :: (nat, server) system"
  have c: "chan_open 0 sample_chans" by (simp add: chan_open_def sample_chans_def)
  have re: "resync_event (controller_informer (en_Params sample_env) (ServicesOf ''c1'')) service_event"
  proof -
    have "CacheRefreshInterval (en_Params sample_env) > 0" unfolding sample_env_def environment.simps by code_simp
    then show ?thesis by (simp add: resync_event_def Service_GetInformer_def remote_controller_def service_event_def Let_def)
  qed
  have "Service_Updated ''c1'' NewContextWithLogger (Some (ObjService sample_service)) (Some (ObjService sample_service)) (Some 0)
      (?st, sample_chans)
      = Some (EventSkip, ?st\<lparr>sy_Services := Services_Add ''c1'' sample_service (sy_Services ?st)\<rparr>, close_with 0 skip_status sample_chans)"
    by (simp add: Service_Updated_def finish_settles [OF c])
  then have run: "processItem (controller_delegator sample_env sample_loader (ServicesOf ''c1'')) service_event (?st, sample_chans)
      = Some (service_event, (?st\<lparr>sy_Services := Services_Add ''c1'' sample_service (sy_Services ?st)\<rparr>,
          close_with 0 skip_status sample_chans), [QueueDone])"
    by (simp add: processItem_def dispatch_def service_delegator_def handler_delegator_def service_event_def Let_def
        handleStatus_def close_with_def sample_chans_def status_step_def)
  from resyncs_write_nothing [OF re run] run show ?thesis by (simp add: initial_system_def)
qed

theorem sync_switched_off_is_no_update_witness:
  "Secret_Updated (en_Params sample_env) sample_loader (Some registry_secret) (Some registry_secret) None (emptyRegistry, [])
    = Secret_Added (en_Params sample_env) sample_loader (Some registry_secret) None (emptyRegistry, [])"
  using sync_switched_off_is_no_update [OF secret_event_delivered _ sample_label, of Update] by (simp add: secret_event_def)

end
