(* ===== verification/WarmUp.thy ===== *)
theory WarmUp
  imports WorkloadEvents
begin

text \<open>
  What becomes of a traffic config that arrives while the program may not write: it waits in the cache
  until an event of its identity triggers it.
\<close>

lemma put_single: "gm_put k v [] = [(k, v)]"
  by (simp add: gm_put_def)

lemma copy_single: "copy_map f [(k, v)] = [(k, f v)]"
  by (simp add: copy_map_def put_single)

lemma first_config_entry:
  assumes "TCCache_GetTrafficConfigEntry s i = None" "ToLower i = TC_GetIdentityLowerCase p tc" "TC_GetEnv tc \<noteq> []"
  shows "map_option tce_EnvTrafficConfig (TCCache_GetTrafficConfigEntry (AddTrafficConfigToCache p tc s) i)
     = Some [(TC_EnvLowerCase tc, tc)]"
proof -
  have "gm_get s (ToLower i) = None" using assms(1) by (simp add: TCCache_GetTrafficConfigEntry_def split: option.splits)
  moreover have "TC_EnvLowerCase tc \<noteq> []" using assms(3) by (simp add: TC_EnvLowerCase_def)
  ultimately show ?thesis using assms(2)
    by (simp add: AddTrafficConfigToCache_def Let_def TCCache_GetTrafficConfigEntry_def TrafficConfigEntry_Copy_def copy_single put_single)
qed

lemma held_back_added:
  assumes "IsReadOnly (sy_Lease st) \<or> \<not> cache_warm env st" "\<not> TC_IsDisabled tc" "\<not> TC_IsIgnored (en_Params env) tc"
    "ctx_Log ctx" "chan_open c cs"
  shows "TrafficConfig_Added env ctx (Some (ObjTrafficConfig tc)) (Some c) (st, cs) =
    Some (EventSkip, st\<lparr>sy_TrafficConfigs := AddTrafficConfigToCache (en_Params env) tc (sy_TrafficConfigs st)\<rparr>,
      close_with c skip_status cs)"
  using assms by (auto simp: TrafficConfig_Added_def process_traffic_config_def finish_settles cache_warm_def)

text \<open>Triggering an identity with one cached config, whose dependents have none.\<close>

lemma trigger_only_config:
  assumes laws: "ef_laws (en_Api env) efs" "ef_read_laws (en_Api env) efs" "vs_laws (en_Api env) vss" "kinds_apart (en_Api env) efs vss"
    and program: "system_ok (en_Params env) st" "may_write env st" "ctx_Log ctx" "chan_open c cs"
    and tc: "TC_GetEnv tc \<noteq> []" "\<not> TC_IsDisabled tc" "\<not> TC_IsIgnored (en_Params env) tc"
      "tc_EdgeService tc = Some es" "es_Routes es \<noteq> []" "tc_QuotaGroup tc = Some qg"
    and scope: "\<forall>c. cluster_scope env c \<noteq> None" and marshal: "en_Marshal env = (\<lambda>m. Some (marshal m))"
    and ready: "\<forall>c \<in> rate_limit_targets env st tc. filters_ready env st tc (efs (sy_World st)) c"
    and entry: "map_option tce_EnvTrafficConfig (TCCache_GetTrafficConfigEntry (sy_TrafficConfigs st) i) = Some [(e, tc)]"
    and none: "\<forall>d \<in> set (GetDependentsForIdentity (sy_IdentityDependency st) i).
      TCCache_GetTrafficConfigEntry (sy_TrafficConfigs st) d = None"
  obtains st' cs' where "TriggerTrafficConfigHandlerForIdentity env ctx i (Some c) (st, cs) = Some (st', cs')"
    "config_in_place env tc efs vss st st'" "spawned c cs cs'"
proof -
  obtain cs1 child where child:
    "CreateChildEvent NewEventProcessStatus ctx (Some TrafficConfig_OnStatus) (Some c) cs = Some (NewContextWithLogger, Some child, cs1)"
    "chan_open child cs1" "spawned c cs (close_with child skip_status cs1)"
    by (rule spawned_child [OF program(4,3)])
  have log: "ctx_Log NewContextWithLogger" and update: "Update \<noteq> Delete" by (simp_all add: NewContextWithLogger_def)
  obtain st' where st': "process_traffic_config env NewContextWithLogger tc Update (Some child) (st, cs1)
      = Some (EventSkip, st', close_with child skip_status cs1)" "only_world st st'" "config_in_place env tc efs vss st st'"
    by (rule process_writes [OF laws program(1,2) log child(2) tc(1,2,4-6) scope marshal ready update])
  let ?cs = "close_with child skip_status cs1"
  have "trigger_traffic_config env ctx None (Some c) tc (st, cs) = Some (st', ?cs)"
    using st'(1) tc(2,3) by (simp add: trigger_traffic_config_def child(1) TrafficConfig_Updated_def)
  then have self: "trigger_entry env ctx None (Some c) i (st, cs) = Some (st', ?cs)"
    using entry by (auto simp: trigger_entry_def)
  have same: "sy_TrafficConfigs st' = sy_TrafficConfigs st" "sy_IdentityDependency st' = sy_IdentityDependency st"
    using cache_world [OF st'(2)] only_world_dependency [OF st'(2)] by simp_all
  have "foreach (trigger_entry env ctx (Some i) (Some c)) ds (st', ?cs) = Some (st', ?cs)"
    if "\<forall>d \<in> set ds. TCCache_GetTrafficConfigEntry (sy_TrafficConfigs st) d = None" for ds
    using that by (induction ds) (simp_all add: trigger_entry_none same)
  then have "TriggerTrafficConfigHandlerForIdentity env ctx i (Some c) (st, cs) = Some (st', ?cs)"
    using program(3) none by (simp add: TriggerTrafficConfigHandlerForIdentity_def self same)
  then show ?thesis using st'(3) child(3) by (rule that)
qed

subsection \<open>Properties\<close>



subsection \<open>Witnesses\<close>

text \<open>The config of \<open>Shop\<close> arrives in a read-only program; its deployment appears once the program may write.\<close>

definition waiting_system :: "(unit, server) system" where
  "waiting_system = (event_system ([], []))\<lparr>sy_Deployments := Deployments_Reset\<rparr>"

definition read_only_system :: "(unit, server) system" where
  "read_only_system = waiting_system\<lparr>sy_TrafficConfigs := TCCache_Reset, sy_Lease := initialLeaseState\<rparr>"

lemma waiting_then_added:
  "event_system ([], []) = waiting_system\<lparr>sy_IdentityCluster := AddClusterToIdentity ''Shop'' ''c1'' (sy_IdentityCluster waiting_system),
     sy_Deployments := Deployments_Add (en_Params sample_env) ''c1'' shop_workload (sy_Deployments waiting_system)\<rparr>"
proof -
  have again: "AddClusterToIdentity ''Shop'' ''c1'' (AddClusterToIdentity ''web'' ''c1'' (AddClusterToIdentity ''Shop'' ''c1'' IdentityCluster_Reset))
      = AddClusterToIdentity ''web'' ''c1'' (AddClusterToIdentity ''Shop'' ''c1'' IdentityCluster_Reset)" by code_simp
  show ?thesis by (simp only: waiting_system_def event_params) (simp add: event_system_def rate_system_def again)
qed

lemma shop_workload_fields:
  "\<not> IsResourceIgnored (en_Params sample_env) (wl_Template shop_workload)" "IsResourceMeshEnabled (en_Params sample_env) (wl_Template shop_workload)"
  "GetWorkloadIdentifier (en_Params sample_env) (wl_Template shop_workload) = ''Shop''"
  "ToLower ''Shop'' = TC_GetIdentityLowerCase (en_Params sample_env) rate_tc"
  unfolding event_params by code_simp+


end
