(* ===== verification/FakeHandlers.thy ===== *)
theory FakeHandlers
  imports ControllerQueue "HOL-Library.Word"
begin

text \<open>
  The handler and the controller that stand in for the real ones, \<open>internal/fake/handler/fake_handler.go\<close>
  and \<open>internal/fake/controller/fake_mock_controller.go\<close>: a handler that counts its calls and answers
  with a status it was given, or with a child event, and a controller that passes its events on.

  Sleeping takes time and does nothing else.  The callback of a child event is a reference, as in
  EventStatus; the counters are 64-bit integers.
\<close>

definition NewEventProcessStatusWithStatus :: "EventProcessStatus \<Rightarrow> EventProcessStatus" where
  "NewEventProcessStatusWithStatus eventStatus = eventStatus"

record FakeHandler =
  fh_clusterID :: string
  fh_sleep :: int
  fh_eventStatus :: "EventProcessStatus option"
  fh_childEvent :: bool
  fh_childOnStatus :: "nat option"
  fh_AddCalled :: "64 word"
  fh_UpdateCalled :: "64 word"
  fh_DeleteCalled :: "64 word"
  fh_OnStatusCalled :: "64 word"

definition NewFakeNoOpHandler :: "string \<Rightarrow> int \<Rightarrow> FakeHandler" where
  "NewFakeNoOpHandler clusterID sleep =
     \<lparr>fh_clusterID = clusterID, fh_sleep = sleep, fh_eventStatus = None, fh_childEvent = False, fh_childOnStatus = None,
      fh_AddCalled = 0, fh_UpdateCalled = 0, fh_DeleteCalled = 0, fh_OnStatusCalled = 0\<rparr>"

definition NewFakeNoOpHandlerWithStatus :: "string \<Rightarrow> EventProcessStatus option \<Rightarrow> FakeHandler" where
  "NewFakeNoOpHandlerWithStatus clusterID eventStatus =
     \<lparr>fh_clusterID = clusterID, fh_sleep = 0, fh_eventStatus = eventStatus, fh_childEvent = False, fh_childOnStatus = None,
      fh_AddCalled = 0, fh_UpdateCalled = 0, fh_DeleteCalled = 0, fh_OnStatusCalled = 0\<rparr>"

definition NewFakeNoOpHandlerWithChildEvent :: "string \<Rightarrow> nat option \<Rightarrow> FakeHandler" where
  "NewFakeNoOpHandlerWithChildEvent clusterID childOnStatus =
     \<lparr>fh_clusterID = clusterID, fh_sleep = 0, fh_eventStatus = None, fh_childEvent = True, fh_childOnStatus = childOnStatus,
      fh_AddCalled = 0, fh_UpdateCalled = 0, fh_DeleteCalled = 0, fh_OnStatusCalled = 0\<rparr>"

text \<open>What the three events do after they are counted.\<close>

definition fake_event ::
    "FakeHandler \<Rightarrow> context_t \<Rightarrow> nat option \<Rightarrow> chans \<Rightarrow> (EventStatus \<times> chans) option" where
  "fake_event d ctx statusChan cs =
     (case fh_eventStatus d of
        Some eventStatus \<Rightarrow> SendClose (NewEventProcessStatusWithStatus eventStatus) statusChan cs
      | None \<Rightarrow> do {
          cs1 \<leftarrow> (if fh_childEvent d then do {
              (_, childStatusChan, cs1) \<leftarrow> CreateChildEvent NewEventProcessStatus ctx (fh_childOnStatus d) statusChan cs;
              (_, cs2) \<leftarrow> SendClose NewEventProcessStatus childStatusChan cs1;
              Some cs2
            } else Some cs);
          SendClose NewEventProcessStatus statusChan cs1
        })"

definition Fake_Added ::
    "context_t \<Rightarrow> nat option \<Rightarrow> FakeHandler \<times> chans \<Rightarrow> (EventStatus \<times> FakeHandler \<times> chans) option" where
  "Fake_Added ctx statusChan = (\<lambda>(d, cs). do {
     let d' = d\<lparr>fh_AddCalled := fh_AddCalled d + 1\<rparr>;
     (status, cs') \<leftarrow> fake_event d' ctx statusChan cs;
     Some (status, d', cs')
   })"

definition Fake_Updated ::
    "context_t \<Rightarrow> nat option \<Rightarrow> FakeHandler \<times> chans \<Rightarrow> (EventStatus \<times> FakeHandler \<times> chans) option" where
  "Fake_Updated ctx statusChan = (\<lambda>(d, cs). do {
     let d' = d\<lparr>fh_UpdateCalled := fh_UpdateCalled d + 1\<rparr>;
     (status, cs') \<leftarrow> fake_event d' ctx statusChan cs;
     Some (status, d', cs')
   })"

definition Fake_Deleted ::
    "context_t \<Rightarrow> nat option \<Rightarrow> FakeHandler \<times> chans \<Rightarrow> (EventStatus \<times> FakeHandler \<times> chans) option" where
  "Fake_Deleted ctx statusChan = (\<lambda>(d, cs). do {
     let d' = d\<lparr>fh_DeleteCalled := fh_DeleteCalled d + 1\<rparr>;
     (status, cs') \<leftarrow> fake_event d' ctx statusChan cs;
     Some (status, d', cs')
   })"

definition Fake_OnStatus :: "FakeHandler \<Rightarrow> FakeHandler" where
  "Fake_OnStatus d = d\<lparr>fh_OnStatusCalled := fh_OnStatusCalled d + 1\<rparr>"

text \<open>The fake controller passes every event and every status on to its handler.\<close>

definition fake_delegator :: "('o, FakeHandler) delegator" where
  "fake_delegator =
     \<lparr>dl_Added = (\<lambda>ctx _ statusChan s. map_option snd (Fake_Added ctx statusChan s)),
      dl_Updated = (\<lambda>ctx _ _ statusChan s. map_option snd (Fake_Updated ctx statusChan s)),
      dl_Deleted = (\<lambda>ctx _ statusChan s. map_option snd (Fake_Deleted ctx statusChan s))\<rparr>"

text \<open>
  The status callbacks of an event and of its child events, whose goroutines run with the channels as
  the event left them and at the same time as its own.  A call without an override goes to the handler.
\<close>

definition status_calls :: "chans \<Rightarrow> 'o effect list \<Rightarrow> nat option list" where
  "status_calls cs effs = concat (map (\<lambda>e. case e of
       Callback ov _ \<Rightarrow> [ov]
     | Spawn _ child \<Rightarrow> callback_targets (snd (handleStatus (child, cs)))
     | _ \<Rightarrow> []) effs)"

definition call_status :: "nat option list \<Rightarrow> FakeHandler \<Rightarrow> FakeHandler" where
  "call_status calls d = fold (\<lambda>ov. case ov of None \<Rightarrow> Fake_OnStatus | Some _ \<Rightarrow> id) calls d"

text \<open>An event from its first delivery to its last callback.\<close>

definition fake_run :: "nat \<Rightarrow> 'o item \<Rightarrow> FakeHandler \<times> chans \<Rightarrow> (FakeHandler \<times> nat option list) option" where
  "fake_run fuel it s =
     (case process_event fuel fake_delegator it s of
        Some (Inr (d, cs, log)) \<Rightarrow> (let calls = status_calls cs (concat log) in Some (call_status calls d, calls))
      | _ \<Rightarrow> None)"

subsection \<open>Lemmas\<close>

text \<open>How an event is counted.\<close>

definition counted :: "EventType \<Rightarrow> FakeHandler \<Rightarrow> FakeHandler" where
  "counted ev d =
     (case ev of
        Add \<Rightarrow> d\<lparr>fh_AddCalled := fh_AddCalled d + 1\<rparr>
      | Update \<Rightarrow> d\<lparr>fh_UpdateCalled := fh_UpdateCalled d + 1\<rparr>
      | Delete \<Rightarrow> d\<lparr>fh_DeleteCalled := fh_DeleteCalled d + 1\<rparr>)"

lemma counted_fields [simp]:
  "fh_eventStatus (counted ev d) = fh_eventStatus d" "fh_childEvent (counted ev d) = fh_childEvent d"
  "fh_childOnStatus (counted ev d) = fh_childOnStatus d" "fh_OnStatusCalled (counted ev d) = fh_OnStatusCalled d"
  by (simp_all add: counted_def split: EventType.split)

lemma dispatch_fake:
  "dispatch fake_delegator it (d, cs) = map_option (\<lambda>(_, cs'). (counted (it_eventType it) d, cs'))
     (fake_event (counted (it_eventType it) d) NewContextWithLogger (Some (it_statusChan it)) cs)"
  by (cases "it_eventType it")
    (simp_all add: dispatch_def fake_delegator_def counted_def Fake_Added_def Fake_Updated_def Fake_Deleted_def
      Let_def option.map_comp split: option.split bind_split prod.split)

lemma fake_sends: "sends_in (\<lambda>d. fh_eventStatus d = Some eps) eps counted fake_delegator"
  by (simp add: sends_in_def dispatch_fake fake_event_def NewEventProcessStatusWithStatus_def)

lemma fake_sends_completed:
  "sends_in (\<lambda>d. fh_eventStatus d = None \<and> \<not> fh_childEvent d) NewEventProcessStatus counted fake_delegator"
  by (simp add: sends_in_def dispatch_fake fake_event_def)

text \<open>How often an event is counted by a number of deliveries.\<close>

definition called :: "EventType \<Rightarrow> FakeHandler \<Rightarrow> 64 word" where
  "called ev d = (case ev of Add \<Rightarrow> fh_AddCalled d | Update \<Rightarrow> fh_UpdateCalled d | Delete \<Rightarrow> fh_DeleteCalled d)"

lemma called_counted [simp]: "called ev (counted ev' d) = (if ev = ev' then called ev d + 1 else called ev d)"
  by (simp add: called_def counted_def split: EventType.split)

lemma called_often: "called ev ((counted ev' ^^ n) d) = (if ev = ev' then called ev d + of_nat n else called ev d)"
  by (induction n) (auto simp: algebra_simps)

lemma OnStatus_often: "fh_OnStatusCalled ((counted ev ^^ n) d) = fh_OnStatusCalled d"
  by (induction n) simp_all

lemma called_OnStatus [simp]: "called ev (Fake_OnStatus d) = called ev d"
  by (simp add: called_def Fake_OnStatus_def split: EventType.split)

lemma call_status_fields:
  "fh_OnStatusCalled (call_status calls d) = fh_OnStatusCalled d + of_nat (count_list calls None)"
  "called ev (call_status calls d) = called ev d"
proof (induction calls arbitrary: d)
  case Nil
  case 1 then show ?case by (simp add: call_status_def)
  case 2 then show ?case by (simp add: call_status_def)
next
  case (Cons ov calls)
  have step: "call_status (ov # calls) d = call_status calls (case ov of None \<Rightarrow> Fake_OnStatus d | Some _ \<Rightarrow> d)" for ov d
    by (simp add: call_status_def split: option.split)
  case 1 then show ?case by (cases ov) (simp_all add: step Cons.IH(1) Fake_OnStatus_def)
  case 2 then show ?case
    by (cases ov) (simp_all add: step Cons.IH(2))
qed

text \<open>Without child events the calls are those of the log.\<close>

lemma status_calls_plain:
  "(\<forall>e \<in> set effs. \<forall>ctx child. e \<noteq> Spawn ctx child) \<Longrightarrow> status_calls cs effs = callback_targets effs"
proof (induction effs)
  case (Cons e effs)
  then show ?case by (cases e) (simp_all add: status_calls_def)
qed (simp add: status_calls_def)

lemma fake_run_log:
  assumes "process_event fuel fake_delegator it s = Some (Inr (d', cs', log))" "status_calls cs' (concat log) = calls"
  shows "\<exists>r. fake_run fuel it s = Some (r, calls) \<and> (\<forall>ev. called ev r = called ev d')
    \<and> fh_OnStatusCalled r = fh_OnStatusCalled d' + of_nat (count_list calls None)"
  using assms by (simp add: fake_run_def Let_def call_status_fields)

lemma process_once:
  "processItem d it st = Some (it', (s, cs'), effs) \<Longrightarrow> \<not> delivered_again effs \<Longrightarrow>
     process_event (Suc 0) d it st = Some (Inr (s, cs', [effs]))"
  by simp

text \<open>One delivery to a handler that sends a status without asking for a retry.\<close>

lemma run_without_retry:
  fixes it :: "'o item"
  assumes "sends_in I eps counted (fake_delegator :: ('o, FakeHandler) delegator)" "I d" "fresh_chan (it_statusChan it) cs" "it_onStatusOverride it = None"
    and "\<not> eps_Retry eps" "eps_Status eps \<noteq> EventCreateChild"
  shows "\<exists>cs'. process_event 1 fake_delegator it (d, cs) = Some (Inr (counted (it_eventType it) d, cs',
     [(if eps_Status eps = EventSkip then [] else [Callback None eps]) @ [QueueDone]]))"
proof -
  have "processItem fake_delegator it (d, cs) = Some (it, (counted (it_eventType it) d, close_with (it_statusChan it) eps cs),
      (if eps_Status eps = EventSkip then [] else [Callback None eps]) @ [QueueDone])"
    using assms(4-6) by (auto simp: processItem_sends [OF assms(1-3)] status_step_def triggerOnStatusCallback_def)
  moreover have "\<not> delivered_again ((if eps_Status eps = EventSkip then [] else [Callback None eps]) @ [QueueDone])"
    by (simp add: delivered_again_def)
  ultimately show ?thesis using process_once by fastforce
qed

text \<open>The child event of a fake handler, as its own goroutine and that of the event see it.\<close>

lemma run_with_child:
  assumes "fh_eventStatus d = None" "fh_childEvent d" "fresh_chan (it_statusChan it) cs" "it_onStatusOverride it = None"
  shows "\<exists>cs' ctx child. process_event 1 fake_delegator it (d, cs) = Some (Inr (counted (it_eventType it) d, cs',
       [[Spawn ctx child, Callback None NewEventProcessStatus, QueueDone]]))
     \<and> handleStatus (child, cs') = ((child, cs'), [Callback (fh_childOnStatus d) NewEventProcessStatus, QueueDone])"
proof -
  let ?c = "it_statusChan it" and ?n = NewEventProcessStatus and ?d = "counted (it_eventType it) d"
  have c: "?c < length cs" "\<not> ch_closed (cs ! ?c)" "ch_sent (cs ! ?c) = []"
    using assms(3) by (simp_all add: fresh_chan_def chan_open_def)
  define m where "m = ?n\<lparr>eps_Status := EventCreateChild, eps_ChildEventContext := NewContextWithLogger,
    eps_ChildOnStatus := fh_childOnStatus d, eps_ChildEventChan := Some (length cs)\<rparr>"
  define cs1 where "cs1 = (cs @ [\<lparr>ch_sent = [], ch_closed = False\<rparr>])[?c := (cs ! ?c)\<lparr>ch_sent := [m]\<rparr>]"
  define cs2 where "cs2 = close_with (length cs) ?n cs1"
  define cs3 where "cs3 = close_with ?c ?n cs2"
  have create: "CreateChildEvent ?n NewContextWithLogger (fh_childOnStatus d) (Some ?c) cs = Some (NewContextWithLogger, Some (length cs), cs1)"
    using c by (simp add: CreateChildEvent_def make_chan_def chan_send_def Let_def nth_append m_def cs1_def NewContextWithLogger_def)
  have "chan_open (length cs) cs1" "chan_open ?c cs2"
    using c by (auto simp: chan_open_def cs1_def cs2_def close_with_def nth_append nth_list_update)
  then have "fake_event ?d NewContextWithLogger (Some ?c) cs = Some (EventCompleted, cs3)"
    using assms(1,2) create by (simp add: fake_event_def SendClose_open cs2_def cs3_def NewEventProcessStatus_def)
  then have run: "dispatch fake_delegator it (d, cs) = Some (?d, cs3)" by (simp add: dispatch_fake)
  have own: "ch_sent (cs3 ! ?c) = [m, ?n]" "ch_closed (cs3 ! ?c)"
    using c by (simp_all add: cs3_def cs2_def cs1_def close_with_def nth_append nth_list_update)
  have kid: "ch_sent (cs3 ! length cs) = [?n]" "ch_closed (cs3 ! length cs)"
    using c by (simp_all add: cs3_def cs2_def cs1_def close_with_def nth_append nth_list_update)
  have fields: "eps_Status ?n = EventCompleted" "\<not> eps_Retry ?n" "eps_Status m = EventCreateChild"
    "eps_ChildEventChan m = Some (length cs)" "eps_ChildOnStatus m = fh_childOnStatus d"
    by (simp_all add: NewEventProcessStatus_def m_def)
  have "processItem fake_delegator it (d, cs)
      = Some (it, (?d, cs3), [Spawn (eps_ChildEventContext m) (child_item m it), Callback None ?n, QueueDone])"
    using assms(4) own fields by (simp add: processItem_def run handleStatus_def Let_def status_step_def triggerOnStatusCallback_def)
  then have "process_event 1 fake_delegator it (d, cs)
      = Some (Inr (?d, cs3, [[Spawn (eps_ChildEventContext m) (child_item m it), Callback None ?n, QueueDone]]))"
    using process_once by (fastforce simp: delivered_again_def)
  moreover have "handleStatus (child_item m it, cs3) = ((child_item m it, cs3), [Callback (fh_childOnStatus d) ?n, QueueDone])"
    using kid fields by (simp add: handleStatus_def child_item_def Let_def status_step_def triggerOnStatusCallback_def)
  ultimately show ?thesis by blast
qed

subsection \<open>Properties\<close>

text \<open>
  How often the controller calls a handler is what the fake handler counts.  An event is counted
  once, and its status callback too, when the handler completes; not its callback when it skips; with a
  child event the child's own callback is called as well, or the handler's when the child has none.  A
  status that asks for up to m retries makes the event count m + 1 times and the callback as often.  No
  other counter changes.
\<close>

theorem fake_handler_calls:
  assumes "fresh_chan (it_statusChan it) cs" "it_retryCount it = 0" "it_onStatusOverride it = None"
    and "case fh_eventStatus d of
        None \<Rightarrow> n = 1 \<and> calls = (if fh_childEvent d then [fh_childOnStatus d] else []) @ [None]
      | Some eps \<Rightarrow> (if eps_Retry eps
           then eps_Status eps = EventRetry \<and> eps_MaxRetryCount eps = int (n - 1) \<and> 0 < n \<and> calls = replicate n None
           else eps_Status eps \<noteq> EventCreateChild \<and> n = 1 \<and> calls = (if eps_Status eps = EventSkip then [] else [None]))"
  shows "\<exists>r. fake_run n it (d, cs) = Some (r, calls)
    \<and> (\<forall>ev. called ev r = (if ev = it_eventType it then called ev d + of_nat n else called ev d))
    \<and> fh_OnStatusCalled r = fh_OnStatusCalled d + of_nat (count_list calls None)"
proof -
  let ?ev = "it_eventType it"
  have "\<exists>cs' log. process_event n fake_delegator it (d, cs) = Some (Inr ((counted ?ev ^^ n) d, cs', log))
      \<and> status_calls cs' (concat log) = calls"
  proof (cases "fh_eventStatus d")
    case None
    show ?thesis
    proof (cases "fh_childEvent d")
      case True
      with None assms(4) have n: "n = 1" "calls = [fh_childOnStatus d, None]" by simp_all
      from run_with_child [OF None True assms(1,3)] show ?thesis by (auto simp: n status_calls_def)
    next
      case False
      with None assms(4) have n: "n = 1" "calls = [None]" by simp_all
      have "eps_Status NewEventProcessStatus = EventCompleted" "\<not> eps_Retry NewEventProcessStatus"
        by (simp_all add: NewEventProcessStatus_def)
      with run_without_retry [OF fake_sends_completed conjI [OF None False] assms(1,3)]
      show ?thesis by (auto simp: n status_calls_def)
    qed
  next
    case (Some eps)
    show ?thesis
    proof (cases "eps_Retry eps")
      case True
      with Some assms(4) have r: "eps_Status eps = EventRetry" "eps_MaxRetryCount eps = int (0 + (n - 1))" "0 < n" "calls = replicate n None"
        by simp_all
      obtain cs' log where run: "process_event n fake_delegator it (d, cs) = Some (Inr ((counted ?ev ^^ n) d, cs', log))"
        "callback_targets (concat log) = calls" "\<forall>e \<in> set (concat log). \<forall>ctx child. e \<noteq> Spawn ctx child"
        using retry_run [OF fake_sends True r(1,2) assms(1) _ Some] assms(2,3) r(3,4) by auto
      with run status_calls_plain show ?thesis by metis
    next
      case False
      with Some assms(4) have n: "n = 1" "eps_Status eps \<noteq> EventCreateChild" "calls = (if eps_Status eps = EventSkip then [] else [None])"
        by simp_all
      from run_without_retry [OF fake_sends Some assms(1,3) False n(2)] show ?thesis by (auto simp: n(1,3) status_calls_def)
    qed
  qed
  then obtain cs' log where "process_event n fake_delegator it (d, cs) = Some (Inr ((counted ?ev ^^ n) d, cs', log))"
    "status_calls cs' (concat log) = calls" by blast
  from fake_run_log [OF this] show ?thesis by (auto simp: called_often OnStatus_often)
qed

subsection \<open>Witnesses\<close>

text \<open>A handler that fails with two retries, and one with a child event that has a callback of its own.\<close>

theorem fake_handler_calls_witness:
  "(\<exists>r. fake_run 3 sample_item (NewFakeNoOpHandlerWithStatus ''c1'' (Some failing_status), sample_chans)
        = Some (r, [None, None, None]) \<and> fh_AddCalled r = 3 \<and> fh_UpdateCalled r = 0 \<and> fh_OnStatusCalled r = 3)
   \<and> (\<exists>r. fake_run 1 sample_item (NewFakeNoOpHandlerWithChildEvent ''c1'' (Some 7), sample_chans)
        = Some (r, [Some 7, None]) \<and> fh_AddCalled r = 1 \<and> fh_OnStatusCalled r = 1)"
proof
  have it: "it_retryCount sample_item = 0" "it_onStatusOverride sample_item = None" "it_eventType sample_item = Add"
    by (simp_all add: sample_item_def)
  note calls = fake_handler_calls [OF sample_fresh it(1,2)]
  let ?d = "NewFakeNoOpHandlerWithStatus ''c1'' (Some failing_status)" and ?k = "NewFakeNoOpHandlerWithChildEvent ''c1'' (Some 7)"
  have fields: "fh_eventStatus ?d = Some failing_status" "called ev ?d = 0" "fh_OnStatusCalled ?d = 0"
    "fh_eventStatus ?k = None" "fh_childEvent ?k" "fh_childOnStatus ?k = Some 7" "called ev ?k = 0" "fh_OnStatusCalled ?k = 0" for ev
    by (simp_all add: NewFakeNoOpHandlerWithStatus_def NewFakeNoOpHandlerWithChildEvent_def called_def split: EventType.split)
  have three: "replicate 3 None = [None, None, None :: nat option]" by (simp add: numeral_3_eq_3)
  obtain r where r: "fake_run 3 sample_item (?d, sample_chans) = Some (r, [None, None, None])"
    "\<forall>ev. called ev r = (if ev = Add then 3 else 0)" "fh_OnStatusCalled r = 3"
    using calls [where d = ?d and n = 3 and calls = "[None, None, None]"] failing_fields fields(1-3) three by (auto simp: it(3))
  then show "\<exists>r. fake_run 3 sample_item (?d, sample_chans) = Some (r, [None, None, None]) \<and> fh_AddCalled r = 3
      \<and> fh_UpdateCalled r = 0 \<and> fh_OnStatusCalled r = 3"
    using r(2) [rule_format, of Add] r(2) [rule_format, of Update] by (auto simp: called_def)
  obtain r where r: "fake_run 1 sample_item (?k, sample_chans) = Some (r, [Some 7, None])"
    "called Add r = 1" "fh_OnStatusCalled r = 1"
    using calls [where d = ?k and n = 1 and calls = "[Some 7, None]"] fields(4-) by (auto simp: it(3))
  then show "\<exists>r. fake_run 1 sample_item (?k, sample_chans) = Some (r, [Some 7, None]) \<and> fh_AddCalled r = 1 \<and> fh_OnStatusCalled r = 1"
    by (auto simp: called_def)
qed

end
