(* ===== verification/Builders.thy ===== *)
theory Builders
  imports WorkloadCache
begin

text \<open>
  The builders of \<open>internal/fake/builder\<close>: fleets of fake deployments, rollouts, services, secrets,
  dependency records and traffic configs with numbered names, and caches filled with them.

  Fields the program never reads (ports, selectors, resource versions) are left out, as in Resources.
  The fake clientsets are client-go's: creating an object is a parameter, a function on a state \<open>'w\<close>
  whose result the builders ignore.  A \<open>make\<close> of a map is an empty map.
\<close>

subsection \<open>Numbers in names\<close>

text \<open>The verb \<open>d\<close> of \<open>fmt.Sprintf\<close> for numbers that are not negative.\<close>

definition digit :: "nat \<Rightarrow> char" where
  "digit n = char_of (48 + n)"

fun decimal :: "nat \<Rightarrow> string" where
  "decimal n = (if n < 10 then [digit n] else decimal (n div 10) @ [digit (n mod 10)])"

declare decimal.simps [simp del]

definition numbered :: "string \<Rightarrow> nat \<Rightarrow> string" where
  "numbered prefix i = prefix @ ''-'' @ decimal i"

text \<open>Reading a number back.\<close>

definition read_decimal :: "string \<Rightarrow> nat" where
  "read_decimal s = foldl (\<lambda>n c. 10 * n + (of_char c - 48)) 0 s"

lemma of_digit: "n < 10 \<Longrightarrow> (of_char (digit n) :: nat) = 48 + n"
  by (simp add: digit_def of_char_of)

lemma read_decimal: "read_decimal (decimal n) = n"
proof (induction n rule: decimal.induct)
  case (1 n)
  show ?case
  proof (cases "n < 10")
    case True
    then show ?thesis by (simp add: decimal.simps read_decimal_def of_digit)
  next
    case False
    have "read_decimal (s @ [digit (n mod 10)]) = 10 * read_decimal s + n mod 10" for s
      by (simp add: read_decimal_def of_digit)
    with False 1 show ?thesis by (simp add: decimal.simps [of n])
  qed
qed

lemma decimal_inj [simp]: "decimal m = decimal n \<longleftrightarrow> m = n"
  by (metis read_decimal)

lemma decimal_digits: "c \<in> set (decimal n) \<Longrightarrow> \<exists>d < 10. c = digit d"
proof (induction n rule: decimal.induct)
  case (1 n)
  have "\<exists>d < 10. digit (n mod 10) = digit d" by (intro exI [of _ "n mod 10"]) simp
  with 1 show ?case by (cases "n < 10") (auto simp: decimal.simps [of n])
qed

lemma digit_plain: "d < 10 \<Longrightarrow> digit d \<noteq> CHR ''-'' \<and> digit d \<noteq> CHR ''/'' \<and> digit d \<noteq> CHR ''.'' \<and> lower_char (digit d) = digit d"
proof -
  have "\<forall>d \<in> set [0..<10]. digit d \<noteq> CHR ''-'' \<and> digit d \<noteq> CHR ''/'' \<and> digit d \<noteq> CHR ''.'' \<and> lower_char (digit d) = digit d"
    by code_simp
  then show "d < 10 \<Longrightarrow> digit d \<noteq> CHR ''-'' \<and> digit d \<noteq> CHR ''/'' \<and> digit d \<noteq> CHR ''.'' \<and> lower_char (digit d) = digit d"
    by simp
qed

lemma decimal_plain: "CHR ''-'' \<notin> set (decimal n)" "CHR ''/'' \<notin> set (decimal n)" "CHR ''.'' \<notin> set (decimal n)"
  "ToLower (decimal n) = decimal n" "decimal n \<noteq> []"
proof -
  show "CHR ''-'' \<notin> set (decimal n)" "CHR ''/'' \<notin> set (decimal n)" "CHR ''.'' \<notin> set (decimal n)"
    using decimal_digits digit_plain by metis+
  show "ToLower (decimal n) = decimal n" unfolding ToLower_fixed using decimal_digits digit_plain by metis
  show "decimal n \<noteq> []" by (subst decimal.simps) simp
qed

lemma numbered_inj [simp]: "numbered a i = numbered a j \<longleftrightarrow> i = j"
  by (simp add: numbered_def)

lemma numbered_lower: "ToLower (numbered a i) = numbered (ToLower a) i"
proof -
  have "lower_char CHR ''-'' = CHR ''-''" by code_simp
  then show ?thesis by (simp add: numbered_def decimal_plain)
qed

text \<open>One numbered name contains another of the same prefix exactly when its number begins with that of the other.\<close>

lemma numbered_contains: "Contains (numbered a j) (numbered a i) \<longleftrightarrow> (\<exists>b. decimal j = decimal i @ b)"
proof
  assume "Contains (numbered a j) (numbered a i)"
  then obtain x y where e: "a @ ''-'' @ decimal j = x @ (a @ ''-'' @ decimal i) @ y"
    by (auto simp: Contains_iff numbered_def)
  have "x = []"
  proof (rule ccontr)
    assume x: "x \<noteq> []"
    have d: "decimal j = drop (length a + 1) (x @ (a @ ''-'' @ decimal i) @ y)"
      unfolding e [symmetric] by simp
    have "length a + 1 \<le> length (x @ a)" using x by (cases x) auto
    then have "CHR ''-'' \<in> set (drop (length a + 1) ((x @ a) @ ''-'' @ decimal i @ y))"
      by (subst drop_append) simp
    with d have "CHR ''-'' \<in> set (decimal j)" by (simp only: append_assoc)
    with decimal_plain(1) show False by blast
  qed
  with e show "\<exists>b. decimal j = decimal i @ b" by simp
next
  assume "\<exists>b. decimal j = decimal i @ b"
  then obtain b where "decimal j = decimal i @ b" ..
  then have "numbered a j = [] @ numbered a i @ b" by (simp add: numbered_def)
  then show "Contains (numbered a j) (numbered a i)" unfolding Contains_iff by blast
qed

subsection \<open>Deployments and rollouts\<close>

text \<open>\<open>fmt.Sprintf("app.%s.%s.%s", cluster, namespace, name)\<close>.\<close>

definition asset_alias :: "string \<Rightarrow> string \<Rightarrow> string \<Rightarrow> string" where
  "asset_alias cluster namespace name = ''app.'' @ cluster @ ''.'' @ namespace @ ''.'' @ name"

text \<open>The metadata of a workload and of its pods; an annotation key that is written twice keeps the last value.\<close>

definition fake_workload_meta ::
    "NaavikArgs \<Rightarrow> string \<Rightarrow> string \<Rightarrow> string \<Rightarrow> string \<Rightarrow> string \<Rightarrow> ObjectMeta" where
  "fake_workload_meta p name assetAlias appName env namespace =
     \<lparr>om_Name = name, om_Namespace = namespace,
      om_Labels = Some [(''app'', appName), (''assetAlias'', assetAlias), (''env'', env), (''istio-injected'', ''true'')],
      om_Annotations = Some (gm_put ''traffic.sidecar.istio.io/includeInboundPorts'' ''8090''
        (gm_put (MeshInjectionEnabledKey p) ''true''
        (gm_put (WorkloadIdentityKey p) assetAlias
        (gm_put (EnvKey p) env []))))\<rparr>"

definition BuildFakeDeployment :: "NaavikArgs \<Rightarrow> string \<Rightarrow> string \<Rightarrow> string \<Rightarrow> string \<Rightarrow> string \<Rightarrow> Workload" where
  "BuildFakeDeployment p name assetAlias appName env namespace =
     (let objectMeta = fake_workload_meta p name assetAlias appName env namespace
      in \<lparr>wl_Meta = objectMeta, wl_Template = objectMeta\<rparr>)"

definition BuildFakeRollout :: "NaavikArgs \<Rightarrow> string \<Rightarrow> string \<Rightarrow> string \<Rightarrow> string \<Rightarrow> string \<Rightarrow> Workload" where
  "BuildFakeRollout p name assetAlias appName env namespace =
     (let objectMeta = fake_workload_meta p name assetAlias appName env namespace
      in \<lparr>wl_Meta = objectMeta, wl_Template = objectMeta\<rparr>)"

text \<open>\<open>create\<close> is the client's \<open>Create\<close> in a namespace.\<close>

type_synonym ('o, 'w) create_fun = "string \<Rightarrow> 'o \<Rightarrow> 'w \<Rightarrow> 'w"

definition CreateFakeDeployment ::
    "NaavikArgs \<Rightarrow> (Workload, 'w) create_fun \<Rightarrow> string \<Rightarrow> string \<Rightarrow> string \<Rightarrow> string \<Rightarrow> string \<Rightarrow> 'w \<Rightarrow> 'w" where
  "CreateFakeDeployment p create name appNamePrefix namespace cluster env =
     create namespace (BuildFakeDeployment p name (asset_alias cluster namespace name) appNamePrefix env namespace)"

definition CreateNFakeDeployments ::
    "NaavikArgs \<Rightarrow> (Workload, 'w) create_fun \<Rightarrow> string \<Rightarrow> string \<Rightarrow> string \<Rightarrow> string \<Rightarrow> string \<Rightarrow> int \<Rightarrow> 'w \<Rightarrow> 'w" where
  "CreateNFakeDeployments p create deploymentNamePrefix appNamePrefix namespace cluster env noOfDeployments =
     fold (\<lambda>i. CreateFakeDeployment p create (numbered deploymentNamePrefix (i + 1)) (numbered appNamePrefix (i + 1))
       namespace cluster env) [0..<nat noOfDeployments]"

definition CreateNFakeDeploymentsInNNamespace ::
    "NaavikArgs \<Rightarrow> (Workload, 'w) create_fun \<Rightarrow> string \<Rightarrow> string \<Rightarrow> string \<Rightarrow> string \<Rightarrow> string \<Rightarrow> int \<Rightarrow> int \<Rightarrow> 'w \<Rightarrow> 'w" where
  "CreateNFakeDeploymentsInNNamespace p create deploymentNamePrefix appNamePrefix namespace cluster env noOfDeployments noOfNamespace =
     fold (\<lambda>i. CreateNFakeDeployments p create deploymentNamePrefix appNamePrefix (numbered namespace (i + 1)) cluster env
       noOfDeployments) [0..<nat noOfNamespace]"

definition CreateFakeRollout ::
    "NaavikArgs \<Rightarrow> (Workload, 'w) create_fun \<Rightarrow> string \<Rightarrow> string \<Rightarrow> string \<Rightarrow> string \<Rightarrow> string \<Rightarrow> 'w \<Rightarrow> 'w" where
  "CreateFakeRollout p create name app namespace cluster env =
     create namespace (BuildFakeRollout p name (asset_alias cluster namespace name) app env namespace)"

definition CreateNFakeRollouts ::
    "NaavikArgs \<Rightarrow> (Workload, 'w) create_fun \<Rightarrow> string \<Rightarrow> string \<Rightarrow> string \<Rightarrow> string \<Rightarrow> string \<Rightarrow> int \<Rightarrow> 'w \<Rightarrow> 'w" where
  "CreateNFakeRollouts p create rolloutNamePrefix appNamePrefix namespace cluster env noOfrollouts =
     fold (\<lambda>i. CreateFakeRollout p create (numbered rolloutNamePrefix (i + 1)) (numbered appNamePrefix (i + 1))
       namespace cluster env) [0..<nat noOfrollouts]"

definition CreateNFakeRolloutsInNNamespace ::
    "NaavikArgs \<Rightarrow> (Workload, 'w) create_fun \<Rightarrow> string \<Rightarrow> string \<Rightarrow> string \<Rightarrow> string \<Rightarrow> string \<Rightarrow> int \<Rightarrow> int \<Rightarrow> 'w \<Rightarrow> 'w" where
  "CreateNFakeRolloutsInNNamespace p create rolloutNamePrefix appNamePrefix namespace cluster env noOfrollouts noOfNamespace =
     fold (\<lambda>i. CreateNFakeRollouts p create rolloutNamePrefix appNamePrefix (numbered namespace (i + 1)) cluster env
       noOfrollouts) [0..<nat noOfNamespace]"

subsection \<open>Services, secrets and dependency records\<close>

text \<open>A headless service differs in its cluster IP only, which the program does not read.\<close>

definition BuildFakeService :: "NaavikArgs \<Rightarrow> string \<Rightarrow> string \<Rightarrow> string \<Rightarrow> string \<Rightarrow> Service" where
  "BuildFakeService p name assetAlias appName namespace =
     \<lparr>svc_Meta = \<lparr>om_Name = name, om_Namespace = namespace,
        om_Labels = Some [(''app'', appName), (''assetAlias'', assetAlias)],
        om_Annotations = Some [(WorkloadIdentityKey p, assetAlias)]\<rparr>\<rparr>"

definition BuildFakeHeadlessService :: "NaavikArgs \<Rightarrow> string \<Rightarrow> string \<Rightarrow> string \<Rightarrow> string \<Rightarrow> Service" where
  "BuildFakeHeadlessService p name assetAlias appName namespace =
     \<lparr>svc_Meta = \<lparr>om_Name = name, om_Namespace = namespace,
        om_Labels = Some [(''app'', appName), (''assetAlias'', assetAlias)],
        om_Annotations = Some [(WorkloadIdentityKey p, assetAlias)]\<rparr>\<rparr>"

definition CreateFakeService ::
    "NaavikArgs \<Rightarrow> (Service, 'w) create_fun \<Rightarrow> string \<Rightarrow> string \<Rightarrow> string \<Rightarrow> 'w \<Rightarrow> 'w" where
  "CreateFakeService p create name appName namespace =
     create namespace (BuildFakeService p name (''app.'' @ namespace @ ''.'' @ name) appName namespace)"

definition CreateNFakeServices ::
    "NaavikArgs \<Rightarrow> (Service, 'w) create_fun \<Rightarrow> string \<Rightarrow> string \<Rightarrow> string \<Rightarrow> int \<Rightarrow> 'w \<Rightarrow> 'w" where
  "CreateNFakeServices p create serviceNamePrefix appName namespace noOfServices =
     fold (\<lambda>i. CreateFakeService p create (numbered serviceNamePrefix (i + 1)) (numbered appName (i + 1)) namespace)
       [0..<nat noOfServices]"

definition CreateNFakeServicesInNNamespace ::
    "NaavikArgs \<Rightarrow> (Service, 'w) create_fun \<Rightarrow> string \<Rightarrow> string \<Rightarrow> string \<Rightarrow> int \<Rightarrow> int \<Rightarrow> 'w \<Rightarrow> 'w" where
  "CreateNFakeServicesInNNamespace p create serviceNamePrefix appName namespace noOfServices noOfNamespaces =
     fold (\<lambda>i. CreateNFakeServices p create serviceNamePrefix appName (numbered namespace (i + 1)) noOfServices)
       [0..<nat noOfNamespaces]"

definition CreateRemoteClusterSecret :: "NaavikArgs \<Rightarrow> string \<Rightarrow> string \<Rightarrow> Secret" where
  "CreateRemoteClusterSecret p clusterName namespace =
     \<lparr>sec_Meta = \<lparr>om_Name = clusterName, om_Namespace = namespace,
        om_Labels = Some [(SecretSyncLabel p, ''true'')], om_Annotations = None\<rparr>,
      sec_Data = [(clusterName, clusterName)]\<rparr>"

definition CreateNRemoteClusterSecret ::
    "NaavikArgs \<Rightarrow> (Secret, 'w) create_fun \<Rightarrow> int \<Rightarrow> string \<Rightarrow> string \<Rightarrow> 'w \<Rightarrow> 'w" where
  "CreateNRemoteClusterSecret p create n clusterNamePrefix namespace =
     fold (\<lambda>i. create namespace (CreateRemoteClusterSecret p (numbered clusterNamePrefix (i + 1)) namespace)) [0..<nat n]"

definition BuildFakeDependency :: "string \<Rightarrow> string \<Rightarrow> string list \<Rightarrow> Dependency" where
  "BuildFakeDependency namespace source destinations = \<lparr>dep_Source = source, dep_Destinations = destinations\<rparr>"

definition CreateFakeDependency ::
    "(Dependency, 'w) create_fun \<Rightarrow> string \<Rightarrow> string \<Rightarrow> string list \<Rightarrow> 'w \<Rightarrow> 'w" where
  "CreateFakeDependency create namespace source destinations =
     create namespace (BuildFakeDependency namespace source destinations)"

text \<open>The loops count from 1; a source of cluster \<open>i\<close> calls workloads of cluster \<open>i + 1\<close>.\<close>

definition CreateNFakeDependencies ::
    "NaavikArgs \<Rightarrow> (Dependency, 'w) create_fun \<Rightarrow> int \<Rightarrow> int \<Rightarrow> string \<Rightarrow> string \<Rightarrow> int \<Rightarrow> 'w \<Rightarrow> 'w" where
  "CreateNFakeDependencies p create noOfClusters noOfNamespaces namespacePrefix workloadName maxDependencyNetwork =
     fold (\<lambda>i. let cluster = numbered ''cluster'' i in
       fold (\<lambda>j. let namespace = numbered namespacePrefix j;
           source = asset_alias cluster namespace workloadName;
           destinations = map (\<lambda>k. asset_alias (numbered ''cluster'' (i + 1)) (numbered namespacePrefix (j + k)) workloadName)
             [1..<nat maxDependencyNetwork + 1]
         in CreateFakeDependency create (DependenciesNamespace p) source destinations)
       [1..<nat noOfNamespaces + 1]) [1..<nat noOfClusters + 1]"

subsection \<open>Traffic configs\<close>

text \<open>
  \<open>preloaded\<close> is what unmarshalling the data file gives; \<open>None\<close>, like a write to a nil map and an index out
  of range, is a panic.
\<close>

definition fill_traffic_config ::
    "NaavikArgs \<Rightarrow> TrafficConfig option \<Rightarrow> string \<Rightarrow> string \<Rightarrow> string \<Rightarrow> string \<Rightarrow> string \<Rightarrow> TrafficConfig option" where
  "fill_traffic_config p preloaded identityKey assetAlias env revision trafficConfigNamespace = do {
     tc \<leftarrow> preloaded;
     annotations \<leftarrow> om_Annotations (tc_Meta tc);
     labels \<leftarrow> om_Labels (tc_Meta tc);
     es \<leftarrow> tc_EdgeService tc;
     qg \<leftarrow> tc_QuotaGroup tc;
     let select = (\<lambda>r. r\<lparr>rt_WorkloadEnvSelectors := [env]\<rparr>);
     (r0, r1, routes) \<leftarrow> (case es_Routes es of r0 # r1 # routes \<Rightarrow> Some (r0, r1, routes) | _ \<Rightarrow> None);
     (q0, quotas) \<leftarrow> (case qg_Total qg of q0 # quotas \<Rightarrow> Some (q0, quotas) | _ \<Rightarrow> None);
     (t0, targets) \<leftarrow> (case elems (es_Targets es) of t0 # targets \<Rightarrow> Some (t0, targets) | _ \<Rightarrow> None);
     Some (tc\<lparr>tc_Meta := \<lparr>om_Name = assetAlias @ ''-'' @ env, om_Namespace = trafficConfigNamespace,
           om_Labels = Some (gm_put ''env'' env (gm_put identityKey assetAlias labels)),
           om_Annotations = Some (gm_put ''revisionNumber'' revision annotations)\<rparr>,
         tc_WorkloadEnv := [env],
         tc_EdgeService := Some (es\<lparr>es_Routes := select r0 # select r1 # routes,
           es_Targets := Some (t0\<lparr>tg_MeshDNS := env @ ''.'' @ assetAlias @ ''.'' @ HostnameSuffix p\<rparr> # targets)\<rparr>),
         tc_QuotaGroup := Some (qg\<lparr>qg_Total := q0\<lparr>tq_WorkloadEnvSelectors := [env]\<rparr> # quotas\<rparr>)\<rparr>)
   }"

definition GetFakeTrafficConfig ::
    "NaavikArgs \<Rightarrow> TrafficConfig option \<Rightarrow> string \<Rightarrow> string \<Rightarrow> string \<Rightarrow> string \<Rightarrow> TrafficConfig option" where
  "GetFakeTrafficConfig p preloaded = fill_traffic_config p preloaded (TrafficConfigIdentityKey p)"

text \<open>The client of traffic configs: what is stored under a name (resource version and generation), update and create.\<close>

record 'w tc_client =
  tcl_Get :: "string \<Rightarrow> string \<Rightarrow> 'w \<Rightarrow> (string \<times> int) option"
  tcl_Update :: "string \<Rightarrow> string \<Rightarrow> int \<Rightarrow> TrafficConfig \<Rightarrow> 'w \<Rightarrow> 'w"
  tcl_Create :: "string \<Rightarrow> TrafficConfig \<Rightarrow> 'w \<Rightarrow> 'w"

text \<open>Here the identity is always the label \<open>asset\<close>, whatever key is configured.\<close>

definition CreateFakeTrafficConfig ::
    "NaavikArgs \<Rightarrow> TrafficConfig option \<Rightarrow> 'w tc_client \<Rightarrow> string \<Rightarrow> string \<Rightarrow> string \<Rightarrow> string \<Rightarrow> 'w \<Rightarrow> 'w option" where
  "CreateFakeTrafficConfig p preloaded client assetAlias env revision trafficConfigNamespace w = do {
     tc \<leftarrow> fill_traffic_config p preloaded ''asset'' assetAlias env revision trafficConfigNamespace;
     Some (case tcl_Get client trafficConfigNamespace (om_Name (tc_Meta tc)) w of
         Some (version, generation) \<Rightarrow> tcl_Update client trafficConfigNamespace version (generation + 1) tc w
       | None \<Rightarrow> tcl_Create client trafficConfigNamespace tc w)
   }"

definition CreateFakeTrafficConfigsInNNamespaceNClusters ::
    "NaavikArgs \<Rightarrow> TrafficConfig option \<Rightarrow> 'w tc_client \<Rightarrow> ('w \<Rightarrow> int) \<Rightarrow> string \<Rightarrow> int \<Rightarrow> int \<Rightarrow> string \<Rightarrow> string
       \<Rightarrow> string \<Rightarrow> string \<Rightarrow> string \<Rightarrow> 'w \<Rightarrow> ((string, int) gomap \<times> 'w) option" where
  "CreateFakeTrafficConfigsInNNamespaceNClusters p preloaded client now trafficConfigNamespace noOfClusters noOfNamespaces
       clusterPrefix namespacePrefix workloadName env revision w =
     foreach (\<lambda>i. let cluster = numbered clusterPrefix (i + 1) in
       foreach (\<lambda>j (creationTimestamps, w). do {
           let namespace = numbered namespacePrefix (j + 1);
           let assetAlias = asset_alias cluster namespace workloadName;
           w' \<leftarrow> CreateFakeTrafficConfig p preloaded client assetAlias env revision trafficConfigNamespace w;
           Some (gm_put assetAlias (now w) creationTimestamps, w')
         }) [0..<nat noOfNamespaces])
     [0..<nat noOfClusters] ([], w)"

subsection \<open>Filled caches\<close>

definition CreateClusterNamespaceNumResourcesMap :: "int \<Rightarrow> int \<Rightarrow> int \<Rightarrow> (string, (string, int) gomap) gomap" where
  "CreateClusterNamespaceNumResourcesMap noOfClusters noOfNamespacesInEachCluster noOfResourcesInNamespace =
     fold (\<lambda>i. gm_put (numbered ''cluster'' i)
         (fold (\<lambda>j. gm_put (numbered ''namespace'' j) noOfResourcesInNamespace) [0..<nat noOfNamespacesInEachCluster] []))
       [0..<nat noOfClusters] []"

text \<open>The object of each loop; the name of a deployment is spelt as in the source.\<close>

definition cached_deployment :: "NaavikArgs \<Rightarrow> string \<Rightarrow> nat \<Rightarrow> Workload" where
  "cached_deployment p namespace i = BuildFakeDeployment p (numbered ''depoyment'' i) (''app.'' @ namespace @ ''.deploy'')
     (numbered ''app'' i) (numbered ''env'' i) namespace"

definition cached_rollout :: "NaavikArgs \<Rightarrow> string \<Rightarrow> nat \<Rightarrow> Workload" where
  "cached_rollout p namespace i = BuildFakeRollout p (numbered ''rollout'' i) (''app.'' @ namespace @ ''.rollout'')
     (numbered ''app'' i) (numbered ''env'' i) namespace"

definition cached_service :: "NaavikArgs \<Rightarrow> string \<Rightarrow> nat \<Rightarrow> Service" where
  "cached_service p namespace i = BuildFakeService p (numbered ''svc'' i) (''app.'' @ namespace @ ''.service'')
     (numbered ''app'' i) namespace"

definition BuildFakeDeploymentCache ::
    "NaavikArgs \<Rightarrow> (string, (string, int) gomap) gomap \<Rightarrow> Workload cluster_map \<Rightarrow> Workload cluster_map" where
  "BuildFakeDeploymentCache p clusterNamespaceNumDepsMap =
     fold (\<lambda>(clusterID, namespaceNumDeps). fold (\<lambda>(namespace, numDeps).
         fold (\<lambda>i. Deployments_Add p clusterID (cached_deployment p namespace i)) [0..<nat numDeps]) namespaceNumDeps)
       clusterNamespaceNumDepsMap"

definition BuildFakeRolloutsCache ::
    "NaavikArgs \<Rightarrow> (string, (string, int) gomap) gomap \<Rightarrow> Workload cluster_map \<Rightarrow> Workload cluster_map" where
  "BuildFakeRolloutsCache p clusterNamespaceNumDepsMap =
     fold (\<lambda>(clusterID, namespaceNumDeps). fold (\<lambda>(namespace, numRollouts).
         fold (\<lambda>i. Rollouts_Add p clusterID (cached_rollout p namespace i)) [0..<nat numRollouts]) namespaceNumDeps)
       clusterNamespaceNumDepsMap"

definition BuildFakeServiceCache ::
    "NaavikArgs \<Rightarrow> (string, (string, int) gomap) gomap \<Rightarrow> Service cluster_map \<Rightarrow> Service cluster_map" where
  "BuildFakeServiceCache p clusterNamespaceNumDepsMap =
     fold (\<lambda>(clusterID, namespaceNumDeps). fold (\<lambda>(namespace, numDeps).
         fold (\<lambda>i. Services_Add clusterID (cached_service p namespace i)) [0..<nat numDeps]) namespaceNumDeps)
       clusterNamespaceNumDepsMap"

subsection \<open>What the filled caches hold\<close>

text \<open>
  The keys the builders annotate are four different ones, and none of them is a label of a fake workload.
\<close>

definition builder_keys :: "NaavikArgs \<Rightarrow> bool" where
  "builder_keys p \<longleftrightarrow> distinct [EnvKey p, WorkloadIdentityKey p, MeshInjectionEnabledKey p, ''traffic.sidecar.istio.io/includeInboundPorts'']
     \<and> (\<forall>k \<in> {EnvKey p, WorkloadIdentityKey p, MeshInjectionEnabledKey p}. k \<notin> {''app'', ''assetAlias'', ''env'', ''istio-injected''})"

lemma fake_meta_reads:
  assumes "builder_keys p"
  shows "GetWorkloadIdentifier p (fake_workload_meta p n a app e ns) = a"
    "IsResourceMeshEnabled p (fake_workload_meta p n a app e ns)"
    "e \<noteq> [] \<Longrightarrow> GetEnv p (fake_workload_meta p n a app e ns) n' ns' = e"
proof -
  have true: "ToLower ''true'' = IsTrue" by code_simp
  show "GetWorkloadIdentifier p (fake_workload_meta p n a app e ns) = a"
    using assms by (simp add: builder_keys_def GetWorkloadIdentifier_def label_or_annotation_eq fake_workload_meta_def gm_get_Cons gm_str_def)
  show "IsResourceMeshEnabled p (fake_workload_meta p n a app e ns)"
    using assms by (simp add: builder_keys_def IsResourceMeshEnabled_def flag_on_iff fake_workload_meta_def gm_get_Cons gm_str_def true [simplified])
  show "e \<noteq> [] \<Longrightarrow> GetEnv p (fake_workload_meta p n a app e ns) n' ns' = e"
    using assms by (simp add: builder_keys_def GetEnv_def label_or_annotation_eq fake_workload_meta_def gm_get_Cons gm_str_def Let_def)
qed

text \<open>The loops visit every cluster, namespace and number once.\<close>

definition places :: "int \<Rightarrow> int \<Rightarrow> int \<Rightarrow> (nat \<times> nat \<times> nat) list" where
  "places a b n = List.product [0..<nat a] (List.product [0..<nat b] [0..<nat n])"

lemma distinct_places: "distinct (places a b n)"
  by (simp add: places_def distinct_product)

lemma length_places: "length (places a b n) = nat a * nat b * nat n"
  by (simp add: places_def)

lemma fold_puts:
  assumes "inj k"
  shows "fold (\<lambda>i. gm_put (k i) (v i)) [0..<n] [] = map (\<lambda>i. (k i, v i)) [0..<n]"
proof (induction n)
  case (Suc n)
  have new: "AList.update x y m = m @ [(x, y)]" if "x \<notin> fst ` set m" for x :: 'a and y :: 'b and m
    using that by (induction m) auto
  have "k n \<notin> fst ` set (map (\<lambda>i. (k i, v i)) [0..<n])" using inj_eq [OF assms] by auto
  from new [OF this] have "gm_put (k n) (v n) (map (\<lambda>i. (k i, v i)) [0..<n]) = map (\<lambda>i. (k i, v i)) [0..<n] @ [(k n, v n)]"
    by (simp only: gm_put_def)
  with Suc show ?case by simp
qed simp

lemma resources_map:
  "CreateClusterNamespaceNumResourcesMap a b n =
     map (\<lambda>i. (numbered ''cluster'' i, map (\<lambda>j. (numbered ''namespace'' j, n)) [0..<nat b])) [0..<nat a]"
  by (simp add: CreateClusterNamespaceNumResourcesMap_def fold_puts inj_def)

lemma fold_nested: "fold (\<lambda>x. fold (\<lambda>y. f x y) ys) xs s = fold (\<lambda>(x, y). f x y) (List.product xs ys) s"
  by (induction xs arbitrary: s) (simp_all add: fold_map comp_def)

lemma fold_places:
  "fold (\<lambda>(c, nss). fold (\<lambda>(ns, k). fold (\<lambda>i. f c ns i) [0..<nat k]) nss) (CreateClusterNamespaceNumResourcesMap a b n) s
     = fold (\<lambda>(c, w). g c w) (map (\<lambda>(c, j, i). (numbered ''cluster'' c, h (numbered ''namespace'' j) i)) (places a b n)) s"
  if "\<And>c ns i. f c ns i = g c (h ns i)"
proof -
  have inner: "fold (\<lambda>(ns, k). fold (\<lambda>i. f c ns i) [0..<nat k]) (map (\<lambda>j. (numbered ''namespace'' j, n)) [0..<nat b]) s
      = fold (\<lambda>(j, i). g c (h (numbered ''namespace'' j) i)) (List.product [0..<nat b] [0..<nat n]) s" for c s
    by (simp add: that fold_map comp_def fold_nested [symmetric])
  have "fold (\<lambda>(c, nss). fold (\<lambda>(ns, k). fold (\<lambda>i. f c ns i) [0..<nat k]) nss) (CreateClusterNamespaceNumResourcesMap a b n) s
      = fold (\<lambda>c. fold (\<lambda>(j, i). g (numbered ''cluster'' c) (h (numbered ''namespace'' j) i))
          (List.product [0..<nat b] [0..<nat n])) [0..<nat a] s"
    unfolding resources_map fold_map by (rule fold_cong) (auto simp: inner)
  also have "\<dots> = fold (\<lambda>(c, j, i). g (numbered ''cluster'' c) (h (numbered ''namespace'' j) i)) (places a b n) s"
    unfolding places_def by (subst fold_nested) (rule refl)
  also have "\<dots> = fold (\<lambda>(c, w). g c w) (map (\<lambda>(c, j, i). (numbered ''cluster'' c, h (numbered ''namespace'' j) i)) (places a b n)) s"
    unfolding fold_map by (rule fold_cong) auto
  finally show ?thesis .
qed

context keyed_cache
begin

text \<open>Objects for different slots that are added to an empty cache are what it holds.\<close>

lemma fill:
  assumes "distinct (map (\<lambda>(c, w). slot_of c w) xs)" "\<forall>(c, w) \<in> set xs. keeps w"
  shows "ok (fold (\<lambda>(c, w). add c w) xs emp) \<and> dom (look (fold (\<lambda>(c, w). add c w) xs emp)) = (\<lambda>(c, w). slot_of c w) ` set xs
    \<and> (\<forall>(c, w) \<in> set xs. look (fold (\<lambda>(c, w). add c w) xs emp) (slot_of c w) = Some w)"
  using assms
proof (induction xs rule: rev_induct)
  case Nil
  then show ?case by (simp add: ok_emp look_emp)
next
  case (snoc x xs)
  obtain c w where x: "x = (c, w)" by fastforce
  let ?s = "fold (\<lambda>(c, w). add c w) xs emp"
  have IH: "ok ?s" "dom (look ?s) = (\<lambda>(c, w). slot_of c w) ` set xs" "\<forall>(c, w) \<in> set xs. look ?s (slot_of c w) = Some w"
    using snoc by simp_all
  have put: "look (add c w ?s) = (look ?s)(slot_of c w \<mapsto> w)" using snoc.prems(2) by (simp add: look_add [OF IH(1)] x)
  have "(\<lambda>(c, w). slot_of c w) x \<notin> (\<lambda>(c, w). slot_of c w) ` set xs" using snoc.prems(1) by simp
  then have other: "slot_of c' w' \<noteq> slot_of c w" if "(c', w') \<in> set xs" for c' w'
    using that rev_image_eqI [OF that, of "slot_of c' w'" "\<lambda>(c, w). slot_of c w"] by (simp add: x) metis
  have "look (add c w ?s) (slot_of c' w') = Some w'" if "(c', w') \<in> set (xs @ [x])" for c' w'
    using that IH(3) other by (auto simp: put x)
  moreover have "fold (\<lambda>(c, w). add c w) (xs @ [x]) emp = add c w ?s" by (simp add: x)
  moreover have "dom (look (add c w ?s)) = (\<lambda>(c, w). slot_of c w) ` set (xs @ [x])" by (simp add: put IH(2) x)
  ultimately show ?case using ok_add [OF IH(1)] by (simp only:) blast
qed

end

text \<open>The objects of a filled cache, with their clusters.\<close>

definition placed :: "(string \<Rightarrow> nat \<Rightarrow> 'w) \<Rightarrow> nat \<times> nat \<times> nat \<Rightarrow> string \<times> 'w" where
  "placed h = (\<lambda>(c, j, i). (numbered ''cluster'' c, h (numbered ''namespace'' j) i))"

lemma filled_as_places:
  "BuildFakeDeploymentCache p (CreateClusterNamespaceNumResourcesMap a b n) s
     = fold (\<lambda>(c, w). Deployments_Add p c w) (map (placed (cached_deployment p)) (places a b n)) s"
  "BuildFakeRolloutsCache p (CreateClusterNamespaceNumResourcesMap a b n) s
     = fold (\<lambda>(c, w). Rollouts_Add p c w) (map (placed (cached_rollout p)) (places a b n)) s"
  "BuildFakeServiceCache p (CreateClusterNamespaceNumResourcesMap a b n) t
     = fold (\<lambda>(c, w). Services_Add c w) (map (placed (cached_service p)) (places a b n)) t"
  unfolding BuildFakeDeploymentCache_def BuildFakeRolloutsCache_def BuildFakeServiceCache_def placed_def
  by (rule fold_places [OF refl])+

lemma lower_words: "ToLower ''app.'' = ''app.''" "ToLower ''.deploy'' = ''.deploy''" "ToLower ''.rollout'' = ''.rollout''"
  "ToLower ''env'' = ''env''" "ToLower ''cluster'' = ''cluster''" "ToLower ''namespace'' = ''namespace''"
  by code_simp+

lemma fake_slots:
  assumes "builder_keys p"
  shows "Workload_slot p (numbered ''cluster'' c) (cached_deployment p (numbered ''namespace'' j) i)
      = (numbered ''cluster'' c, ''app.'' @ numbered ''namespace'' j @ ''.deploy'', numbered ''env'' i)"
    "Workload_slot p (numbered ''cluster'' c) (cached_rollout p (numbered ''namespace'' j) i)
      = (numbered ''cluster'' c, ''app.'' @ numbered ''namespace'' j @ ''.rollout'', numbered ''env'' i)"
    "Workload_keeps p (cached_deployment p ns i)" "Workload_keeps p (cached_rollout p ns i)"
proof -
  have ne: "numbered ''env'' i \<noteq> []" by (simp add: numbered_def)
  note reads = fake_meta_reads(1) [OF assms] fake_meta_reads(3) [OF assms ne]
  show "Workload_slot p (numbered ''cluster'' c) (cached_deployment p (numbered ''namespace'' j) i)
      = (numbered ''cluster'' c, ''app.'' @ numbered ''namespace'' j @ ''.deploy'', numbered ''env'' i)"
    "Workload_slot p (numbered ''cluster'' c) (cached_rollout p (numbered ''namespace'' j) i)
      = (numbered ''cluster'' c, ''app.'' @ numbered ''namespace'' j @ ''.rollout'', numbered ''env'' i)"
    by (simp_all add: Workload_slot_def Workload_identity_def Workload_env_def cached_deployment_def cached_rollout_def
        BuildFakeDeployment_def BuildFakeRollout_def Let_def reads numbered_lower lower_words del: ToLower_Cons append.simps)
  show "Workload_keeps p (cached_deployment p ns i)" "Workload_keeps p (cached_rollout p ns i)"
    by (simp_all add: Workload_keeps_def Workload_identity_def cached_deployment_def cached_rollout_def
        BuildFakeDeployment_def BuildFakeRollout_def Let_def reads)
qed

lemma filled_count:
  assumes "cc_ok s" "dom (cc_look s) = f ` set xs" "distinct (map f xs)"
  shows "cc_count s = length xs"
  using cc_count_look [OF assms(1)] distinct_card [OF assms(3)] by (simp add: assms(2))

subsection \<open>Properties\<close>

text \<open>
  The caches that are filled for a number of clusters, namespaces and objects per namespace hold one
  object for each of them and nothing else: their counters show the product of the three numbers, and each
  deployment and rollout is found under its cluster, identity and environment.
\<close>

theorem fake_caches_filled:
  assumes "builder_keys p" and m: "m = CreateClusterNamespaceNumResourcesMap a b n"
  shows "Deployments_GetNoOfDeployments (BuildFakeDeploymentCache p m Deployments_Reset) = nat a * nat b * nat n
    \<and> Rollouts_GetNoOfRollouts (BuildFakeRolloutsCache p m Rollouts_Reset) = nat a * nat b * nat n
    \<and> cc_count (BuildFakeServiceCache p m Services_Reset) = nat a * nat b * nat n
    \<and> (\<forall>c < nat a. \<forall>j < nat b. \<forall>i < nat n.
         Deployments_GetByClusterIdentityEnv (BuildFakeDeploymentCache p m Deployments_Reset) (numbered ''cluster'' c)
             (''app.'' @ numbered ''namespace'' j @ ''.deploy'') (numbered ''env'' i)
           = Some (cached_deployment p (numbered ''namespace'' j) i)
         \<and> Rollouts_GetByClusterIdentityEnv (BuildFakeRolloutsCache p m Rollouts_Reset) (numbered ''cluster'' c)
             (''app.'' @ numbered ''namespace'' j @ ''.rollout'') (numbered ''env'' i)
           = Some (cached_rollout p (numbered ''namespace'' j) i))"
proof -
  let ?ds = "map (placed (cached_deployment p)) (places a b n)" and ?rs = "map (placed (cached_rollout p)) (places a b n)"
  let ?ss = "map (placed (cached_service p)) (places a b n)"
  note slots = fake_slots [OF assms(1)]
  have inj: "inj_on f (set (places a b n)) \<Longrightarrow> distinct (map f (places a b n))" for f :: "nat \<times> nat \<times> nat \<Rightarrow> slot"
    by (simp add: distinct_map distinct_places)
  have dd: "distinct (map (\<lambda>(c, w). Workload_slot p c w) ?ds)" and dr: "distinct (map (\<lambda>(c, w). Workload_slot p c w) ?rs)"
    unfolding map_map by (rule inj; simp add: inj_on_def placed_def slots split_def; fastforce)+
  have dsv: "distinct (map (\<lambda>(c, s). (ToLower c, om_Namespace (svc_Meta s), om_Name (svc_Meta s))) ?ss)"
    unfolding map_map
    by (rule inj) (simp add: inj_on_def placed_def cached_service_def BuildFakeService_def numbered_lower lower_words split_def
      del: ToLower_Cons, fastforce)
  have kd: "\<forall>(c, w) \<in> set ?ds. Workload_keeps p w" and kr: "\<forall>(c, w) \<in> set ?rs. Workload_keeps p w"
    by (auto simp: placed_def slots)
  have ks: "\<forall>(c, w) \<in> set ?ss. True" by auto
  note d = dep_cache.fill [OF dd kd] and r = ro_cache.fill [OF dr kr] and s = svc_cache.fill [OF dsv ks]
  have "Deployments_GetNoOfDeployments (BuildFakeDeploymentCache p m Deployments_Reset) = nat a * nat b * nat n"
    "Rollouts_GetNoOfRollouts (BuildFakeRolloutsCache p m Rollouts_Reset) = nat a * nat b * nat n"
    "cc_count (BuildFakeServiceCache p m Services_Reset) = nat a * nat b * nat n"
    unfolding Deployments_GetNoOfDeployments_def Rollouts_GetNoOfRollouts_def m filled_as_places
    using filled_count [OF d [THEN conjunct1] d [THEN conjunct2, THEN conjunct1] dd]
      filled_count [OF r [THEN conjunct1] r [THEN conjunct2, THEN conjunct1] dr]
      filled_count [OF s [THEN conjunct1] s [THEN conjunct2, THEN conjunct1] dsv]
    by (simp_all only: length_map length_places)
  moreover have "Deployments_GetByClusterIdentityEnv (BuildFakeDeploymentCache p m Deployments_Reset) (numbered ''cluster'' c)
        (''app.'' @ numbered ''namespace'' j @ ''.deploy'') (numbered ''env'' i) = Some (cached_deployment p (numbered ''namespace'' j) i)"
    "Rollouts_GetByClusterIdentityEnv (BuildFakeRolloutsCache p m Rollouts_Reset) (numbered ''cluster'' c)
        (''app.'' @ numbered ''namespace'' j @ ''.rollout'') (numbered ''env'' i) = Some (cached_rollout p (numbered ''namespace'' j) i)"
    if "c < nat a" "j < nat b" "i < nat n" for c j i
  proof -
    have at: "(c, j, i) \<in> set (places a b n)" using that by (simp add: places_def)
    have "placed (cached_deployment p) (c, j, i) \<in> set ?ds" "placed (cached_rollout p) (c, j, i) \<in> set ?rs"
      using at by (simp_all only: set_map imageI)
    with d r have "cc_look (BuildFakeDeploymentCache p m Deployments_Reset)
          (Workload_slot p (numbered ''cluster'' c) (cached_deployment p (numbered ''namespace'' j) i)) = Some (cached_deployment p (numbered ''namespace'' j) i)"
      "cc_look (BuildFakeRolloutsCache p m Rollouts_Reset)
          (Workload_slot p (numbered ''cluster'' c) (cached_rollout p (numbered ''namespace'' j) i)) = Some (cached_rollout p (numbered ''namespace'' j) i)"
      unfolding m filled_as_places by (fastforce simp: placed_def)+
    then show "Deployments_GetByClusterIdentityEnv (BuildFakeDeploymentCache p m Deployments_Reset) (numbered ''cluster'' c)
        (''app.'' @ numbered ''namespace'' j @ ''.deploy'') (numbered ''env'' i) = Some (cached_deployment p (numbered ''namespace'' j) i)"
      "Rollouts_GetByClusterIdentityEnv (BuildFakeRolloutsCache p m Rollouts_Reset) (numbered ''cluster'' c)
        (''app.'' @ numbered ''namespace'' j @ ''.rollout'') (numbered ''env'' i) = Some (cached_rollout p (numbered ''namespace'' j) i)"
      by (simp_all add: Deployments_read Rollouts_read slots numbered_lower lower_words del: ToLower_Cons append.simps)
  qed
  ultimately show ?thesis by blast
qed

text \<open>
  A fake traffic config can be built from every data file with labels, annotations, two routes, a target
  and a quota; it has the identity and the environment it was asked for, an edge service and a quota group,
  and is disabled or ignored only if the data file says so.  But \<open>CreateFakeTrafficConfig\<close> gives it an
  identity only where the identity key is \<open>asset\<close>.
\<close>

lemma fake_config_identity:
  assumes "fill_traffic_config p preloaded key assetAlias env revision ns = Some tc" "assetAlias \<noteq> []" "env \<noteq> []" "key \<noteq> ''env''"
  shows "TC_GetEnv tc = env \<and> tc_EdgeService tc \<noteq> None \<and> tc_QuotaGroup tc \<noteq> None
    \<and> (TrafficConfigIdentityKey p = key \<longrightarrow> TC_GetIdentity p tc = assetAlias)"
  using assms
  by (auto simp: fill_traffic_config_def Let_def TC_GetEnv_def TC_GetIdentity_def TCEnvKey_def label_or_annotation_eq gm_str_def
      split: bind_splits list.splits)

subsection \<open>Witnesses\<close>

theorem fake_caches_filled_witness:
  "Deployments_GetNoOfDeployments (BuildFakeDeploymentCache (InitializeNaavikArgs None)
      (CreateClusterNamespaceNumResourcesMap 2 3 4) Deployments_Reset) = 24"
proof -
  have "builder_keys (InitializeNaavikArgs None)" by code_simp
  from fake_caches_filled [OF this refl, of 2 3 4] show ?thesis by simp
qed

end
