(* ===== verification/FakeClusters.thy ===== *)
theory FakeClusters
  imports Bootstrap Informers Builders FakeHandlers
begin

text \<open>
  The fake configuration loader of \<open>internal/fake/utils/k8s\<close>, whose kubeconfigs are made from a cluster's
  name and whose clients are kept by name, the fake controllers of \<open>internal/fake/controller\<close>, and what
  the secret handler makes of a fleet of clusters behind that loader.

  Turning a client configuration into a REST configuration is client-go's work, the parameter \<open>restConfig\<close>;
  \<open>restConfig_law\<close> states what is used of it.  The fake clientsets are numbered.
\<close>

subsection \<open>Kubeconfigs\<close>

record api_cluster =
  acl_Server :: string
  acl_TLSServerName :: string

record api_context =
  acx_Cluster :: string
  acx_AuthInfo :: string

record api_config =
  ac_Clusters :: "(string, api_cluster) gomap"
  ac_AuthInfos :: "(string, string) gomap"
  ac_Contexts :: "(string, api_context) gomap"
  ac_CurrentContext :: string

definition createValidTestConfig :: "string \<Rightarrow> api_config" where
  "createValidTestConfig clustername =
     \<lparr>ac_Clusters = gm_put clustername
        \<lparr>acl_Server = ''https://'' @ clustername @ ''.app.com:8080'', acl_TLSServerName = clustername\<rparr> [],
      ac_AuthInfos = gm_put clustername ''the-token'' [],
      ac_Contexts = gm_put clustername \<lparr>acx_Cluster = clustername, acx_AuthInfo = clustername\<rparr> [],
      ac_CurrentContext = clustername\<rparr>"

record rest_config =
  rest_Host :: string
  rest_ServerName :: string

type_synonym rest_fun = "api_config \<Rightarrow> string + rest_config"

text \<open>A complete configuration gives the server and the TLS server name of the cluster of its current context.\<close>

definition restConfig_law :: "rest_fun \<Rightarrow> bool" where
  "restConfig_law restConfig \<longleftrightarrow> (\<forall>config ctx cl token.
     ac_CurrentContext config \<noteq> [] \<and> gm_get (ac_Contexts config) (ac_CurrentContext config) = Some ctx
     \<and> gm_get (ac_Clusters config) (acx_Cluster ctx) = Some cl \<and> gm_get (ac_AuthInfos config) (acx_AuthInfo ctx) = Some token
     \<and> acl_Server cl \<noteq> [] \<longrightarrow>
     restConfig config = Inr \<lparr>rest_Host = acl_Server cl, rest_ServerName = acl_TLSServerName cl\<rparr>)"

subsection \<open>The loader\<close>

definition fake_Load :: "string \<Rightarrow> string + api_config" where
  "fake_Load data = Inr (createValidTestConfig data)"

definition fake_DefaultClientConfig :: "api_config \<Rightarrow> api_config" where
  "fake_DefaultClientConfig config = createValidTestConfig (ac_CurrentContext config)"

definition fake_RawConfigFromClientConfig :: "api_config \<Rightarrow> string + api_config" where
  "fake_RawConfigFromClientConfig clientConfig = Inr clientConfig"

definition fake_ClientConfig :: "rest_fun \<Rightarrow> api_config \<Rightarrow> string + rest_config" where
  "fake_ClientConfig restConfig clientConfig = restConfig clientConfig"

definition fake_GetConfigFromPath :: "rest_fun \<Rightarrow> string \<Rightarrow> string + rest_config" where
  "fake_GetConfigFromPath restConfig kubeConfigPath =
     fake_ClientConfig restConfig (fake_DefaultClientConfig (createValidTestConfig kubeConfigPath))"

text \<open>
  The clients handed out so far.  \<open>LoadOrStore\<close> makes a new client on every call and keeps it only when the
  name has none yet.
\<close>

record fake_clients =
  fc_k8s :: "(string, nat) gomap"
  fc_istio :: "(string, nat) gomap"
  fc_argo :: "(string, nat) gomap"
  fc_admiral :: "(string, nat) gomap"
  fc_next :: nat

definition LoadOrStore :: "string \<Rightarrow> (string, nat) gomap \<Rightarrow> nat \<Rightarrow> nat \<times> (string, nat) gomap" where
  "LoadOrStore key m new = (case gm_get m key of Some client \<Rightarrow> (client, m) | None \<Rightarrow> (new, gm_put key new m))"

definition fake_ClientFromConfig :: "rest_config \<Rightarrow> fake_clients \<Rightarrow> nat \<times> fake_clients" where
  "fake_ClientFromConfig config fc =
     (let (client, m) = LoadOrStore (rest_ServerName config) (fc_k8s fc) (fc_next fc)
      in (client, fc\<lparr>fc_k8s := m, fc_next := fc_next fc + 1\<rparr>))"

definition fake_ClientFromPath :: "string \<Rightarrow> fake_clients \<Rightarrow> nat \<times> fake_clients" where
  "fake_ClientFromPath kubeConfigPath fc =
     (let (client, m) = LoadOrStore kubeConfigPath (fc_k8s fc) (fc_next fc)
      in (client, fc\<lparr>fc_k8s := m, fc_next := fc_next fc + 1\<rparr>))"

definition fake_IstioClientFromConfig :: "rest_config \<Rightarrow> fake_clients \<Rightarrow> nat \<times> fake_clients" where
  "fake_IstioClientFromConfig config fc =
     (let (client, m) = LoadOrStore (rest_ServerName config) (fc_istio fc) (fc_next fc)
      in (client, fc\<lparr>fc_istio := m, fc_next := fc_next fc + 1\<rparr>))"

definition fake_ArgoClientFromConfig :: "rest_config \<Rightarrow> fake_clients \<Rightarrow> nat \<times> fake_clients" where
  "fake_ArgoClientFromConfig config fc =
     (let (client, m) = LoadOrStore (rest_ServerName config) (fc_argo fc) (fc_next fc)
      in (client, fc\<lparr>fc_argo := m, fc_next := fc_next fc + 1\<rparr>))"

definition fake_AdmiralClientFromConfig :: "rest_config \<Rightarrow> fake_clients \<Rightarrow> nat \<times> fake_clients" where
  "fake_AdmiralClientFromConfig config fc =
     (let (client, m) = LoadOrStore (rest_ServerName config) (fc_admiral fc) (fc_next fc)
      in (client, fc\<lparr>fc_admiral := m, fc_next := fc_next fc + 1\<rparr>))"

definition fake_AdmiralClientFromPath :: "rest_fun \<Rightarrow> string \<Rightarrow> fake_clients \<Rightarrow> string + nat \<times> fake_clients" where
  "fake_AdmiralClientFromPath restConfig kubeConfigPath fc =
     (case fake_GetConfigFromPath restConfig kubeConfigPath of
        Inl err \<Rightarrow> Inl err | Inr config \<Rightarrow> Inr (fake_AdmiralClientFromConfig config fc))"

definition fake_IstioClientFromPath :: "rest_fun \<Rightarrow> string \<Rightarrow> fake_clients \<Rightarrow> string + nat \<times> fake_clients" where
  "fake_IstioClientFromPath restConfig kubeConfigPath fc =
     (case fake_GetConfigFromPath restConfig kubeConfigPath of
        Inl err \<Rightarrow> Inl err | Inr config \<Rightarrow> Inr (fake_IstioClientFromConfig config fc))"

definition fake_ArgoClientFromPath :: "rest_fun \<Rightarrow> string \<Rightarrow> fake_clients \<Rightarrow> string + nat \<times> fake_clients" where
  "fake_ArgoClientFromPath restConfig kubeConfigPath fc =
     (case fake_GetConfigFromPath restConfig kubeConfigPath of
        Inl err \<Rightarrow> Inl err | Inr config \<Rightarrow> Inr (fake_ArgoClientFromConfig config fc))"

definition ResetFakeClients :: "fake_clients \<Rightarrow> fake_clients" where
  "ResetFakeClients fc = fc\<lparr>fc_k8s := [], fc_istio := [], fc_argo := [], fc_admiral := []\<rparr>"

text \<open>The loader as the resolver and the controllers see it: no client constructor fails.\<close>

definition fake_loader :: "rest_fun \<Rightarrow> (api_config, rest_config) loader" where
  "fake_loader restConfig =
     \<lparr>ld_GetKubeConfig = GetKubeConfig SecretConfigResolver,
      ld_Load = (\<lambda>data. map_sum id fake_DefaultClientConfig (fake_Load data)),
      ld_CurrentContext = (\<lambda>clientConfig. map_sum id ac_CurrentContext (fake_RawConfigFromClientConfig clientConfig)),
      ld_ClientConfig = fake_ClientConfig restConfig, ld_Host = rest_Host,
      ld_K8sClient = (\<lambda>_. None), ld_IstioClient = (\<lambda>_. None), ld_ArgoClient = (\<lambda>_. None), ld_AdmiralClient = (\<lambda>_. None)\<rparr>"

text \<open>A nil configuration panics when its server name is read.\<close>

definition BuildRemoteCluster :: "rest_fun \<Rightarrow> string \<Rightarrow> fake_clients \<Rightarrow> (api_config RemoteCluster \<times> fake_clients) option" where
  "BuildRemoteCluster restConfig name fc =
     (case fake_Load name of Inl _ \<Rightarrow> None | Inr k8sConfig \<Rightarrow>
        (let clientCmd = fake_DefaultClientConfig k8sConfig in
         case fake_GetConfigFromPath restConfig name of
           Inl _ \<Rightarrow> None
         | Inr config \<Rightarrow>
             (let (_, fc1) = fake_ClientFromConfig config fc;
                  (_, fc2) = fake_IstioClientFromConfig config fc1;
                  (_, fc3) = fake_AdmiralClientFromConfig config fc2;
                  (_, fc4) = fake_ArgoClientFromConfig config fc3
              in Some (CreateRemoteCluster name name name name clientCmd, fc4))))"

subsection \<open>Controllers\<close>

definition NewFakeSecretController :: "NaavikArgs \<Rightarrow> rest_fun \<Rightarrow> rest_config \<Rightarrow> api_config registry \<Rightarrow> api_config registry" where
  "NewFakeSecretController p restConfig config = NewSecretController p (fake_loader restConfig) (rest_ServerName config) config"

definition NewFakeDependencyController :: "NaavikArgs \<Rightarrow> rest_fun \<Rightarrow> rest_config \<Rightarrow> api_config registry \<Rightarrow> api_config registry" where
  "NewFakeDependencyController p restConfig config = NewDependencyController p (fake_loader restConfig) (rest_ServerName config) config"

definition NewFakeTrafficConfigController :: "NaavikArgs \<Rightarrow> rest_fun \<Rightarrow> rest_config \<Rightarrow> api_config registry \<Rightarrow> api_config registry" where
  "NewFakeTrafficConfigController p restConfig config = NewTrafficConfigController p (fake_loader restConfig) (rest_ServerName config) config"

definition NewFakeController ::
    "NaavikArgs \<Rightarrow> ('cc, 'rest) loader \<Rightarrow> string \<Rightarrow> 'rest \<Rightarrow> 'cc registry \<Rightarrow> 'cc registry" where
  "NewFakeController p configLoader name k8sConfig =
     NewController p ''mock-controller'' name (ld_Host configLoader k8sConfig) (ld_K8sClient configLoader k8sConfig)"

text \<open>The informer of the mock controller is made once; its resync period is never set.\<close>

definition FakeController_GetInformer :: "informer option \<Rightarrow> string \<Rightarrow> string \<Rightarrow> informer" where
  "FakeController_GetInformer made namespace labelSelector =
     (case made of Some i \<Rightarrow> i | None \<Rightarrow> Deployment_GetInformer
        \<lparr>cf_namespace = namespace, cf_labelSelector = labelSelector, cf_resyncPeriod = 0\<rparr>)"

text \<open>\<open>ResetAllCaches\<close> of \<open>internal/cache/cache.go\<close>.\<close>

definition ResetAllCaches :: "('cc, 'w) system \<times> fake_clients \<Rightarrow> ('cc, 'w) system \<times> fake_clients" where
  "ResetAllCaches = (\<lambda>(st, fc).
     (st\<lparr>sy_Deployments := Deployments_Reset, sy_Rollouts := Rollouts_Reset, sy_Services := Services_Reset,
         sy_Registry := (sy_Registry st)\<lparr>reg_controllers := CtlrCache_Reset, reg_clusters := RC_Reset\<rparr>,
         sy_IdentityCluster := IdentityCluster_Reset, sy_IdentityDependency := IdentityDependency_Reset,
         sy_TrafficConfigs := TCCache_Reset\<rparr>, ResetFakeClients fc))"

subsection \<open>A fleet\<close>

text \<open>The additions of a list of secrets, each with a status channel of its own.\<close>

definition fleet_added :: "NaavikArgs \<Rightarrow> ('cc, 'rest) loader \<Rightarrow> Secret list \<Rightarrow> 'cc registry \<Rightarrow> 'cc registry option" where
  "fleet_added p ld = foreach (\<lambda>secret reg.
     map_option (\<lambda>(_, reg', _). reg') (Secret_Added p ld (Some secret) (Some 0) (reg, sample_chans)))"

definition remote_kinds :: "NaavikArgs \<Rightarrow> string set" where
  "remote_kinds p = {''service-controller'', ''deployment-controller''} \<union> (if ArgoRolloutsEnabled p then {''rollouts-controller''} else {})"

lemma remote_kinds_lower: "kind \<in> remote_kinds p \<Longrightarrow> ToLower (kind @ ''/'' @ c) = kind @ ''/'' @ ToLower c"
proof -
  have "ToLower ''service-controller'' = ''service-controller''" "ToLower ''deployment-controller'' = ''deployment-controller''"
    "ToLower ''rollouts-controller'' = ''rollouts-controller''" "ToLower ''/'' = ''/''" by code_simp+
  then show "kind \<in> remote_kinds p \<Longrightarrow> ToLower (kind @ ''/'' @ c) = kind @ ''/'' @ ToLower c"
    by (auto simp: remote_kinds_def simp del: ToLower_Cons append.simps split: if_splits)
qed

lemma test_config_rest:
  assumes "restConfig_law restConfig" "c \<noteq> []"
  shows "restConfig (createValidTestConfig c) = Inr \<lparr>rest_Host = ''https://'' @ c @ ''.app.com:8080'', rest_ServerName = c\<rparr>"
  using assms(1) [unfolded restConfig_law_def, rule_format, of "createValidTestConfig c"] assms(2)
  by (simp add: createValidTestConfig_def)

lemma test_config_context: "ac_CurrentContext (createValidTestConfig c) = c"
  by (simp add: createValidTestConfig_def)

text \<open>The client of a cluster is the same however it is asked for, until the clients are reset.\<close>

lemma same_client:
  assumes "restConfig_law restConfig" "c \<noteq> []" "fake_GetConfigFromPath restConfig c = Inr config"
  shows "fst (fake_ClientFromConfig config (snd (fake_ClientFromPath c fc))) = fst (fake_ClientFromPath c fc)"
proof -
  have "rest_ServerName config = c"
    using assms(3) test_config_rest [OF assms(1,2)]
    by (auto simp: fake_GetConfigFromPath_def fake_ClientConfig_def fake_DefaultClientConfig_def test_config_context)
  then show ?thesis
    by (simp add: fake_ClientFromConfig_def fake_ClientFromPath_def LoadOrStore_def Let_def split: option.split)
qed

lemma started_controllers:
  "gm_get (reg_controllers (start_controller n name reg)) k \<noteq> None \<longleftrightarrow> k = ToLower name \<or> gm_get (reg_controllers reg) k \<noteq> None"
  "reg_closed (start_controller n name reg) = reg_closed reg"
  by (simp_all add: start_controller_def CtlrCache_Register_def)

text \<open>One member of the fleet.\<close>

lemma fleet_step:
  assumes law: "restConfig_law restConfig" and c: "c \<noteq> []" "gm_get (reg_clusters reg) (ToLower c) = None" and ok: "reg_ok reg"
  obtains reg' rc where "fleet_added p (fake_loader restConfig) [CreateRemoteClusterSecret p c ns] reg = Some reg'" "reg_ok reg'"
    "gm_get (reg_clusters reg') = (gm_get (reg_clusters reg))(ToLower c \<mapsto> rc)"
    "\<forall>k. gm_get (reg_controllers reg') k \<noteq> None \<longleftrightarrow>
       gm_get (reg_controllers reg) k \<noteq> None \<or> (\<exists>kind \<in> remote_kinds p. k = kind @ ''/'' @ ToLower c)"
    "reg_closed reg' = reg_closed reg"
proof -
  let ?ld = "fake_loader restConfig" and ?s = "CreateRemoteClusterSecret p c ns"
  let ?rest = "\<lparr>rest_Host = ''https://'' @ c @ ''.app.com:8080'', rest_ServerName = c\<rparr>"
  let ?rc = "CreateRemoteCluster c c (secret_id ?s) (rest_Host ?rest) (createValidTestConfig c)"
  let ?reg = "StartRemoteClusterControllers p ?ld ?rc (AddRemoteClusterToCache ?rc reg)"
  have rest: "restConfig (createValidTestConfig c) = Inr ?rest" by (rule test_config_rest [OF law c(1)])
  have resolve: "ResolveConfig ?ld c (secret_id ?s) c = Inr ?rc"
    by (simp add: ResolveConfig_def fake_loader_def GetKubeConfig_def fake_Load_def fake_DefaultClientConfig_def test_config_context
        fake_RawConfigFromClientConfig_def fake_ClientConfig_def rest)
  have "ToLower ''true'' = IsTrue" by code_simp
  then have sync: "IsSyncEnabled p (sec_Meta ?s)"
    by (simp add: IsSyncEnabled_def flag_on_iff CreateRemoteClusterSecret_def gm_str_def gm_get_Cons)
  have "secret_add_cluster p ?ld (secret_id ?s) (c, c) reg = ?reg"
    using c(2) by (simp add: secret_add_cluster_def GetRemoteClusterFromCache_def RC_GetCluster_def resolve)
  then have run: "fleet_added p ?ld [?s] reg = Some ?reg"
    using sync event_context(2) by (simp add: fleet_added_def Secret_Added_def Let_def SkipClose_open CreateRemoteClusterSecret_def)
  have clusters: "gm_get (reg_clusters ?reg) = (gm_get (reg_clusters reg))(ToLower c \<mapsto> ?rc)"
    by (auto simp: AddRemoteClusterToCache_def RC_AddCluster_def GetClusterID_def CreateRemoteCluster_def)
  define start :: "string \<Rightarrow> api_config registry \<Rightarrow> api_config registry"
    where "start = (\<lambda>kind. start_controller (WorkerConcurrency p) (kind @ ''/'' @ c))"
  have reg: "?reg = (let r = start ''deployment-controller'' (start ''service-controller'' (AddRemoteClusterToCache ?rc reg))
      in if ArgoRolloutsEnabled p then start ''rollouts-controller'' r else r)"
    using c(1) by (simp add: StartRemoteClusterControllers_def fake_loader_def fake_ClientConfig_def rest test_config_context CreateRemoteCluster_def
        fake_RawConfigFromClientConfig_def NewServiceController_def NewDeploymentController_def NewRolloutsController_def
        NewController_def controller_name_def start_def Let_def)
  have "reg_controllers (AddRemoteClusterToCache ?rc reg) = reg_controllers reg" "reg_closed (AddRemoteClusterToCache ?rc reg) = reg_closed reg"
    by (simp_all add: AddRemoteClusterToCache_def)
  note same = this
  have lower: "ToLower (''service-controller'' @ ''/'' @ c) = ''service-controller'' @ ''/'' @ ToLower c"
    "ToLower (''deployment-controller'' @ ''/'' @ c) = ''deployment-controller'' @ ''/'' @ ToLower c"
    "ToLower (''rollouts-controller'' @ ''/'' @ c) = ''rollouts-controller'' @ ''/'' @ ToLower c"
    by (rule remote_kinds_lower [where p = "p\<lparr>ArgoRolloutsEnabled := True\<rparr>"], simp add: remote_kinds_def)+
  have controllers: "gm_get (reg_controllers ?reg) k \<noteq> None \<longleftrightarrow>
       gm_get (reg_controllers reg) k \<noteq> None \<or> (\<exists>kind \<in> remote_kinds p. k = kind @ ''/'' @ ToLower c)" for k
    unfolding reg Let_def start_def remote_kinds_def
    by (cases "ArgoRolloutsEnabled p") (simp_all only: started_controllers(1) same lower if_True if_False, blast+)
  have "reg_closed ?reg = reg_closed reg" unfolding reg Let_def start_def by (simp add: started_controllers(2) AddRemoteClusterToCache_def)
  then show ?thesis
    by (intro that [OF run reg_ok_StartRemote [OF reg_ok_AddCluster [OF ok]] clusters] allI controllers)
qed

text \<open>The secrets of a fleet, in the order in which they are created.\<close>

definition fleet_secrets :: "NaavikArgs \<Rightarrow> int \<Rightarrow> string \<Rightarrow> string \<Rightarrow> Secret list" where
  "fleet_secrets p n prefix ns = CreateNRemoteClusterSecret p (\<lambda>_ secret secrets. secrets @ [secret]) n prefix ns []"

lemma fleet_secrets_map:
  "fleet_secrets p n prefix ns = map (\<lambda>i. CreateRemoteClusterSecret p (numbered prefix i) ns) [1..<nat n + 1]"
proof -
  have "fold (\<lambda>i secrets. secrets @ [f (i + 1)]) [0..<m] [] = map f [1..<m + 1]" for f :: "nat \<Rightarrow> Secret" and m
    by (induction m) simp_all
  from this [of "\<lambda>i. CreateRemoteClusterSecret p (numbered prefix i) ns" "nat n"] show ?thesis
    by (simp only: fleet_secrets_def CreateNRemoteClusterSecret_def)
qed

definition fleet_registry :: "NaavikArgs \<Rightarrow> string \<Rightarrow> nat \<Rightarrow> 'cc registry \<Rightarrow> bool" where
  "fleet_registry p prefix m reg \<longleftrightarrow> reg_ok reg \<and> reg_closed reg = {}
     \<and> (\<forall>k. gm_get (reg_clusters reg) k \<noteq> None \<longleftrightarrow> (\<exists>i \<in> {1..m}. k = numbered (ToLower prefix) i))
     \<and> (\<forall>k. gm_get (reg_controllers reg) k \<noteq> None \<longleftrightarrow>
          (\<exists>i \<in> {1..m}. \<exists>kind \<in> remote_kinds p. k = kind @ ''/'' @ numbered (ToLower prefix) i))"

lemma fleet_grows:
  assumes law: "restConfig_law restConfig"
  shows "\<exists>reg. fleet_added p (fake_loader restConfig) (map (\<lambda>i. CreateRemoteClusterSecret p (numbered prefix i) ns) [1..<m + 1])
      emptyRegistry = Some reg \<and> fleet_registry p prefix m reg"
proof (induction m)
  case 0
  show ?case using reg_ok_empty by (simp add: fleet_added_def fleet_registry_def emptyRegistry_def RC_Reset_def CtlrCache_Reset_def)
next
  case (Suc m)
  then obtain reg where reg: "fleet_added p (fake_loader restConfig) (map (\<lambda>i. CreateRemoteClusterSecret p (numbered prefix i) ns) [1..<m + 1])
      emptyRegistry = Some reg" "fleet_registry p prefix m reg" by blast
  let ?c = "numbered prefix (m + 1)"
  have "gm_get (reg_clusters reg) k \<noteq> None \<longleftrightarrow> (\<exists>i \<in> {1..m}. k = numbered (ToLower prefix) i)" for k
    using reg(2) unfolding fleet_registry_def by blast
  from this [of "ToLower ?c"] have new: "gm_get (reg_clusters reg) (ToLower ?c) = None" by (auto simp: numbered_lower)
  have ne: "?c \<noteq> []" by (simp add: numbered_def)
  have ok: "reg_ok reg" using reg(2) by (simp add: fleet_registry_def)
  obtain reg' rc where r: "fleet_added p (fake_loader restConfig) [CreateRemoteClusterSecret p ?c ns] reg = Some reg'" "reg_ok reg'"
    "gm_get (reg_clusters reg') = (gm_get (reg_clusters reg))(ToLower ?c \<mapsto> rc)"
    "\<forall>k. gm_get (reg_controllers reg') k \<noteq> None \<longleftrightarrow>
       gm_get (reg_controllers reg) k \<noteq> None \<or> (\<exists>kind \<in> remote_kinds p. k = kind @ ''/'' @ ToLower ?c)"
    "reg_closed reg' = reg_closed reg"
    by (rule fleet_step [OF law ne new ok, of p ns])
  have range: "{1..Suc m} = insert (m + 1) {1..m}" by auto
  have "fleet_registry p prefix (Suc m) reg'"
    using reg(2) r(2-5) unfolding fleet_registry_def range numbered_lower by auto
  moreover have "fleet_added p (fake_loader restConfig) (map (\<lambda>i. CreateRemoteClusterSecret p (numbered prefix i) ns) [1..<Suc m + 1])
      emptyRegistry = Some reg'"
    using reg(1) r(1) by (simp add: fleet_added_def foreach_append)
  ultimately show ?case by blast
qed

subsection \<open>Properties\<close>

text \<open>
  C20: the secret handler registers a whole fleet of clusters, and what the loss of a member does to it.
  After the secrets of n clusters with numbered names are added, exactly these clusters are cached, exactly
  their controllers run, and no stop channel is closed.  When the secret of the i-th is deleted its cluster
  alone is forgotten; but the controllers of every cluster whose number begins with the digits of i are
  stopped, so with ten clusters the first one takes the tenth with it; and when the names have upper-case
  letters no controller is stopped at all.
\<close>

theorem fleet_member_deleted:
  assumes "restConfig_law restConfig" "i \<in> {1..nat n}"
  shows "\<exists>reg. fleet_added p (fake_loader restConfig) (fleet_secrets p n prefix ns) emptyRegistry = Some reg
    \<and> fleet_registry p prefix (nat n) reg
    \<and> (\<exists>status reg' cs'. Secret_Deleted (Some (CreateRemoteClusterSecret p (numbered prefix i) ns)) (Some 0) (reg, sample_chans)
          = Some (status, reg', cs')
        \<and> (\<forall>k. gm_get (reg_clusters reg') k \<noteq> None \<longleftrightarrow> (\<exists>j \<in> {1..nat n} - {i}. k = numbered (ToLower prefix) j))
        \<and> (\<forall>j \<in> {1..nat n}. \<forall>kind \<in> remote_kinds p.
             gm_get (reg_controllers reg') (kind @ ''/'' @ numbered (ToLower prefix) j) = None
               \<longleftrightarrow> ToLower prefix = prefix \<and> (\<exists>rest. decimal j = decimal i @ rest)))"
proof -
  let ?s = "CreateRemoteClusterSecret p (numbered prefix i) ns" and ?low = "ToLower prefix"
  obtain reg where reg: "fleet_added p (fake_loader restConfig) (fleet_secrets p n prefix ns) emptyRegistry = Some reg"
    "fleet_registry p prefix (nat n) reg"
    using fleet_grows [OF assms(1)] unfolding fleet_secrets_map by blast
  have ok: "reg_ok reg" and clusters: "gm_get (reg_clusters reg) k \<noteq> None \<longleftrightarrow> (\<exists>j \<in> {1..nat n}. k = numbered ?low j)"
    and controllers: "gm_get (reg_controllers reg) k \<noteq> None \<longleftrightarrow>
      (\<exists>j \<in> {1..nat n}. \<exists>kind \<in> remote_kinds p. k = kind @ ''/'' @ numbered ?low j)" for k
    using reg(2) unfolding fleet_registry_def by blast+
  have data: "fst ` set (sec_Data ?s) = {numbered prefix i}" by (simp add: CreateRemoteClusterSecret_def)
  obtain reg' where r: "secret_drop_clusters ?s reg = Some reg'"
    "gm_get (reg_clusters reg') = (\<lambda>k. if k \<in> ToLower ` fst ` set (sec_Data ?s) then None else gm_get (reg_clusters reg) k)"
    "gm_get (reg_controllers reg') = (\<lambda>name. if \<exists>c \<in> fst ` set (sec_Data ?s). stops_controller c name then None
       else gm_get (reg_controllers reg) name)"
    by (rule drop_clusters_effect [OF ok])
  have run: "Secret_Deleted (Some ?s) (Some 0) (reg, sample_chans) = Some (EventSkip, reg', close_with 0 skip_status sample_chans)"
    using r(1) by (simp add: Secret_Deleted_def skip_settles [OF event_context(2)])
  have "gm_get (reg_clusters reg') k \<noteq> None \<longleftrightarrow> (\<exists>j \<in> {1..nat n} - {i}. k = numbered ?low j)" for k
    using clusters [of k] by (auto simp: r(2) data numbered_lower)
  moreover have "gm_get (reg_controllers reg') (kind @ ''/'' @ numbered ?low j) = None
      \<longleftrightarrow> ?low = prefix \<and> (\<exists>rest. decimal j = decimal i @ rest)"
    if j: "j \<in> {1..nat n}" "kind \<in> remote_kinds p" for j kind
  proof -
    have "kind \<in> {''service-controller'', ''deployment-controller'', ''rollouts-controller''}"
      using j(2) by (auto simp: remote_kinds_def split: if_splits)
    then have stops: "stops_controller (numbered prefix i) (kind @ ''/'' @ numbered ?low j) \<longleftrightarrow> Contains (numbered ?low j) (numbered prefix i)"
      by (rule stops_remote)
    have "gm_get (reg_controllers reg) (kind @ ''/'' @ numbered ?low j) \<noteq> None" using controllers j by blast
    moreover have "gm_get (reg_controllers reg') k = (if stops_controller (numbered prefix i) k then None else gm_get (reg_controllers reg) k)" for k
      by (simp add: r(3) data)
    ultimately have "gm_get (reg_controllers reg') (kind @ ''/'' @ numbered ?low j) = None \<longleftrightarrow> Contains (numbered ?low j) (numbered prefix i)"
      unfolding stops [symmetric] by (metis (no_types))
    moreover have "?low = prefix" if con: "Contains (numbered ?low j) (numbered prefix i)"
    proof -
      obtain a b where "numbered ?low j = a @ numbered prefix i @ b" using con by (auto simp: Contains_iff)
      then have "ToLower a @ ToLower (numbered prefix i) @ ToLower b = a @ numbered prefix i @ b"
        by (metis ToLower_append ToLower_idem numbered_lower)
      then have "ToLower (numbered prefix i) = numbered prefix i" by (simp add: append_eq_append_conv)
      then show ?thesis by (simp add: numbered_lower) (simp add: numbered_def)
    qed
    ultimately show ?thesis using numbered_contains [of prefix j i] by auto
  qed
  ultimately show ?thesis using reg run by blast
qed

subsection \<open>Witnesses\<close>

text \<open>client-go's REST configuration as a function of complete configurations.\<close>

definition sample_restConfig :: rest_fun where
  "sample_restConfig config =
     (case gm_get (ac_Contexts config) (ac_CurrentContext config) of None \<Rightarrow> Inl ''context'' | Some ctx \<Rightarrow>
     (case gm_get (ac_Clusters config) (acx_Cluster ctx) of None \<Rightarrow> Inl ''cluster'' | Some cl \<Rightarrow>
        Inr \<lparr>rest_Host = acl_Server cl, rest_ServerName = acl_TLSServerName cl\<rparr>))"

text \<open>Ten clusters, of which the first goes away.\<close>

theorem fleet_member_deleted_witness:
  "\<exists>reg status reg' cs'. fleet_added (InitializeNaavikArgs None) (fake_loader sample_restConfig)
       (fleet_secrets (InitializeNaavikArgs None) 10 ''cluster'' ''admiral'') emptyRegistry = Some reg
     \<and> Secret_Deleted (Some (CreateRemoteClusterSecret (InitializeNaavikArgs None) (numbered ''cluster'' 1) ''admiral'')) (Some 0)
         (reg, sample_chans) = Some (status, reg', cs')
     \<and> gm_get (reg_clusters reg') (numbered ''cluster'' 10) \<noteq> None
     \<and> gm_get (reg_controllers reg') (''service-controller'' @ ''/'' @ numbered ''cluster'' 10) = None
     \<and> gm_get (reg_controllers reg') (''service-controller'' @ ''/'' @ numbered ''cluster'' 2) \<noteq> None"
proof -
  let ?p = "InitializeNaavikArgs None"
  have law: "restConfig_law sample_restConfig" by (auto simp: restConfig_law_def sample_restConfig_def)
  have i: "1 \<in> {1..nat 10}" by simp
  have low: "ToLower ''cluster'' = ''cluster''" by (rule lower_words)
  have "decimal 10 = ''10''" "decimal 1 = ''1''" "decimal 2 = ''2''" by code_simp+
  then have d: "decimal 10 = decimal 1 @ ''0''" "\<nexists>rest. decimal 2 = decimal 1 @ rest" by simp_all
  obtain reg status reg' cs' where r: "fleet_added ?p (fake_loader sample_restConfig) (fleet_secrets ?p 10 ''cluster'' ''admiral'') emptyRegistry = Some reg"
    "Secret_Deleted (Some (CreateRemoteClusterSecret ?p (numbered ''cluster'' 1) ''admiral'')) (Some 0) (reg, sample_chans) = Some (status, reg', cs')"
    "\<forall>k. gm_get (reg_clusters reg') k \<noteq> None \<longleftrightarrow> (\<exists>j \<in> {1..nat 10} - {1}. k = numbered ''cluster'' j)"
    "\<forall>j \<in> {1..nat 10}. \<forall>kind \<in> remote_kinds ?p. gm_get (reg_controllers reg') (kind @ ''/'' @ numbered ''cluster'' j) = None
       \<longleftrightarrow> ''cluster'' = ''cluster'' \<and> (\<exists>rest. decimal j = decimal 1 @ rest)"
    using fleet_member_deleted [OF law i, of ?p "''cluster''" "''admiral''"] unfolding low by (elim exE conjE) (rule that)
  have in10: "10 \<in> {1..nat 10}" "2 \<in> {1..nat 10}" "10 \<in> {1..nat 10} - {1}" by simp_all
  have kind: "''service-controller'' \<in> remote_kinds ?p" by (simp add: remote_kinds_def)
  have "gm_get (reg_clusters reg') (numbered ''cluster'' 10) \<noteq> None" using r(3) in10(3) by blast
  moreover have "gm_get (reg_controllers reg') (''service-controller'' @ ''/'' @ numbered ''cluster'' 10) = None"
    using r(4) [rule_format, OF in10(1) kind] d(1) by blast
  moreover have "gm_get (reg_controllers reg') (''service-controller'' @ ''/'' @ numbered ''cluster'' 2) \<noteq> None"
    using r(4) [rule_format, OF in10(2) kind] d(2) by blast
  ultimately show ?thesis using r(1,2) by blast
qed

end
