(* ===== verification/Sections.thy ===== *)
theory Sections
  imports EventStatus
begin

text \<open>
  Goroutines that run at the same time.  A goroutine is a resumption: it has returned, or it runs a
  section, a piece of code no other goroutine gets into (an operation of a cache under its mutex, a read
  of a package variable, a request to an API server), and goes on as the state it found tells it.  A
  section that panics ends the whole program.

  A scheduler picks goroutines one after the other; every sequence of picks is a run.  The last part
  gives a rule for runs of any number of goroutines and any order: what one goroutine still owes.
\<close>

datatype ('s, 'a) activity = Return 'a | Section "'s \<Rightarrow> ('s \<times> ('s, 'a) activity) option"

lemma activity_induct [case_names Return Section]:
  assumes "\<And>a. P (Return a)" "\<And>f. (\<And>s s' p. f s = Some (s', p) \<Longrightarrow> P p) \<Longrightarrow> P (Section f)"
  shows "P p"
  by (rule activity.induct, rule assms(1), rule assms(2)) (metis option.set_intros prod_set_simps(2) rangeI singletonI)

text \<open>One after the other.\<close>

primrec then_do :: "('s, 'a) activity \<Rightarrow> ('a \<Rightarrow> ('s, 'b) activity) \<Rightarrow> ('s, 'b) activity" where
  "then_do (Return a) k = k a"
| "then_do (Section f) k = Section (map_option (map_prod id (\<lambda>p. then_do p k)) \<circ> f)"

text \<open>Read the state, change it, or panic.\<close>

definition ask :: "('s \<Rightarrow> 'b) \<Rightarrow> ('b \<Rightarrow> ('s, 'a) activity) \<Rightarrow> ('s, 'a) activity" where
  "ask g k = Section (\<lambda>s. Some (s, k (g s)))"

definition act :: "('s \<Rightarrow> 's option) \<Rightarrow> ('s, 'a) activity \<Rightarrow> ('s, 'a) activity" where
  "act f p = Section (\<lambda>s. map_option (\<lambda>s'. (s', p)) (f s))"

definition crash :: "('s, 'a) activity" where
  "crash = Section (\<lambda>_. None)"

primrec each :: "('x \<Rightarrow> ('s, unit) activity) \<Rightarrow> 'x list \<Rightarrow> ('s, unit) activity" where
  "each f [] = Return ()"
| "each f (x # xs) = then_do (f x) (\<lambda>_. each f xs)"

subsection \<open>A goroutine alone\<close>

primrec alone :: "('s, 'a) activity \<Rightarrow> 's \<Rightarrow> ('a \<times> 's) option" where
  "alone (Return a) = (\<lambda>s. Some (a, s))"
| "alone (Section f) = (\<lambda>s. case map_option (map_prod id alone) (f s) of None \<Rightarrow> None | Some (s', go) \<Rightarrow> go s')"

lemma alone_Section: "alone (Section f) s = (case f s of None \<Rightarrow> None | Some (s', p) \<Rightarrow> alone p s')"
  by (simp split: option.split)

declare alone.simps(2) [simp del]

lemma alone_then: "alone (then_do p k) s = Option.bind (alone p s) (\<lambda>(a, s'). alone (k a) s')"
proof (induction p arbitrary: s rule: activity_induct)
  case (Section f)
  then show ?case by (auto simp: alone_Section split: option.split)
qed simp

lemma alone_simps [simp]:
  "alone (ask g k) s = alone (k (g s)) s"
  "alone (act f p) s = Option.bind (f s) (alone p)"
  "alone crash s = None"
  by (simp_all add: ask_def act_def crash_def alone_Section split: option.split)

lemma alone_each:
  assumes "\<And>x s. x \<in> set xs \<Longrightarrow> alone (f x) s = map_option (Pair ()) (g x s)"
  shows "alone (each f xs) s = map_option (Pair ()) (foreach g xs s)"
  using assms by (induction xs arbitrary: s) (simp_all add: alone_then split: option.split bind_split)

subsection \<open>Goroutines together\<close>

text \<open>A pick of a goroutine that has returned, or of none, does nothing.\<close>

definition advance :: "nat \<Rightarrow> 's \<times> ('s, 'a) activity list \<Rightarrow> ('s \<times> ('s, 'a) activity list) option" where
  "advance j = (\<lambda>(s, ps). if j < length ps
     then (case ps ! j of Return _ \<Rightarrow> Some (s, ps) | Section f \<Rightarrow> map_option (\<lambda>(s', p). (s', ps[j := p])) (f s))
     else Some (s, ps))"

definition interleave :: "nat list \<Rightarrow> 's \<times> ('s, 'a) activity list \<Rightarrow> ('s \<times> ('s, 'a) activity list) option" where
  "interleave = foreach advance"

definition finished :: "('s, 'a) activity list \<Rightarrow> bool" where
  "finished ps \<longleftrightarrow> (\<forall>p \<in> set ps. \<exists>a. p = Return a)"

lemma interleave_append: "interleave (xs @ ys) c = Option.bind (interleave xs c) (interleave ys)"
  by (simp add: interleave_def foreach_append)

lemma interleave_step: "interleave (j # js) c = Option.bind (advance j c) (interleave js)"
  by (simp add: interleave_def split: option.split)

text \<open>A goroutine that is picked until it returns does what it does alone.\<close>

lemma interleave_alone:
  assumes "alone p s = Some (a, s')" "j < length ps"
  shows "\<exists>n. interleave (replicate n j) (s, ps[j := p]) = Some (s', ps[j := Return a])"
  using assms(1)
proof (induction p arbitrary: s rule: activity_induct)
  case (Return b)
  then show ?case by (intro exI [of _ 0]) (simp add: interleave_def)
next
  case (Section f)
  obtain t q where f: "f s = Some (t, q)" "alone q t = Some (a, s')"
    using Section.prems by (auto simp: alone_Section split: option.splits)
  obtain n where n: "interleave (replicate n j) (t, ps[j := q]) = Some (s', ps[j := Return a])"
    using Section.IH f by blast
  have "advance j (s, ps[j := Section f]) = Some (t, ps[j := q])" using f(1) assms(2) by (simp add: advance_def)
  with n have "interleave (replicate (Suc n) j) (s, ps[j := Section f]) = Some (s', ps[j := Return a])"
    by (simp add: interleave_step)
  then show ?case by blast
qed

subsection \<open>What a goroutine owes\<close>

text \<open>
  The state has a part \<open>'x\<close> and the channels.  While \<open>K\<close> holds, some things are \<open>due\<close>, and a due thing may be
  \<open>met\<close>.  A goroutine owes a thing when, whatever the others do meanwhile, it will meet it unless it
  stops being due.
\<close>

inductive owes :: "('x \<Rightarrow> bool) \<Rightarrow> ('x \<Rightarrow> 'i \<Rightarrow> bool) \<Rightarrow> ('x \<Rightarrow> 'i \<Rightarrow> bool) \<Rightarrow> 'i \<Rightarrow> ('x \<times> chans, 'a) activity \<Rightarrow> bool"
  for K due met i where
  owes_Section: "(\<And>x cs x' cs' p. K x \<Longrightarrow> due x i \<Longrightarrow> f (x, cs) = Some ((x', cs'), p) \<Longrightarrow> met x' i \<or> owes K due met i p)
    \<Longrightarrow> owes K due met i (Section f)"

inductive_simps owes_Section_iff: "owes K due met i (Section f)"
inductive_simps owes_Return [simp]: "owes K due met i (Return a)"

lemma owes_then1: "owes K due met i p \<Longrightarrow> owes K due met i (then_do p k)"
proof (induction rule: owes.induct)
  case (owes_Section f)
  show ?case
    unfolding then_do.simps
  proof (rule owes.intros)
    fix x cs x' cs' p
    assume "K x" "due x i" "(map_option (map_prod id (\<lambda>p. then_do p k)) \<circ> f) (x, cs) = Some ((x', cs'), p)"
    with owes_Section show "met x' i \<or> owes K due met i p" by fastforce
  qed
qed

lemma owes_then2: "(\<And>a. owes K due met i (k a)) \<Longrightarrow> owes K due met i (then_do p k)"
proof (induction p rule: activity_induct)
  case (Section f)
  show ?case
    unfolding then_do.simps
  proof (rule owes.intros)
    fix x cs x' cs' p
    assume "(map_option (map_prod id (\<lambda>p. then_do p k)) \<circ> f) (x, cs) = Some ((x', cs'), p)"
    with Section show "met x' i \<or> owes K due met i p" by fastforce
  qed
qed simp

lemma owes_each: "x \<in> set xs \<Longrightarrow> owes K due met i (f x) \<Longrightarrow> owes K due met i (each f xs)"
  by (induction xs) (auto intro: owes_then1 owes_then2)

lemma owes_ask: "(\<And>x cs. K x \<Longrightarrow> due x i \<Longrightarrow> owes K due met i (k (g (x, cs)))) \<Longrightarrow> owes K due met i (ask g k)"
  unfolding ask_def by (rule owes.intros) blast

lemma owes_act: "owes K due met i p \<Longrightarrow> owes K due met i (act f p)"
  unfolding act_def by (rule owes.intros) (auto split: option.splits)

text \<open>
  A goroutine that works with its own open channels and keeps \<open>K\<close>; after each section a due thing is met,
  or owed by the rest, or it was due before and has not become unmet.  At the end it still has the open
  channels \<open>post\<close>.
\<close>

definition keeps_met :: "('x \<Rightarrow> 'i \<Rightarrow> bool) \<Rightarrow> ('x \<Rightarrow> 'i \<Rightarrow> bool) \<Rightarrow> 'x \<Rightarrow> 'x \<Rightarrow> 'i \<Rightarrow> bool" where
  "keeps_met due met x x' i \<longleftrightarrow> due x i \<and> (met x i \<longrightarrow> met x' i)"

definition own_open :: "nat set \<Rightarrow> chans \<Rightarrow> bool" where
  "own_open own cs \<longleftrightarrow> (\<forall>c \<in> own. chan_open c cs)"

inductive safe :: "('x \<Rightarrow> bool) \<Rightarrow> ('x \<Rightarrow> 'i \<Rightarrow> bool) \<Rightarrow> ('x \<Rightarrow> 'i \<Rightarrow> bool) \<Rightarrow> nat set \<Rightarrow> nat set
    \<Rightarrow> ('x \<times> chans, 'a) activity \<Rightarrow> bool"
  for K due met post where
  safe_Return: "post \<subseteq> own \<Longrightarrow> safe K due met post own (Return a)"
| safe_Section: "(\<And>x cs. K x \<Longrightarrow> own_open own cs \<Longrightarrow> \<exists>x' cs' p own'. f (x, cs) = Some ((x', cs'), p) \<and> K x'
      \<and> grows own cs cs' \<and> own' \<subseteq> own \<union> {length cs..<length cs'} \<and> own_open own' cs' \<and> safe K due met post own' p
      \<and> (\<forall>i. due x' i \<longrightarrow> met x' i \<or> owes K due met i p \<or> keeps_met due met x x' i))
    \<Longrightarrow> safe K due met post own (Section f)"

lemma own_open_fewer: "own_open own cs \<Longrightarrow> own' \<subseteq> own \<Longrightarrow> own_open own' cs"
  by (auto simp: own_open_def)

lemma grows_more: "grows own cs cs' \<Longrightarrow> own \<subseteq> own' \<Longrightarrow> grows own' cs cs'"
  by (auto simp: grows_def)

lemma safe_more: "safe K due met post own p \<Longrightarrow> own \<subseteq> own' \<Longrightarrow> safe K due met post own' p"
proof (induction arbitrary: own' rule: safe.induct)
  case (safe_Section own f)
  show ?case
  proof (rule safe.safe_Section)
    fix x cs
    assume "K x" "own_open own' cs"
    with safe_Section.prems have "own_open own cs" by (blast intro: own_open_fewer)
    from safe_Section(1) [OF \<open>K x\<close> this] obtain x' cs' p own1 where
      "f (x, cs) = Some ((x', cs'), p)" "K x'" "grows own cs cs'" "own1 \<subseteq> own \<union> {length cs..<length cs'}" "own_open own1 cs'"
      "safe K due met post own1 p" "\<forall>i. due x' i \<longrightarrow> met x' i \<or> owes K due met i p \<or> keeps_met due met x x' i" by blast
    with safe_Section.prems show "\<exists>x' cs' p own1. f (x, cs) = Some ((x', cs'), p) \<and> K x' \<and> grows own' cs cs'
        \<and> own1 \<subseteq> own' \<union> {length cs..<length cs'} \<and> own_open own1 cs' \<and> safe K due met post own1 p
        \<and> (\<forall>i. due x' i \<longrightarrow> met x' i \<or> owes K due met i p \<or> keeps_met due met x x' i)"
      by (intro exI [of _ x'] exI [of _ cs'] exI [of _ p] exI [of _ own1]) (auto intro: grows_more)
  qed
qed (auto intro: safe.safe_Return)

lemma safe_then:
  assumes "safe K due met mid own p" "\<And>a. safe K due met post mid (k a)"
  shows "safe K due met post own (then_do p k)"
  using assms(1)
proof (induction rule: safe.induct)
  case (safe_Return own a)
  then show ?case using safe_more [OF assms(2)] by simp
next
  case (safe_Section own f)
  show ?case
    unfolding then_do.simps
  proof (rule safe.safe_Section)
    fix x cs
    assume "K x" "own_open own cs"
    from safe_Section [OF this] obtain x' cs' p own1 where
      "f (x, cs) = Some ((x', cs'), p)" "K x'" "grows own cs cs'" "own1 \<subseteq> own \<union> {length cs..<length cs'}" "own_open own1 cs'"
      "safe K due met post own1 (then_do p k)" "\<forall>i. due x' i \<longrightarrow> met x' i \<or> owes K due met i p \<or> keeps_met due met x x' i" by blast
    then show "\<exists>x' cs' p own1. (map_option (map_prod id (\<lambda>p. then_do p k)) \<circ> f) (x, cs) = Some ((x', cs'), p) \<and> K x' \<and> grows own cs cs'
        \<and> own1 \<subseteq> own \<union> {length cs..<length cs'} \<and> own_open own1 cs' \<and> safe K due met post own1 p
        \<and> (\<forall>i. due x' i \<longrightarrow> met x' i \<or> owes K due met i p \<or> keeps_met due met x x' i)"
      by (intro exI [of _ x'] exI [of _ cs'] exI [of _ "then_do p k"] exI [of _ own1]) (auto intro: owes_then1)
  qed
qed

text \<open>Open channels a goroutine does not use stay its own.\<close>

lemma safe_frame: "safe K due met post own p \<Longrightarrow> rest \<inter> own = {} \<Longrightarrow> safe K due met (post \<union> rest) (own \<union> rest) p"
proof (induction rule: safe.induct)
  case (safe_Section own f)
  show ?case
  proof (rule safe.safe_Section)
    fix x cs
    assume x: "K x" and opened: "own_open (own \<union> rest) cs"
    then have "own_open own cs" by (auto intro: own_open_fewer)
    from safe_Section(1) [OF x this] obtain x' cs' p own1 where
      step: "f (x, cs) = Some ((x', cs'), p)" "K x'" "grows own cs cs'" "own1 \<subseteq> own \<union> {length cs..<length cs'}" "own_open own1 cs'"
      "rest \<inter> own1 = {} \<longrightarrow> safe K due met (post \<union> rest) (own1 \<union> rest) p"
      "\<forall>i. due x' i \<longrightarrow> met x' i \<or> owes K due met i p \<or> keeps_met due met x x' i" by blast
    have old: "c < length cs \<and> chan_open c cs \<and> c \<notin> own" if "c \<in> rest" for c
      using opened safe_Section.prems that by (auto simp: own_open_def chan_open_def)
    then have "rest \<inter> own1 = {}" using step(4) by fastforce
    moreover have "chan_open c cs'" if "c \<in> rest" for c
      using step(3) old [OF that] by (auto simp: grows_def chan_open_def)
    with step(5) have "own_open (own1 \<union> rest) cs'" by (auto simp: own_open_def)
    ultimately show "\<exists>x' cs' p own1. f (x, cs) = Some ((x', cs'), p) \<and> K x' \<and> grows (own \<union> rest) cs cs'
        \<and> own1 \<subseteq> own \<union> rest \<union> {length cs..<length cs'} \<and> own_open own1 cs' \<and> safe K due met (post \<union> rest) own1 p
        \<and> (\<forall>i. due x' i \<longrightarrow> met x' i \<or> owes K due met i p \<or> keeps_met due met x x' i)"
      using step by (intro exI [of _ x'] exI [of _ cs'] exI [of _ p] exI [of _ "own1 \<union> rest"]) (auto intro: grows_more)
  qed
qed (auto intro: safe.safe_Return)

lemma safe_each: "(\<And>x. x \<in> set xs \<Longrightarrow> safe K due met own own (f x)) \<Longrightarrow> safe K due met own own (each f xs)"
  by (induction xs) (auto intro: safe_then safe.intros)

lemma safe_ask:
  assumes "\<And>x cs. K x \<Longrightarrow> safe K due met post own (k (g (x, cs)))"
  shows "safe K due met post own (ask g k)"
  unfolding ask_def
proof (rule safe_Section)
  fix x cs
  assume "K x" "own_open own cs"
  with assms show "\<exists>x' cs' p own'. Some ((x, cs), k (g (x, cs))) = Some ((x', cs'), p) \<and> K x' \<and> grows own cs cs'
      \<and> own' \<subseteq> own \<union> {length cs..<length cs'} \<and> own_open own' cs' \<and> safe K due met post own' p
      \<and> (\<forall>i. due x' i \<longrightarrow> met x' i \<or> owes K due met i p \<or> keeps_met due met x x' i)"
    by (intro exI [of _ x] exI [of _ cs] exI [of _ "k (g (x, cs))"] exI [of _ own]) (simp add: keeps_met_def)
qed

text \<open>A section that changes the state only.\<close>

definition on_state :: "('x \<Rightarrow> 'x option) \<Rightarrow> 'x \<times> 'c \<Rightarrow> ('x \<times> 'c) option" where
  "on_state h = (\<lambda>(x, cs). map_option (\<lambda>x'. (x', cs)) (h x))"

lemma on_state_apply [simp]: "on_state h (x, cs) = map_option (\<lambda>x'. (x', cs)) (h x)"
  by (simp add: on_state_def)

lemma safe_act:
  assumes "\<And>x. K x \<Longrightarrow> \<exists>x'. h x = Some x' \<and> K x' \<and> (\<forall>i. due x' i \<longrightarrow> met x' i \<or> owes K due met i p \<or> keeps_met due met x x' i)"
    and "safe K due met post own p"
  shows "safe K due met post own (act (on_state h) p)"
  unfolding act_def
proof (rule safe_Section)
  fix x cs
  assume x: "K x" "own_open own cs"
  obtain x' where "h x = Some x'" "K x'" "\<forall>i. due x' i \<longrightarrow> met x' i \<or> owes K due met i p \<or> keeps_met due met x x' i"
    using assms(1) [OF x(1)] by blast
  with x(2) assms(2) show "\<exists>x' cs' q own'. map_option (\<lambda>s'. (s', p)) (on_state h (x, cs)) = Some ((x', cs'), q) \<and> K x' \<and> grows own cs cs'
      \<and> own' \<subseteq> own \<union> {length cs..<length cs'} \<and> own_open own' cs' \<and> safe K due met post own' q
      \<and> (\<forall>i. due x' i \<longrightarrow> met x' i \<or> owes K due met i q \<or> keeps_met due met x x' i)"
    by (intro exI [of _ x'] exI [of _ cs] exI [of _ p] exI [of _ own]) simp
qed

lemma owes_met: "(\<And>x x'. K x \<Longrightarrow> h x = Some x' \<Longrightarrow> met x' i) \<Longrightarrow> owes K due met i (act (on_state h) p)"
  unfolding act_def by (rule owes.intros) auto

subsection \<open>Any order\<close>

definition pool_ok :: "('x \<Rightarrow> bool) \<Rightarrow> ('x \<Rightarrow> 'i \<Rightarrow> bool) \<Rightarrow> ('x \<Rightarrow> 'i \<Rightarrow> bool) \<Rightarrow> nat set list
    \<Rightarrow> ('x \<times> chans) \<times> ('x \<times> chans, 'a) activity list \<Rightarrow> bool" where
  "pool_ok K due met owns = (\<lambda>((x, cs), ps). K x \<and> length owns = length ps
     \<and> (\<forall>j < length ps. safe K due met {} (owns ! j) (ps ! j) \<and> own_open (owns ! j) cs)
     \<and> (\<forall>j < length ps. \<forall>k < length ps. j \<noteq> k \<longrightarrow> owns ! j \<inter> owns ! k = {})
     \<and> (\<forall>i. due x i \<longrightarrow> met x i \<or> (\<exists>p \<in> set ps. owes K due met i p)))"

text \<open>In the beginning each goroutine has one channel.\<close>

lemma pool_start:
  assumes "K x" "length ds = length ps" "distinct ds" "\<forall>d \<in> set ds. chan_open d cs"
    and "\<And>j. j < length ps \<Longrightarrow> safe K due met {} {ds ! j} (ps ! j)"
    and "\<And>i. due x i \<Longrightarrow> \<exists>p \<in> set ps. owes K due met i p"
  shows "pool_ok K due met (map (\<lambda>d. {d}) ds) ((x, cs), ps)"
  using assms by (auto simp: pool_ok_def own_open_def nth_eq_iff_index_eq)

lemma pool_step:
  assumes ok: "pool_ok K due met owns ((x, cs), ps)" and j: "j < length ps" "ps ! j = Section f"
  shows "\<exists>x' cs' p own. f (x, cs) = Some ((x', cs'), p) \<and> pool_ok K due met (owns[j := own]) ((x', cs'), ps[j := p])"
proof -
  have pool: "K x" "length owns = length ps" "\<forall>j < length ps. safe K due met {} (owns ! j) (ps ! j) \<and> own_open (owns ! j) cs"
    "\<forall>j < length ps. \<forall>k < length ps. j \<noteq> k \<longrightarrow> owns ! j \<inter> owns ! k = {}"
    "\<forall>i. due x i \<longrightarrow> met x i \<or> (\<exists>p \<in> set ps. owes K due met i p)"
    using ok by (simp_all add: pool_ok_def)
  have "safe K due met {} (owns ! j) (Section f)" "own_open (owns ! j) cs" using pool(3) j by auto
  then obtain x' cs' p own where step: "f (x, cs) = Some ((x', cs'), p)" "K x'" "grows (owns ! j) cs cs'"
    "own \<subseteq> owns ! j \<union> {length cs..<length cs'}" "own_open own cs'" "safe K due met {} own p"
    "\<forall>i. due x' i \<longrightarrow> met x' i \<or> owes K due met i p \<or> keeps_met due met x x' i"
    using pool(1) by (cases rule: safe.cases) blast+
  have old: "c < length cs" if "c \<in> owns ! k" "k < length ps" for c k
    using pool(3) that unfolding own_open_def chan_open_def by blast
  have other: "own_open (owns ! k) cs'" if k: "k < length ps" "k \<noteq> j" for k
    unfolding own_open_def
  proof
    fix c
    assume c: "c \<in> owns ! k"
    have "c \<notin> owns ! j" using pool(4) k j(1) c by blast
    with old [OF c k(1)] step(3) have "cs' ! c = cs ! c" "c < length cs'" by (auto simp: grows_def)
    moreover have "chan_open c cs" using pool(3) k(1) c unfolding own_open_def by blast
    ultimately show "chan_open c cs'" by (simp add: chan_open_def)
  qed
  have apart: "own \<inter> owns ! k = {}" if k: "k < length ps" "k \<noteq> j" for k
    using pool(4) k j(1) old [OF _ k(1)] step(4) by fastforce
  have "due x' i \<Longrightarrow> met x' i \<or> (\<exists>q \<in> set (ps[j := p]). owes K due met i q)" for i
  proof -
    assume due: "due x' i"
    have p: "p \<in> set (ps[j := p])" using j(1) by (rule set_update_memI)
    show ?thesis
    proof (cases "met x' i \<or> owes K due met i p")
      case False
      with due step(7) have before: "due x i" "met x i \<longrightarrow> met x' i" by (auto simp: keeps_met_def)
      with False pool(5) obtain q where q: "q \<in> set ps" "owes K due met i q" by blast
      then obtain k where k: "k < length ps" "ps ! k = q" by (meson in_set_conv_nth)
      have "k \<noteq> j"
      proof
        assume "k = j"
        with q(2) k(2) j(2) have "owes K due met i (Section f)" by simp
        with pool(1) before(1) step(1) False show False unfolding owes_Section_iff by blast
      qed
      with k q(2) show ?thesis by (metis length_list_update nth_list_update_neq nth_mem)
    qed (use p in blast)
  qed
  then have "pool_ok K due met (owns[j := own]) ((x', cs'), ps[j := p])"
    using pool(2-4) step(2,5,6) other apart j(1)
    by (auto simp: pool_ok_def nth_list_update Int_commute)
  with step(1) show ?thesis by blast
qed

lemma pool_advance:
  assumes "pool_ok K due met owns (s, ps)"
  shows "\<exists>s' ps' owns'. advance j (s, ps) = Some (s', ps') \<and> length ps' = length ps \<and> pool_ok K due met owns' (s', ps')"
proof (cases "j < length ps \<and> (\<exists>f. ps ! j = Section f)")
  case True
  obtain x cs where s: "s = (x, cs)" by fastforce
  from True obtain f where f: "j < length ps" "ps ! j = Section f" by blast
  from pool_step [OF assms [unfolded s] f] f show ?thesis by (fastforce simp: advance_def s)
next
  case False
  then have "advance j (s, ps) = Some (s, ps)" by (auto simp: advance_def split: activity.split)
  with assms show ?thesis by blast
qed

lemma pool_run:
  assumes "pool_ok K due met owns (s, ps)"
  shows "\<exists>s' ps' owns'. interleave sched (s, ps) = Some (s', ps') \<and> length ps' = length ps \<and> pool_ok K due met owns' (s', ps')"
  using assms
proof (induction sched arbitrary: s ps owns)
  case Nil
  then show ?case by (auto simp: interleave_def)
next
  case (Cons j sched)
  from pool_advance [OF Cons.prems] obtain s1 ps1 owns1 where one: "advance j (s, ps) = Some (s1, ps1)" "length ps1 = length ps"
    "pool_ok K due met owns1 (s1, ps1)" by blast
  from Cons.IH [OF one(3)] one(1,2) show ?case by (simp add: interleave_step)
qed

text \<open>Every goroutine ends when it is picked often enough.\<close>

lemma one_ends:
  assumes "pool_ok K due met owns (s, ps)" "j < length ps" "ps ! j = p"
  shows "\<exists>sched s' a owns'. interleave sched (s, ps) = Some (s', ps[j := Return a]) \<and> pool_ok K due met owns' (s', ps[j := Return a])"
  using assms
proof (induction p arbitrary: owns s ps rule: activity_induct)
  case (Return a)
  then have "interleave [] (s, ps) = Some (s, ps[j := Return a])" "ps[j := Return a] = ps"
    using list_update_id [of ps j] by (simp_all add: interleave_def)
  with Return.prems(1) show ?case by metis
next
  case (Section f)
  obtain x cs where s: "s = (x, cs)" by fastforce
  obtain x' cs' p own where step: "f (x, cs) = Some ((x', cs'), p)" "pool_ok K due met (owns[j := own]) ((x', cs'), ps[j := p])"
    using pool_step [OF Section.prems(1) [unfolded s] Section.prems(2,3)] by blast
  have "(ps[j := p]) ! j = p" "j < length (ps[j := p])" using Section.prems(2) by simp_all
  from Section.IH [OF step(1,2) this(2,1)] obtain sched s' a owns' where
    "interleave sched ((x', cs'), ps[j := p]) = Some (s', ps[j := Return a])" "pool_ok K due met owns' (s', ps[j := Return a])" by auto
  moreover from this(1) have "interleave (j # sched) (s, ps) = Some (s', ps[j := Return a])"
    using step(1) Section.prems(2,3) by (simp add: interleave_step advance_def s)
  ultimately show ?case by blast
qed

lemma pool_ends:
  assumes "pool_ok K due met owns (s, ps)"
  shows "\<exists>sched s' ps' owns'. interleave sched (s, ps) = Some (s', ps') \<and> finished ps' \<and> pool_ok K due met owns' (s', ps')"
proof -
  have "\<exists>sched s' ps' owns'. interleave sched (s, ps) = Some (s', ps') \<and> length ps' = length ps
      \<and> (\<forall>j < m. \<exists>a. ps' ! j = Return a) \<and> pool_ok K due met owns' (s', ps')" if "m \<le> length ps" for m
    using that
  proof (induction m)
    case 0
    show ?case using assms by (intro exI [of _ "[]"]) (auto simp: interleave_def)
  next
    case (Suc m)
    then obtain sched s1 ps1 owns1 where IH: "interleave sched (s, ps) = Some (s1, ps1)" "length ps1 = length ps"
      "\<forall>j < m. \<exists>a. ps1 ! j = Return a" "pool_ok K due met owns1 (s1, ps1)" by auto
    have "m < length ps1" using Suc.prems IH(2) by simp
    from one_ends [OF IH(4) this refl] obtain more s' a owns' where
      "interleave more (s1, ps1) = Some (s', ps1[m := Return a])" "pool_ok K due met owns' (s', ps1[m := Return a])" by blast
    with IH Suc.prems show ?case
      by (intro exI [of _ "sched @ more"]) (auto simp: interleave_append nth_list_update less_Suc_eq)
  qed
  from this [of "length ps"] show ?thesis unfolding finished_def by (metis in_set_conv_nth order_refl)
qed

text \<open>Whatever the order, nothing panics, the goroutines can end, and then all that is due is met.\<close>

lemma any_order:
  assumes "pool_ok K due met owns (s, ps)"
  shows "\<exists>x cs ps'. interleave sched (s, ps) = Some ((x, cs), ps') \<and> (finished ps' \<longrightarrow> K x \<and> (\<forall>i. due x i \<longrightarrow> met x i))
    \<and> (\<exists>more s'' ps''. interleave (sched @ more) (s, ps) = Some (s'', ps'') \<and> finished ps'')"
proof -
  from pool_run [OF assms, of sched] obtain x cs ps' owns' where run: "interleave sched (s, ps) = Some ((x, cs), ps')"
    "pool_ok K due met owns' ((x, cs), ps')" by (metis surj_pair)
  have "K x \<and> (\<forall>i. due x i \<longrightarrow> met x i)" if "finished ps'"
    using run(2) that unfolding pool_ok_def finished_def by (auto, metis owes_Return)
  moreover have "\<exists>more s'' ps''. interleave (sched @ more) (s, ps) = Some (s'', ps'') \<and> finished ps''"
    using pool_ends [OF run(2)] run(1) by (auto simp: interleave_append)
  ultimately show ?thesis using run(1) by blast
qed

end
