(* ===== verification/HandlerSections.thy ===== *)
theory HandlerSections
  imports Sections WorkloadHandlers
begin

text \<open>
  The handlers of traffic configs and of workloads as goroutines, section by section: each operation of a
  cache, each read of a cache or of the lease, and each visit of a cluster is a section of its own.

  How much of the visit of a cluster by the rate limit handler is one section is the parameter \<open>work\<close>:
  \<open>whole_cluster\<close> takes all of it as one; \<open>split_cluster\<close> separates computing the filters from listing and
  applying them, and nothing in the program keeps other goroutines from running between the two.
\<close>

type_synonym ('cc, 'w, 'a) goroutine = "(('cc, 'w) system \<times> chans, 'a) activity"

type_synonym ('cc, 'w) visit = "TrafficConfig \<Rightarrow> EventType \<Rightarrow> string \<Rightarrow> ('cc, 'w, unit) goroutine"

definition logging :: "context_t \<Rightarrow> ('s, 'a) activity \<Rightarrow> ('s, 'a) activity" where
  "logging ctx p = (if ctx_Log ctx then p else crash)"

definition finishing :: "nat option \<Rightarrow> ('cc, 'w, EventStatus) goroutine" where
  "finishing statusChan = Section (\<lambda>(st, cs).
     map_option (\<lambda>(status, st', cs'). ((st', cs'), Return status)) (finish statusChan st cs))"

subsection \<open>The features\<close>

definition whole_cluster :: "'w environment \<Rightarrow> ('cc, 'w) visit" where
  "whole_cluster env tc eventType clusterID = act (on_state (rate_limit_cluster env tc eventType clusterID)) (Return ())"

text \<open>The list and the writes of an addition or update, and of a deletion.\<close>

definition apply_filters ::
    "'w environment \<Rightarrow> 'cc RemoteCluster \<Rightarrow> TrafficConfig \<Rightarrow> EnvoyFilter list \<Rightarrow> ('cc, 'w) system \<Rightarrow> ('cc, 'w) system option" where
  "apply_filters env rc tc newList st = do {
     oldList \<leftarrow> fst (listRateLimitingFilters env rc tc (sy_World st));
     (err, w) \<leftarrow> ApplyEnvoyFilters (en_Api env) (GetClusterID rc) newList oldList (sy_World st);
     Some (st\<lparr>sy_World := w\<rparr>)
   }"

definition delete_filters ::
    "'w environment \<Rightarrow> 'cc RemoteCluster \<Rightarrow> TrafficConfig \<Rightarrow> ('cc, 'w) system \<Rightarrow> ('cc, 'w) system option" where
  "delete_filters env rc tc st = do {
     filterList \<leftarrow> fst (listRateLimitingFilters env rc tc (sy_World st));
     let (err, w) = DeleteEnvoyFilters (en_Api env) (GetClusterID rc) filterList (sy_World st);
     Some (st\<lparr>sy_World := w\<rparr>)
   }"

definition split_cluster :: "'w environment \<Rightarrow> ('cc, 'w) visit" where
  "split_cluster env tc eventType clusterID = Section (\<lambda>(st, cs). do {
     allowed \<leftarrow> cluster_scope env clusterID;
     if \<not> allowed then Some ((st, cs), Return ())
     else (case RC_GetCluster (reg_clusters (sy_Registry st)) clusterID of
         None \<Rightarrow> Some ((st, cs), Return ())
       | Some rc \<Rightarrow>
           if TC_IsDisabled tc \<or> eventType = Delete then Some ((st, cs), act (on_state (delete_filters env rc tc)) (Return ()))
           else do {
             newList \<leftarrow> requestedFilters env st rc tc;
             Some ((st, cs), act (on_state (apply_filters env rc tc newList)) (Return ()))
           })
   })"

definition cluster_visit :: "bool \<Rightarrow> 'w environment \<Rightarrow> ('cc, 'w) visit" where
  "cluster_visit whole env = (if whole then whole_cluster env else split_cluster env)"

definition HandleRateLimiter_sections ::
    "('cc, 'w) visit \<Rightarrow> 'w environment \<Rightarrow> TrafficConfig \<Rightarrow> EventType \<Rightarrow> ('cc, 'w, unit) goroutine" where
  "HandleRateLimiter_sections work env tc eventType =
     ask (\<lambda>(st, cs). GetClustersForIdentity (sy_IdentityCluster st) (TC_GetIdentity (en_Params env) tc)) (\<lambda>clusters.
       if length clusters = 0 then Return () else each (work tc eventType) clusters)"

fun virtual_service_sections ::
    "'w environment \<Rightarrow> TrafficConfig \<Rightarrow> (string \<times> string) list \<Rightarrow> VirtualService \<Rightarrow> ('cc, 'w, unit) goroutine" where
  "virtual_service_sections env tc [] vs = Return ()"
| "virtual_service_sections env tc (c # clusters) vs = Section (\<lambda>(st, cs).
     map_option (\<lambda>(vs', w). ((st\<lparr>sy_World := w\<rparr>, cs), virtual_service_sections env tc clusters vs'))
       (virtual_service_cluster env (sy_Registry st) tc c (vs, sy_World st)))"

fun dependent_sections ::
    "'w environment \<Rightarrow> context_t \<Rightarrow> TrafficConfig \<Rightarrow> string list \<Rightarrow> (string, string) gomap \<Rightarrow> ('cc, 'w, unit) goroutine" where
  "dependent_sections env ctx tc [] clusters =
     (if length clusters = 0 then Return ()
      else (case buildVirtualServiceForMeshDependents (en_Ext env) (en_Params env) tc of
          Inl err \<Rightarrow> Return ()
        | Inr vs \<Rightarrow> virtual_service_sections env tc clusters vs))"
| "dependent_sections env ctx tc (depIdentity # dependents) clusters =
     (if IsAssetIgnored (en_Params env) depIdentity then dependent_sections env ctx tc dependents clusters
      else if \<not> ctx_Context ctx then crash
      else (let sourceIdentity = source_of ctx in
        if length sourceIdentity > 0 \<and> sourceIdentity \<noteq> depIdentity then dependent_sections env ctx tc dependents clusters
        else ask (\<lambda>(st, cs). GetClustersForIdentity (sy_IdentityCluster st) depIdentity) (\<lambda>found.
          dependent_sections env ctx tc dependents (fold (\<lambda>cluster m. gm_put cluster cluster m) found clusters))))"

definition HandleVirtualService_sections ::
    "'w environment \<Rightarrow> context_t \<Rightarrow> TrafficConfig \<Rightarrow> ('cc, 'w, unit) goroutine" where
  "HandleVirtualService_sections env ctx tc =
     (if length (TC_GetEnv tc) = 0 then Return ()
      else ask (\<lambda>(st, cs). GetDependentsForIdentity (sy_IdentityDependency st) (TC_GetIdentity (en_Params env) tc)) (\<lambda>dependents.
        if length dependents = 0 then Return () else dependent_sections env ctx tc dependents []))"

definition run_features_sections ::
    "('cc, 'w) visit \<Rightarrow> 'w environment \<Rightarrow> context_t \<Rightarrow> TrafficConfig \<Rightarrow> EventType \<Rightarrow> ('cc, 'w, unit) goroutine" where
  "run_features_sections work env ctx tc eventType =
     then_do (if IsFeatureEnabled (en_Params env) FeatureThrottleFilter
         then logging ctx (HandleRateLimiter_sections work env tc eventType) else Return ())
       (\<lambda>_. if IsFeatureEnabled (en_Params env) FeatureVirtualService
         then logging ctx (HandleVirtualService_sections env (feature_context ctx) tc) else Return ())"

subsection \<open>Traffic configs\<close>

definition process_sections ::
    "('cc, 'w) visit \<Rightarrow> 'w environment \<Rightarrow> context_t \<Rightarrow> TrafficConfig \<Rightarrow> EventType \<Rightarrow> nat option \<Rightarrow> ('cc, 'w, EventStatus) goroutine" where
  "process_sections work env ctx tc eventType statusChan =
     ask (\<lambda>(st, cs). IsReadOnly (sy_Lease st)) (\<lambda>readOnly.
       if readOnly then logging ctx (finishing statusChan)
       else ask (\<lambda>(st, cs). cache_warm env st) (\<lambda>warm.
         if \<not> warm then logging ctx (finishing statusChan)
         else then_do (run_features_sections work env ctx tc eventType) (\<lambda>_. finishing statusChan)))"

definition TrafficConfig_Added_sections ::
    "('cc, 'w) visit \<Rightarrow> 'w environment \<Rightarrow> context_t \<Rightarrow> k8s_object option \<Rightarrow> nat option \<Rightarrow> ('cc, 'w, EventStatus) goroutine" where
  "TrafficConfig_Added_sections work env ctx obj statusChan =
     (case as_TrafficConfig obj of
       None \<Rightarrow> logging ctx (finishing statusChan)
     | Some tc \<Rightarrow>
         if TC_IsDisabled tc \<or> TC_IsIgnored (en_Params env) tc then logging ctx (finishing statusChan)
         else act (on_state (\<lambda>st. Some (st\<lparr>sy_TrafficConfigs := AddTrafficConfigToCache (en_Params env) tc (sy_TrafficConfigs st)\<rparr>)))
           (process_sections work env ctx tc Add statusChan))"

definition TrafficConfig_Updated_sections ::
    "('cc, 'w) visit \<Rightarrow> 'w environment \<Rightarrow> context_t \<Rightarrow> k8s_object option \<Rightarrow> nat option \<Rightarrow> ('cc, 'w, EventStatus) goroutine" where
  "TrafficConfig_Updated_sections work env ctx newObj statusChan =
     (case as_TrafficConfig newObj of
       None \<Rightarrow> logging ctx (finishing statusChan)
     | Some tc \<Rightarrow>
         if TC_IsDisabled tc \<or> TC_IsIgnored (en_Params env) tc then logging ctx (finishing statusChan)
         else process_sections work env ctx tc Update statusChan)"

definition TrafficConfig_Deleted_sections ::
    "('cc, 'w) visit \<Rightarrow> 'w environment \<Rightarrow> context_t \<Rightarrow> k8s_object option \<Rightarrow> nat option \<Rightarrow> ('cc, 'w, EventStatus) goroutine" where
  "TrafficConfig_Deleted_sections work env ctx obj statusChan =
     (case as_TrafficConfig obj of
       None \<Rightarrow> logging ctx (finishing statusChan)
     | Some tc \<Rightarrow>
         act (on_state (\<lambda>st. Some (st\<lparr>sy_TrafficConfigs := DeleteTrafficConfigFromCache (en_Params env) tc (sy_TrafficConfigs st)\<rparr>)))
           (process_sections work env ctx tc Delete statusChan))"

subsection \<open>The triggered handler\<close>

definition announce_config ::
    "('cc, 'w) visit \<Rightarrow> 'w environment \<Rightarrow> context_t \<Rightarrow> string option \<Rightarrow> nat option \<Rightarrow> TrafficConfig
       \<Rightarrow> ('cc, 'w) system \<times> chans \<Rightarrow> ((('cc, 'w) system \<times> chans) \<times> ('cc, 'w, unit) goroutine) option" where
  "announce_config work env ctx source statusChan tc = (\<lambda>(st, cs). do {
     (childCtx, childStatusChan, cs1) \<leftarrow> CreateChildEvent NewEventProcessStatus ctx (Some TrafficConfig_OnStatus) statusChan cs;
     childCtx' \<leftarrow> (case source of
         None \<Rightarrow> Some childCtx
       | Some identity \<Rightarrow> if ctx_Context childCtx then Some (childCtx\<lparr>ctx_SourceIdentity := Some identity\<rparr>) else None);
     Some ((st, cs1), logging childCtx'
       (then_do (TrafficConfig_Updated_sections work env childCtx' (Some (ObjTrafficConfig tc)) childStatusChan) (\<lambda>_. Return ())))
   })"

definition trigger_config_sections ::
    "('cc, 'w) visit \<Rightarrow> 'w environment \<Rightarrow> context_t \<Rightarrow> string option \<Rightarrow> nat option \<Rightarrow> TrafficConfig \<Rightarrow> ('cc, 'w, unit) goroutine" where
  "trigger_config_sections work env ctx source statusChan tc = Section (announce_config work env ctx source statusChan tc)"

definition trigger_entry_sections ::
    "('cc, 'w) visit \<Rightarrow> 'w environment \<Rightarrow> context_t \<Rightarrow> string option \<Rightarrow> nat option \<Rightarrow> string \<Rightarrow> ('cc, 'w, unit) goroutine" where
  "trigger_entry_sections work env ctx source statusChan owner =
     ask (\<lambda>(st, cs). TCCache_GetTrafficConfigEntry (sy_TrafficConfigs st) owner) (\<lambda>entry.
       case entry of
         None \<Rightarrow> Return ()
       | Some tcEntry \<Rightarrow> each (\<lambda>(workload_env, tc). trigger_config_sections work env ctx source statusChan tc)
           (tce_EnvTrafficConfig tcEntry))"

definition Trigger_sections ::
    "('cc, 'w) visit \<Rightarrow> 'w environment \<Rightarrow> context_t \<Rightarrow> string \<Rightarrow> nat option \<Rightarrow> ('cc, 'w, unit) goroutine" where
  "Trigger_sections work env ctx identity statusChan =
     logging ctx (then_do (trigger_entry_sections work env ctx None statusChan identity) (\<lambda>_.
       ask (\<lambda>(st, cs). GetDependentsForIdentity (sy_IdentityDependency st) identity)
         (each (trigger_entry_sections work env ctx (Some identity) statusChan))))"

subsection \<open>Workloads\<close>

text \<open>What the additions of deployments and rollouts share, up to the cache the workload is put into.\<close>

definition workload_added_sections ::
    "('cc, 'w) visit \<Rightarrow> 'w environment \<Rightarrow> string \<Rightarrow> context_t \<Rightarrow> (Workload \<Rightarrow> ('cc, 'w) system \<Rightarrow> ('cc, 'w) system)
       \<Rightarrow> Workload option \<Rightarrow> nat option \<Rightarrow> ('cc, 'w, EventStatus) goroutine" where
  "workload_added_sections work env clusterID ctx put workload statusChan =
     (case workload of
       None \<Rightarrow> logging ctx (finishing statusChan)
     | Some w \<Rightarrow>
         if IsResourceIgnored (en_Params env) (wl_Template w) \<or> \<not> IsResourceMeshEnabled (en_Params env) (wl_Template w)
         then finishing statusChan
         else (let workloadIdentifier = GetWorkloadIdentifier (en_Params env) (wl_Template w) in
           if length workloadIdentifier = 0 then logging ctx (finishing statusChan)
           else logging ctx
             (act (on_state (\<lambda>st. Some (st\<lparr>sy_IdentityCluster := AddClusterToIdentity workloadIdentifier clusterID (sy_IdentityCluster st)\<rparr>)))
             (act (on_state (\<lambda>st. Some (put w st)))
             (ask (\<lambda>(st, cs). cache_warm env st) (\<lambda>warm.
               if \<not> warm then finishing statusChan
               else then_do (Trigger_sections work env ctx workloadIdentifier statusChan) (\<lambda>_. finishing statusChan)))))))"

definition Deployment_Added_sections ::
    "('cc, 'w) visit \<Rightarrow> 'w environment \<Rightarrow> string \<Rightarrow> context_t \<Rightarrow> k8s_object option \<Rightarrow> nat option \<Rightarrow> ('cc, 'w, EventStatus) goroutine" where
  "Deployment_Added_sections work env clusterID ctx obj statusChan =
     workload_added_sections work env clusterID ctx
       (\<lambda>w st. st\<lparr>sy_Deployments := Deployments_Add (en_Params env) clusterID w (sy_Deployments st)\<rparr>) (as_Deployment obj) statusChan"

definition Rollout_Added_sections ::
    "('cc, 'w) visit \<Rightarrow> 'w environment \<Rightarrow> string \<Rightarrow> context_t \<Rightarrow> k8s_object option \<Rightarrow> nat option \<Rightarrow> ('cc, 'w, EventStatus) goroutine" where
  "Rollout_Added_sections work env clusterID ctx obj statusChan =
     workload_added_sections work env clusterID ctx
       (\<lambda>w st. st\<lparr>sy_Rollouts := Rollouts_Add (en_Params env) clusterID w (sy_Rollouts st)\<rparr>) (as_Rollout obj) statusChan"

subsection \<open>Alone, the sections are the handlers\<close>

lemma alone_logging [simp]: "alone (logging ctx p) s = logged ctx (alone p s)"
  by (simp add: logging_def logged_def)

lemma alone_finishing [simp]: "alone (finishing statusChan) (st, cs) = finish statusChan st cs"
  by (simp add: finishing_def alone_Section split: option.split prod.split)

text \<open>Both ways to visit a cluster do the same when nothing comes between.\<close>

definition visits_like :: "'w environment \<Rightarrow> ('cc, 'w) visit \<Rightarrow> bool" where
  "visits_like env work \<longleftrightarrow> (\<forall>tc ev c st cs. alone (work tc ev c) (st, cs)
     = map_option (\<lambda>st'. ((), st', cs)) (rate_limit_cluster env tc ev c st))"

lemma whole_cluster_alone: "visits_like env (whole_cluster env)"
  by (simp add: visits_like_def whole_cluster_def split: option.split bind_split)

lemma split_cluster_alone: "visits_like env (split_cluster env)"
  unfolding visits_like_def
  by (auto simp: split_cluster_def alone_Section rate_limit_cluster_def createRateLimitingFilters_def apply_filters_def
      delete_filters_def Let_def split: bind_split option.split prod.split)

lemma foreach_on_state: "foreach (\<lambda>x. on_state (f x)) xs (st, cs) = map_option (\<lambda>st'. (st', cs)) (foreach f xs st)"
  by (induction xs arbitrary: st) (simp_all split: option.split)

lemma alone_HandleRateLimiter:
  assumes "visits_like env work"
  shows "alone (HandleRateLimiter_sections work env tc ev) (st, cs)
    = map_option (\<lambda>st'. ((), st', cs)) (HandleRateLimiter env tc ev st)"
proof -
  have "alone (work tc ev c) s = map_option (Pair ()) (on_state (rate_limit_cluster env tc ev c) s)" for c s
    using assms by (cases s) (simp add: visits_like_def option.map_comp comp_def)
  then have "alone (each (work tc ev) xs) (st, cs) = map_option (Pair ()) (foreach (\<lambda>c. on_state (rate_limit_cluster env tc ev c)) xs (st, cs))"
    for xs by (rule alone_each)
  then show ?thesis
    by (simp add: HandleRateLimiter_sections_def HandleRateLimiter_def Let_def foreach_on_state option.map_comp comp_def)
qed

lemma alone_virtual_services:
  "alone (virtual_service_sections env tc clusters vs) (st, cs) = map_option (\<lambda>(vs', w). ((), st\<lparr>sy_World := w\<rparr>, cs))
     (foreach (virtual_service_cluster env (sy_Registry st) tc) clusters (vs, sy_World st))"
  by (induction clusters arbitrary: vs st) (auto simp: alone_Section split: option.split)

lemma alone_dependents:
  fixes st :: "('cc, 'w) system"
  shows "alone (dependent_sections env ctx tc dependents clusters) (st, cs) = map_option (\<lambda>st'. ((), st', cs))
     (Option.bind (foreach (\<lambda>depIdentity m.
         if IsAssetIgnored (en_Params env) depIdentity then Some m
         else if \<not> ctx_Context ctx then None
         else (let sourceIdentity = source_of ctx in
           if length sourceIdentity > 0 \<and> sourceIdentity \<noteq> depIdentity then Some m
           else Some (fold (\<lambda>cluster m. gm_put cluster cluster m) (GetClustersForIdentity (sy_IdentityCluster st) depIdentity) m)))
         dependents clusters)
       (\<lambda>clusters. if length clusters = 0 then Some st
         else (case buildVirtualServiceForMeshDependents (en_Ext env) (en_Params env) tc of
             Inl err \<Rightarrow> Some st
           | Inr vs \<Rightarrow> do {
               (vs', w) \<leftarrow> foreach (virtual_service_cluster env (sy_Registry st) tc) clusters (vs, sy_World st);
               Some (st\<lparr>sy_World := w\<rparr>)
             })))"
proof (induction dependents arbitrary: clusters)
  case Nil
  show ?case by (auto simp: alone_virtual_services split: sum.split option.split bind_split)
next
  case (Cons d dependents)
  then show ?case by (simp add: Let_def)
qed

lemma alone_HandleVirtualService:
  "alone (HandleVirtualService_sections env ctx tc) (st, cs)
     = map_option (\<lambda>st'. ((), st', cs)) (HandleVirtualServiceForTrafficConfig env ctx tc st)"
  by (simp add: HandleVirtualService_sections_def HandleVirtualServiceForTrafficConfig_def handleVirtualServiceForMeshDependents_def
      dependentClusters_def alone_dependents Let_def)

lemma alone_run_features:
  assumes "visits_like env work"
  shows "alone (run_features_sections work env ctx tc ev) (st, cs) = map_option (\<lambda>st'. ((), st', cs)) (run_features env ctx tc ev st)"
  by (auto simp: run_features_sections_def run_features_def alone_then alone_HandleRateLimiter [OF assms] alone_HandleVirtualService
      logged_def split: option.split bind_split)

lemma alone_process:
  assumes "visits_like env work"
  shows "alone (process_sections work env ctx tc ev statusChan) s = process_traffic_config env ctx tc ev statusChan s"
  by (cases s) (auto simp: process_sections_def process_traffic_config_def alone_then alone_run_features [OF assms]
      split: option.split bind_split)

lemma alone_Added:
  assumes "visits_like env work"
  shows "alone (TrafficConfig_Added_sections work env ctx obj statusChan) s = TrafficConfig_Added env ctx obj statusChan s"
  by (cases s) (simp add: TrafficConfig_Added_sections_def TrafficConfig_Added_def alone_process [OF assms] split: option.split)

lemma alone_Updated:
  assumes "visits_like env work"
  shows "alone (TrafficConfig_Updated_sections work env ctx obj statusChan) s = TrafficConfig_Updated env ctx obj old statusChan s"
  by (cases s) (simp add: TrafficConfig_Updated_sections_def TrafficConfig_Updated_def alone_process [OF assms] split: option.split)

lemma alone_Deleted:
  assumes "visits_like env work"
  shows "alone (TrafficConfig_Deleted_sections work env ctx obj statusChan) s = TrafficConfig_Deleted env ctx obj statusChan s"
  by (cases s) (simp add: TrafficConfig_Deleted_sections_def TrafficConfig_Deleted_def alone_process [OF assms] split: option.split)

lemma alone_trigger_config:
  assumes "visits_like env work"
  shows "alone (trigger_config_sections work env ctx source statusChan tc) s
    = map_option (Pair ()) (trigger_traffic_config env ctx source statusChan tc s)"
proof (cases s)
  case (Pair st cs)
  show ?thesis
    by (auto simp: Pair trigger_config_sections_def announce_config_def trigger_traffic_config_def alone_Section alone_then
        alone_Updated [OF assms, where old = None] logged_def split: option.split bind_split prod.split)
qed

lemma alone_trigger_entry:
  assumes "visits_like env work"
  shows "alone (trigger_entry_sections work env ctx source statusChan owner) s
    = map_option (Pair ()) (trigger_entry env ctx source statusChan owner s)"
proof (cases s)
  case (Pair st cs)
  have "alone (each (\<lambda>(e, tc). trigger_config_sections work env ctx source statusChan tc) xs) (st, cs)
      = map_option (Pair ()) (foreach (\<lambda>(e, tc). trigger_traffic_config env ctx source statusChan tc) xs (st, cs))"
    for xs :: "(string \<times> TrafficConfig) list"
    by (rule alone_each) (auto simp: alone_trigger_config [OF assms])
  then show ?thesis by (simp add: Pair trigger_entry_sections_def trigger_entry_def split: option.split)
qed

lemma alone_Trigger:
  assumes "visits_like env work"
  shows "alone (Trigger_sections work env ctx identity statusChan) s
    = map_option (Pair ()) (TriggerTrafficConfigHandlerForIdentity env ctx identity statusChan s)"
proof -
  have "alone (each (trigger_entry_sections work env ctx (Some identity) statusChan) xs) t
      = map_option (Pair ()) (foreach (trigger_entry env ctx (Some identity) statusChan) xs t)" for xs t
    by (rule alone_each) (rule alone_trigger_entry [OF assms])
  then show ?thesis
    by (auto simp: Trigger_sections_def TriggerTrafficConfigHandlerForIdentity_def alone_then alone_trigger_entry [OF assms]
        logged_def split: option.split bind_split)
qed

lemma alone_Deployment:
  assumes "visits_like env work"
  shows "alone (Deployment_Added_sections work env clusterID ctx obj statusChan) s = Deployment_Added env clusterID ctx obj statusChan s"
  by (cases s) (simp add: Deployment_Added_sections_def workload_added_sections_def Deployment_Added_def Let_def alone_then
      alone_Trigger [OF assms] logged_def split: option.split bind_split)

lemma alone_Rollout:
  assumes "visits_like env work"
  shows "alone (Rollout_Added_sections work env clusterID ctx obj statusChan) s = Rollout_Added env clusterID ctx obj statusChan s"
  by (cases s) (simp add: Rollout_Added_sections_def workload_added_sections_def Rollout_Added_def Let_def alone_then
      alone_Trigger [OF assms] logged_def split: option.split bind_split)

subsection \<open>Properties\<close>


end
