(* ===== verification/Interleavings.thy ===== *)
theory Interleavings
  imports HandlerSections TrafficConfigEvents
begin

text \<open>
  What happens to the envoy filters of a traffic config when it is added while workloads of its identity
  come up, each event in a goroutine of its own.
\<close>

declare split_paired_All [simp del]

subsection \<open>The entry of an identity\<close>

lemma copy_map_ok: "gm_ok (copy_map f m)"
proof -
  have "gm_ok acc \<Longrightarrow> gm_ok (fold (\<lambda>(k, v). gm_put k (f v)) m acc)" for acc
    by (induction m arbitrary: acc) auto
  then show ?thesis by (simp add: copy_map_def)
qed

lemma entry_look:
  assumes "tcc_ok p s" "TCCache_GetTrafficConfigEntry s i = Some e"
  shows "(x, tc) \<in> set (tce_EnvTrafficConfig e) \<longleftrightarrow> tcc_look s (ToLower i, x) = Some tc"
proof -
  obtain e0 where e0: "gm_get s (ToLower i) = Some e0" "e = TrafficConfigEntry_Copy e0"
    using assms(2) by (auto simp: TCCache_GetTrafficConfigEntry_def split: option.splits)
  have ok: "gm_ok (tce_EnvTrafficConfig e0)" using tcc_ok_get [OF assms(1) e0(1)] by (simp add: tce_ok_def)
  have "(x, tc) \<in> set (copy_map id (tce_EnvTrafficConfig e0)) \<longleftrightarrow> gm_get (tce_EnvTrafficConfig e0) x = Some tc"
    by (simp only: gm.pairs_get [OF copy_map_ok] copy_map_id [OF ok])
  then show ?thesis by (simp add: e0 TrafficConfigEntry_Copy_def tcc_look_def)
qed

lemma entry_none: "TCCache_GetTrafficConfigEntry s i = None \<Longrightarrow> tcc_look s (ToLower i, x) = None"
  by (simp add: TCCache_GetTrafficConfigEntry_def tcc_look_def split: option.splits)

subsection \<open>The names of the filters\<close>

definition throttle_names :: "'w environment \<Rightarrow> TrafficConfig \<Rightarrow> string list" where
  "throttle_names env tc = concat (map (\<lambda>e. map (\<lambda>v. EnvoyFilterName (TC_GetIdentity (en_Params env) tc) ''throttle'' (e @ ''-'' @ v))
     (elems (EnvoyFilterVersions (en_Params env)))) (tc_WorkloadEnv tc))"

lemma wanted_names:
  "distinct (throttle_names env tc) \<Longrightarrow> distinct (map ef_Name (wanted_filters env st tc c))"
  "f \<in> set (wanted_filters env st tc c) \<Longrightarrow> ef_Name f \<in> set (throttle_names env tc)"
proof -
  have part: "distinct (concat (map n xs)) \<Longrightarrow> \<forall>x. m x = n x \<or> m x = [] \<Longrightarrow>
      distinct (concat (map m xs)) \<and> set (concat (map m xs)) \<subseteq> set (concat (map n xs))"
    for n m :: "string \<Rightarrow> string list" and xs
  proof (induction xs)
    case (Cons x xs)
    then have IH: "distinct (concat (map m xs))" "set (concat (map m xs)) \<subseteq> set (concat (map n xs))"
      and x: "m x = n x \<or> m x = []" by simp_all
    from x have sub: "set (m x) \<subseteq> set (n x)" "distinct (n x) \<Longrightarrow> distinct (m x)" by auto
    have "set (n x) \<inter> set (concat (map n xs)) = {}" "distinct (n x)" using Cons.prems(1) by auto
    with sub IH(2) have "set (m x) \<inter> set (concat (map m xs)) = {}" "distinct (m x)" by blast+
    with IH sub(1) show ?case by auto
  qed simp
  let ?n = "\<lambda>e. map (\<lambda>v. EnvoyFilterName (TC_GetIdentity (en_Params env) tc) ''throttle'' (e @ ''-'' @ v)) (elems (EnvoyFilterVersions (en_Params env)))"
  let ?m = "\<lambda>e. case getWorkLoadLabels (en_Params env) (sy_Deployments st) (sy_Rollouts st) c (TC_GetIdentity (en_Params env) tc) e of
      Inl err \<Rightarrow> [] | Inr ls \<Rightarrow> ?n e"
  have m: "map ef_Name (wanted_filters env st tc c) = concat (map ?m (tc_WorkloadEnv tc))"
    unfolding wanted_filters_def map_concat map_map
    by (rule arg_cong [where f = concat], rule map_cong [OF refl]) (simp add: rate_limit_filter_def split: sum.split)
  have "\<forall>e. ?m e = ?n e \<or> ?m e = []" by (simp split: sum.split)
  then show "distinct (throttle_names env tc) \<Longrightarrow> distinct (map ef_Name (wanted_filters env st tc c))"
    using part [of ?n "tc_WorkloadEnv tc" ?m] unfolding m throttle_names_def by blast
  have "set (concat (map ?m (tc_WorkloadEnv tc))) \<subseteq> set (throttle_names env tc)"
    unfolding throttle_names_def by (auto split: sum.splits)
  then show "f \<in> set (wanted_filters env st tc c) \<Longrightarrow> ef_Name f \<in> set (throttle_names env tc)"
    unfolding m [symmetric] by auto
qed

text \<open>The labels of a wanted filter are those the handler lists by.\<close>

lemma wanted_labels: "f \<in> set (wanted_filters env st tc c) \<Longrightarrow> has_labels (rate_limit_selector (en_Params env) tc) (ef_Labels f)"
  by (auto simp: wanted_filters_def rate_limit_filter_def rate_limit_selector_def has_labels_def TC_GetIdentityLowerCase_def
      gm_put_def CreatedForTrafficEnvKey_def CreatedTypeKey_def CreatedForEnvKey_def CreatedByKey_def CreatedForKey_def split: sum.splits)

text \<open>Stored names are in lower case, and nobody else uses the names of the traffic config.\<close>

definition names_free :: "'w environment \<Rightarrow> TrafficConfig \<Rightarrow> (object_key \<Rightarrow> EnvoyFilter option) \<Rightarrow> bool" where
  "names_free env tc stored \<longleftrightarrow> (\<forall>c n. stored (c, NamespaceIstioSystem, n) \<noteq> None \<longrightarrow> ToLower n = n)
     \<and> (\<forall>c. \<forall>n \<in> set (throttle_names env tc). stored (c, NamespaceIstioSystem, n) \<noteq> None
          \<longrightarrow> managed_filter (en_Params env) tc c stored (c, NamespaceIstioSystem, n))"

lemma names_ready:
  assumes "distinct (throttle_names env tc)" "names_free env tc stored"
  shows "filters_ready env st tc stored c"
  unfolding filters_ready_def
proof (intro conjI ballI impI)
  show "distinct (map ef_Name (wanted_filters env st tc c))" by (rule wanted_names(1) [OF assms(1)])
  show "\<forall>n f. stored (c, NamespaceIstioSystem, n) = Some f \<longrightarrow> ToLower n = n" using assms(2) unfolding names_free_def by blast
  fix f
  assume f: "f \<in> set (wanted_filters env st tc c)" "stored (ef_key c f) \<noteq> None"
  have key: "ef_key c f = (c, NamespaceIstioSystem, ef_Name f)" using wanted_props [OF f(1)] by (simp add: ef_key_def)
  show "managed_filter (en_Params env) tc c stored (ef_key c f)"
    using f(2) wanted_names(2) [OF f(1)] assms(2) unfolding names_free_def key by blast
qed

text \<open>The filters of a cluster match the caches: the wanted ones are stored, and no others of this traffic config.\<close>

definition filters_match ::
    "'w environment \<Rightarrow> TrafficConfig \<Rightarrow> ('w \<Rightarrow> object_key \<Rightarrow> EnvoyFilter option) \<Rightarrow> ('cc, 'w) system \<Rightarrow> string \<Rightarrow> bool" where
  "filters_match env tc efs st c \<longleftrightarrow>
     (\<forall>f \<in> set (wanted_filters env st tc c). \<exists>g. efs (sy_World st) (ef_key c f) = Some g \<and> applied_as f g)
     \<and> (\<forall>k. managed_filter (en_Params env) tc c (efs (sy_World st)) k \<longrightarrow> k \<in> ef_key c ` set (wanted_filters env st tc c))"

lemma applied_match:
  assumes "distinct (throttle_names env tc)"
    and "\<forall>k. fst k = c \<longrightarrow> filter_applied env st tc before k (efs (sy_World st') k)"
    and "\<And>x. wanted_filters env st' tc x = wanted_filters env st tc x"
  shows "filters_match env tc efs st' c"
  unfolding filters_match_def assms(3)
proof (intro conjI ballI allI impI)
  fix f
  assume f: "f \<in> set (wanted_filters env st tc c)"
  have "fst (ef_key c f) = c" by (simp add: ef_key_def)
  with assms(2) have "filter_applied env st tc before (ef_key c f) (efs (sy_World st') (ef_key c f))" by blast
  with f \<open>fst (ef_key c f) = c\<close> obtain h g where h: "h \<in> set (wanted_filters env st tc c)" "ef_key c h = ef_key c f"
    "efs (sy_World st') (ef_key c f) = Some g" "applied_as h g" by (auto simp: filter_applied_def)
  have "ef_Name h = ef_Name f" using h(2) by (simp add: ef_key_def)
  with wanted_names(1) [OF assms(1), of st c] h(1) f have "h = f" by (auto simp: distinct_map inj_on_def)
  with h show "\<exists>g. efs (sy_World st') (ef_key c f) = Some g \<and> applied_as f g" by blast
next
  fix k
  assume k: "managed_filter (en_Params env) tc c (efs (sy_World st')) k"
  then have c: "fst k = c" by (simp add: managed_filter_def)
  with assms(2) have applied: "filter_applied env st tc before k (efs (sy_World st') k)" by blast
  show "k \<in> ef_key c ` set (wanted_filters env st tc c)"
  proof (rule ccontr)
    assume "k \<notin> ef_key c ` set (wanted_filters env st tc c)"
    with applied c have after: "efs (sy_World st') k = (if managed_filter (en_Params env) tc c before k then None else before k)"
      by (simp add: filter_applied_def)
    with k show False by (auto simp: managed_filter_def split: if_splits option.splits)
  qed
qed

lemma applied_names_free:
  assumes "names_free env tc before" "\<forall>k. fst k = c \<longrightarrow> filter_applied env st tc before k (after k)" "\<forall>k. fst k \<noteq> c \<longrightarrow> after k = before k"
  shows "names_free env tc after"
proof -
  have new: "(\<exists>f. f \<in> set (wanted_filters env st tc c) \<and> k = ef_key c f \<and> applied_as f g) \<or> before k = Some g"
    if "after k = Some g" for k g
  proof (cases "fst k = c")
    case True
    with assms(2) that have "filter_applied env st tc before k (Some g)" by metis
    with True show ?thesis by (auto simp: filter_applied_def split: if_splits)
  qed (use assms(3) that in simp)
  have fields: "ToLower (ef_Name f) = ef_Name f" "has_labels (rate_limit_selector (en_Params env) tc) (ef_Labels g)"
    "ef_key c f = (c, NamespaceIstioSystem, ef_Name f)"
    if "f \<in> set (wanted_filters env st tc c)" "applied_as f g" for f g
    using wanted_props [OF that(1)] wanted_labels [OF that(1)] that(2) by (auto simp: applied_as_def ef_key_def)
  show ?thesis
    unfolding names_free_def
  proof (intro conjI allI ballI impI)
    fix d n
    assume "after (d, NamespaceIstioSystem, n) \<noteq> None"
    then obtain g where g: "after (d, NamespaceIstioSystem, n) = Some g" by blast
    from new [OF g] show "ToLower n = n"
    proof
      assume "before (d, NamespaceIstioSystem, n) = Some g"
      with assms(1) show ?thesis unfolding names_free_def by blast
    qed (use fields in auto)
  next
    fix d n
    assume n: "n \<in> set (throttle_names env tc)" "after (d, NamespaceIstioSystem, n) \<noteq> None"
    then obtain g where g: "after (d, NamespaceIstioSystem, n) = Some g" by blast
    from new [OF g] show "managed_filter (en_Params env) tc d after (d, NamespaceIstioSystem, n)"
    proof
      assume "\<exists>f. f \<in> set (wanted_filters env st tc c) \<and> (d, NamespaceIstioSystem, n) = ef_key c f \<and> applied_as f g"
      then show ?thesis using fields g by (auto simp: managed_filter_def)
    next
      assume "before (d, NamespaceIstioSystem, n) = Some g"
      moreover from this n(1) assms(1) have "managed_filter (en_Params env) tc d before (d, NamespaceIstioSystem, n)"
        by (auto simp: names_free_def)
      ultimately show ?thesis using g by (simp add: managed_filter_def)
    qed
  qed
qed

subsection \<open>What holds all the time\<close>

text \<open>The laws of the API server, and a traffic config that is handled without panics in a program that may write.\<close>

definition config_ready ::
    "'w environment \<Rightarrow> TrafficConfig \<Rightarrow> ('w \<Rightarrow> object_key \<Rightarrow> EnvoyFilter option) \<Rightarrow> ('w \<Rightarrow> object_key \<Rightarrow> VirtualService option) \<Rightarrow> bool" where
  "config_ready env tc efs vss \<longleftrightarrow> ef_laws (en_Api env) efs \<and> ef_read_laws (en_Api env) efs \<and> kinds_apart (en_Api env) efs vss
     \<and> env_total env \<and> tc_complete tc \<and> \<not> TC_IsDisabled tc \<and> \<not> TC_IsIgnored (en_Params env) tc \<and> TC_GetEnv tc \<noteq> []
     \<and> IsFeatureEnabled (en_Params env) FeatureThrottleFilter \<and> distinct (throttle_names env tc)
     \<and> (\<forall>w. IsCacheWarmedUp (en_Params env) (en_StartUpTime env) (en_Now env w))"

text \<open>
  Clusters, dependencies and the lease stay as they are, the program is not read-only, no other traffic config
  of the identity or of its dependents is cached, and the names of the filters are free.
\<close>

definition steady ::
    "'w environment \<Rightarrow> TrafficConfig \<Rightarrow> ('w \<Rightarrow> object_key \<Rightarrow> EnvoyFilter option) \<Rightarrow> 'cc registry \<Rightarrow> dependency_cache
       \<Rightarrow> ('cc, 'w) system \<Rightarrow> bool" where
  "steady env tc efs reg dep st \<longleftrightarrow> system_ok (en_Params env) st \<and> sy_Registry st = reg \<and> sy_IdentityDependency st = dep
     \<and> \<not> IsReadOnly (sy_Lease st)
     \<and> (\<forall>owner x tc'. (ToLower owner = ToLower (TC_GetIdentity (en_Params env) tc)
            \<or> owner \<in> set (GetDependentsForIdentity dep (TC_GetIdentity (en_Params env) tc)))
          \<and> tcc_look (sy_TrafficConfigs st) (ToLower owner, x) = Some tc' \<longrightarrow> tc' = tc)
     \<and> names_free env tc (efs (sy_World st))"

text \<open>Once the traffic config is cached, the filters of its target clusters are due.\<close>

definition filters_due :: "'w environment \<Rightarrow> TrafficConfig \<Rightarrow> ('cc, 'w) system \<Rightarrow> string \<Rightarrow> bool" where
  "filters_due env tc st c \<longleftrightarrow> TCCache_Get (sy_TrafficConfigs st) (TC_GetIdentity (en_Params env) tc) (TC_GetEnv tc) = Some tc
     \<and> c \<in> rate_limit_targets env st tc"

lemma due_world [simp]: "filters_due env tc (st\<lparr>sy_World := w\<rparr>) c = filters_due env tc st c"
  by (simp add: filters_due_def rate_limit_targets_def)

lemma system_ok_world [simp]: "system_ok p (st\<lparr>sy_World := w\<rparr>) = system_ok p st"
  by (simp add: system_ok_def)

lemma steady_ok: "steady env tc efs reg dep st \<Longrightarrow> system_ok (en_Params env) st"
  by (simp add: steady_def)

lemma steady_world: "steady env tc efs reg dep st \<Longrightarrow> names_free env tc (efs w) \<Longrightarrow> steady env tc efs reg dep (st\<lparr>sy_World := w\<rparr>)"
  by (auto simp: steady_def)

subsection \<open>Visiting a cluster\<close>

lemma marshal_total: "env_total env \<Longrightarrow> en_Marshal env = (\<lambda>m. Some (the (en_Marshal env m)))"
  by (auto simp: env_total_def fun_eq_iff)

lemma visit_settles:
  fixes st :: "('cc, 'w) system"
  assumes ready: "config_ready env tc efs vss" and steady: "steady env tc efs reg dep st" and c: "ToLower c = c" "ev \<noteq> Delete"
  shows "\<exists>st'. rate_limit_cluster env tc ev c st = Some st' \<and> steady env tc efs reg dep st'
    \<and> (\<forall>i. filters_due env tc st' i = filters_due env tc st i)
    \<and> (filters_due env tc st c \<longrightarrow> filters_match env tc efs st' c)
    \<and> (\<forall>i. i \<noteq> c \<longrightarrow> filters_match env tc efs st' i = filters_match env tc efs st i)"
proof -
  let ?w = "sy_World st"
  have laws: "ef_laws (en_Api env) efs" "ef_read_laws (en_Api env) efs" and total: "env_total env" and tc: "\<not> TC_IsDisabled tc"
    and names: "distinct (throttle_names env tc)" using ready by (simp_all add: config_ready_def)
  obtain qg where qg: "tc_QuotaGroup tc = Some qg" using ready by (auto simp: config_ready_def tc_complete_def)
  have free: "names_free env tc (efs ?w)" using steady by (simp add: steady_def)
  have reg: "reg_ok (sy_Registry st)" using steady_ok [OF steady] by (simp add: system_ok_def)
  have scope: "cluster_scope env c \<noteq> None" using total by (simp add: env_total_def)
  have work: "\<exists>w'. (if TC_IsDisabled tc \<or> ev = Delete then do {
             filterList \<leftarrow> fst (listRateLimitingFilters env rc tc ?w);
             let (err, w') = DeleteEnvoyFilters (en_Api env) (GetClusterID rc) filterList ?w;
             Some (st\<lparr>sy_World := w'\<rparr>)
           } else createRateLimitingFilters env rc tc (st\<lparr>sy_World := ?w\<rparr>)) = Some (st\<lparr>sy_World := w'\<rparr>)
        \<and> (\<forall>k. fst k = c \<longrightarrow> filter_applied env st tc (efs ?w) k (efs w' k)) \<and> (\<forall>k. fst k \<noteq> c \<longrightarrow> efs w' k = efs ?w k)"
    if "GetClusterID rc = c" for rc :: "'cc RemoteCluster"
    using create_filters_cluster [where st = st and w = ?w, OF laws qg marshal_total [OF total] that names_ready [OF names free]] tc c(2) by simp
  obtain w' where w': "rate_limit_cluster env tc ev c (st\<lparr>sy_World := ?w\<rparr>) = Some (st\<lparr>sy_World := w'\<rparr>)"
    "\<forall>k. fst k = c \<longrightarrow> (if reachable_cluster env (sy_Registry st) c then filter_applied env st tc (efs ?w) k (efs w' k) else efs w' k = efs ?w k)"
    "\<forall>k. fst k \<noteq> c \<longrightarrow> efs w' k = efs ?w k"
    using rate_limit_cluster_step [where P = "\<lambda>k x. filter_applied env st tc (efs ?w) k x", OF reg c(1) scope work] by blast
  have free': "names_free env tc (efs w')"
  proof (cases "reachable_cluster env (sy_Registry st) c")
    case True
    with w'(2) have "\<forall>k. fst k = c \<longrightarrow> filter_applied env st tc (efs ?w) k (efs w' k)" by simp
    then show ?thesis by (rule applied_names_free [OF free _ w'(3)])
  next
    case False
    with w'(2,3) have "efs w' = efs ?w" by (intro ext) metis
    with free show ?thesis by simp
  qed
  have "filters_match env tc efs (st\<lparr>sy_World := w'\<rparr>) c" if "filters_due env tc st c"
  proof (rule applied_match [OF names])
    have "reachable_cluster env (sy_Registry st) c" using that by (simp add: filters_due_def rate_limit_targets_def)
    with w'(2) show "\<forall>k. fst k = c \<longrightarrow> filter_applied env st tc (efs ?w) k (efs (sy_World (st\<lparr>sy_World := w'\<rparr>)) k)" by simp
  qed simp
  moreover have "filters_match env tc efs (st\<lparr>sy_World := w'\<rparr>) i = filters_match env tc efs st i" if "i \<noteq> c" for i
  proof -
    have "efs w' (ef_key i f) = efs ?w (ef_key i f)" for f using w'(3) that by (simp add: ef_key_def)
    moreover have "managed_filter (en_Params env) tc i (efs w') k = managed_filter (en_Params env) tc i (efs ?w) k" for k
      using w'(3) that by (auto simp: managed_filter_def)
    ultimately show ?thesis by (simp add: filters_match_def)
  qed
  ultimately show ?thesis using w'(1) steady_world [OF steady free'] by (intro exI [of _ "st\<lparr>sy_World := w'\<rparr>"]) simp
qed

subsection \<open>The goroutines\<close>

text \<open>
  Two kinds of things are due: the filters of a cluster, and facts that last once they hold, whatever is added.
\<close>

definition lasting :: "NaavikArgs \<Rightarrow> TrafficConfig \<Rightarrow> (('cc, 'w) system \<Rightarrow> bool) \<Rightarrow> bool" where
  "lasting p tc P \<longleftrightarrow> (\<forall>st. system_ok p st \<and> P st \<longrightarrow> (\<forall>w. P (st\<lparr>sy_World := w\<rparr>))
     \<and> P (st\<lparr>sy_TrafficConfigs := AddTrafficConfigToCache p tc (sy_TrafficConfigs st)\<rparr>)
     \<and> (\<forall>i c. P (st\<lparr>sy_IdentityCluster := AddClusterToIdentity i c (sy_IdentityCluster st)\<rparr>))
     \<and> (\<forall>c w. P (st\<lparr>sy_Deployments := Deployments_Add p c w (sy_Deployments st)\<rparr>))
     \<and> (\<forall>c w. P (st\<lparr>sy_Rollouts := Rollouts_Add p c w (sy_Rollouts st)\<rparr>)))"

definition config_due ::
    "'w environment \<Rightarrow> TrafficConfig \<Rightarrow> (('cc, 'w) system \<Rightarrow> bool) set \<Rightarrow> ('cc, 'w) system \<Rightarrow> string + (('cc, 'w) system \<Rightarrow> bool) \<Rightarrow> bool" where
  "config_due env tc facts st i = (case i of Inl c \<Rightarrow> filters_due env tc st c | Inr P \<Rightarrow> P \<in> facts)"

definition config_met ::
    "'w environment \<Rightarrow> TrafficConfig \<Rightarrow> ('w \<Rightarrow> object_key \<Rightarrow> EnvoyFilter option) \<Rightarrow> ('cc, 'w) system \<Rightarrow> string + (('cc, 'w) system \<Rightarrow> bool) \<Rightarrow> bool" where
  "config_met env tc efs st i = (case i of Inl c \<Rightarrow> filters_match env tc efs st c | Inr P \<Rightarrow> P st)"

lemma config_simps [simp]:
  "config_due env tc facts st (Inl c) = filters_due env tc st c" "config_due env tc facts st (Inr P) = (P \<in> facts)"
  "config_met env tc efs st (Inl c) = filters_match env tc efs st c" "config_met env tc efs st (Inr P) = P st"
  by (simp_all add: config_due_def config_met_def)

definition config_work ::
    "'w environment \<Rightarrow> TrafficConfig \<Rightarrow> ('w \<Rightarrow> object_key \<Rightarrow> EnvoyFilter option) \<Rightarrow> ('w \<Rightarrow> object_key \<Rightarrow> VirtualService option)
       \<Rightarrow> (('cc, 'w) system \<Rightarrow> bool) set \<Rightarrow> bool" where
  "config_work env tc efs vss facts \<longleftrightarrow> config_ready env tc efs vss \<and> (\<forall>P \<in> facts. lasting (en_Params env) tc P)"

lemma keeps_fact:
  assumes "config_work env tc efs vss facts" "steady env tc efs reg dep st" "P \<in> facts" "P st"
  shows "P (st\<lparr>sy_World := w\<rparr>)" "P (st\<lparr>sy_TrafficConfigs := AddTrafficConfigToCache (en_Params env) tc (sy_TrafficConfigs st)\<rparr>)"
    "P (st\<lparr>sy_IdentityCluster := AddClusterToIdentity i c (sy_IdentityCluster st)\<rparr>)"
    "P (st\<lparr>sy_Deployments := Deployments_Add (en_Params env) c x (sy_Deployments st)\<rparr>)"
    "P (st\<lparr>sy_Rollouts := Rollouts_Add (en_Params env) c x (sy_Rollouts st)\<rparr>)"
proof -
  have "lasting (en_Params env) tc P" using assms(1,3) by (simp add: config_work_def)
  with assms(4) steady_ok [OF assms(2)] show "P (st\<lparr>sy_World := w\<rparr>)" "P (st\<lparr>sy_TrafficConfigs := AddTrafficConfigToCache (en_Params env) tc (sy_TrafficConfigs st)\<rparr>)"
    "P (st\<lparr>sy_IdentityCluster := AddClusterToIdentity i c (sy_IdentityCluster st)\<rparr>)"
    "P (st\<lparr>sy_Deployments := Deployments_Add (en_Params env) c x (sy_Deployments st)\<rparr>)"
    "P (st\<lparr>sy_Rollouts := Rollouts_Add (en_Params env) c x (sy_Rollouts st)\<rparr>)"
    by (simp_all add: lasting_def)
qed

lemma keeps_world:
  assumes "config_work env tc efs vss facts" "steady env tc efs reg dep st" "only_world st st'"
    and "\<And>c. i = Inl c \<Longrightarrow> filters_match env tc efs st c \<Longrightarrow> filters_match env tc efs st' c"
    and "config_due env tc facts st' i"
  shows "keeps_met (config_due env tc facts) (config_met env tc efs) st st' i"
proof (cases i)
  case (Inl c)
  have "st' = st\<lparr>sy_World := sy_World st'\<rparr>" using assms(3) by (simp only: only_world_def)
  then have "filters_due env tc st' c = filters_due env tc st c" by (metis due_world)
  with Inl assms(4,5) show ?thesis by (simp add: keeps_met_def)
next
  case (Inr P)
  then have "P st \<Longrightarrow> P (st\<lparr>sy_World := sy_World st'\<rparr>)" using keeps_fact(1) [OF assms(1,2)] assms(5) by simp
  then have "P st \<Longrightarrow> P st'" using assms(3) unfolding only_world_def by metis
  with Inr assms(5) show ?thesis by (simp add: keeps_met_def)
qed

abbreviation owing ::
    "'w environment \<Rightarrow> TrafficConfig \<Rightarrow> ('w \<Rightarrow> object_key \<Rightarrow> EnvoyFilter option) \<Rightarrow> (('cc, 'w) system \<Rightarrow> bool) set \<Rightarrow> 'cc registry \<Rightarrow> dependency_cache
       \<Rightarrow> string + (('cc, 'w) system \<Rightarrow> bool) \<Rightarrow> ('cc, 'w, 'a) goroutine \<Rightarrow> bool" where
  "owing env tc efs facts reg dep \<equiv> owes (steady env tc efs reg dep) (config_due env tc facts) (config_met env tc efs)"

abbreviation orderly ::
    "'w environment \<Rightarrow> TrafficConfig \<Rightarrow> ('w \<Rightarrow> object_key \<Rightarrow> EnvoyFilter option) \<Rightarrow> (('cc, 'w) system \<Rightarrow> bool) set \<Rightarrow> 'cc registry \<Rightarrow> dependency_cache
       \<Rightarrow> nat set \<Rightarrow> nat set \<Rightarrow> ('cc, 'w, 'a) goroutine \<Rightarrow> bool" where
  "orderly env tc efs facts reg dep \<equiv> safe (steady env tc efs reg dep) (config_due env tc facts) (config_met env tc efs)"

lemma orderly_visit:
  fixes env :: "'w environment" and reg :: "'cc registry"
  assumes work: "config_work env tc efs vss facts" and "ToLower c = c" "ev \<noteq> Delete"
  shows "orderly env tc efs facts reg dep own own (whole_cluster env tc ev c)" "owing env tc efs facts reg dep (Inl c) (whole_cluster env tc ev c)"
proof -
  have ready: "config_ready env tc efs vss" using work by (simp add: config_work_def)
  have visit: "\<exists>st'. rate_limit_cluster env tc ev c st = Some st' \<and> steady env tc efs reg dep st'
      \<and> (\<forall>i. config_due env tc facts st' i \<longrightarrow> config_met env tc efs st' i \<or> keeps_met (config_due env tc facts) (config_met env tc efs) st st' i)
      \<and> (filters_due env tc st c \<longrightarrow> filters_match env tc efs st' c)"
    if steady: "steady env tc efs reg dep st" for st
  proof -
    obtain st' where st': "rate_limit_cluster env tc ev c st = Some st'" "steady env tc efs reg dep st'"
      "\<forall>i. filters_due env tc st' i = filters_due env tc st i" "filters_due env tc st c \<longrightarrow> filters_match env tc efs st' c"
      "\<forall>i. i \<noteq> c \<longrightarrow> filters_match env tc efs st' i = filters_match env tc efs st i"
      using visit_settles [OF ready steady assms(2,3)] by blast
    have "config_met env tc efs st' i \<or> keeps_met (config_due env tc facts) (config_met env tc efs) st st' i" if "config_due env tc facts st' i" for i
    proof (cases "i = Inl c")
      case True
      with that st'(3,4) show ?thesis by simp
    next
      case False
      then have "filters_match env tc efs st d \<Longrightarrow> filters_match env tc efs st' d" if "i = Inl d" for d using that st'(5) by simp
      from keeps_world [OF work steady rate_limit_cluster_world [OF st'(1)] this \<open>config_due env tc facts st' i\<close>] show ?thesis by blast
    qed
    with st' show ?thesis by blast
  qed
  show "orderly env tc efs facts reg dep own own (whole_cluster env tc ev c)"
    unfolding whole_cluster_def by (rule safe_act) (use visit in blast, simp add: safe_Return)
  show "owing env tc efs facts reg dep (Inl c) (whole_cluster env tc ev c)"
    unfolding whole_cluster_def act_def
  proof (rule owes_Section)
    fix st st' cs cs' and p :: "('cc, 'w, unit) goroutine"
    assume q: "steady env tc efs reg dep st" "config_due env tc facts st (Inl c)"
      and run: "map_option (\<lambda>s'. (s', Return ())) (on_state (rate_limit_cluster env tc ev c) (st, cs)) = Some ((st', cs'), p)"
    from run have "rate_limit_cluster env tc ev c st = Some st'" by auto
    with visit [OF q(1)] q(2) show "config_met env tc efs st' (Inl c) \<or> owing env tc efs facts reg dep (Inl c) p" by auto
  qed
qed

lemma orderly_rate_limiter:
  assumes "config_work env tc efs vss facts" "ev \<noteq> Delete"
  shows "orderly env tc efs facts reg dep own own (HandleRateLimiter_sections (whole_cluster env) env tc ev)"
    "owing env tc efs facts reg dep (Inl c) (HandleRateLimiter_sections (whole_cluster env) env tc ev)"
proof -
  show "orderly env tc efs facts reg dep own own (HandleRateLimiter_sections (whole_cluster env) env tc ev)"
    unfolding HandleRateLimiter_sections_def
  proof (rule safe_ask)
    fix st and cs :: chans
    assume "steady env tc efs reg dep st"
    then have "orderly env tc efs facts reg dep own own (each (whole_cluster env tc ev)
        (GetClustersForIdentity (sy_IdentityCluster st) (TC_GetIdentity (en_Params env) tc)))"
      by (intro safe_each orderly_visit(1) [OF assms(1) _ assms(2)] targets_of_identity(2) [OF steady_ok])
    then show "orderly env tc efs facts reg dep own own ((\<lambda>clusters.
        if length clusters = 0 then Return () else each (whole_cluster env tc ev) clusters)
        ((\<lambda>(st, cs). GetClustersForIdentity (sy_IdentityCluster st) (TC_GetIdentity (en_Params env) tc)) (st, cs)))"
      by (auto intro: safe_Return)
  qed
  show "owing env tc efs facts reg dep (Inl c) (HandleRateLimiter_sections (whole_cluster env) env tc ev)"
    unfolding HandleRateLimiter_sections_def
  proof (rule owes_ask)
    fix st and cs :: chans
    assume q: "steady env tc efs reg dep st" "config_due env tc facts st (Inl c)"
    then have c: "c \<in> set (GetClustersForIdentity (sy_IdentityCluster st) (TC_GetIdentity (en_Params env) tc))"
      by (simp add: filters_due_def rate_limit_targets_def)
    then have "ToLower c = c" by (rule targets_of_identity(2) [OF steady_ok [OF q(1)]])
    have "owing env tc efs facts reg dep (Inl c) (each (whole_cluster env tc ev)
        (GetClustersForIdentity (sy_IdentityCluster st) (TC_GetIdentity (en_Params env) tc)))"
      by (rule owes_each [OF c], rule orderly_visit(2) [OF assms(1) _ assms(2)]) fact
    with c
    show "owing env tc efs facts reg dep (Inl c) ((\<lambda>clusters.
        if length clusters = 0 then Return () else each (whole_cluster env tc ev) clusters)
        ((\<lambda>(st, cs). GetClustersForIdentity (sy_IdentityCluster st) (TC_GetIdentity (en_Params env) tc)) (st, cs)))" by auto
  qed
qed

text \<open>The virtual services are other objects.\<close>

lemma orderly_virtual_services:
  assumes ready: "config_work env tc efs vss facts" and "\<forall>c \<in> fst ` set clusters. ToLower c = c" "vs_Annotations vs \<noteq> None"
  shows "orderly env tc efs facts reg dep own own (virtual_service_sections env tc clusters vs)"
  using assms(2,3)
proof (induction clusters arbitrary: vs)
  case (Cons x clusters)
  obtain c d where x: "x = (c, d)" by fastforce
  show ?case
    unfolding virtual_service_sections.simps
  proof (rule safe_Section)
    fix st and cs :: chans
    assume steady: "steady env tc efs reg dep st" and open': "own_open own cs"
    have total: "env_total env" and apart: "kinds_apart (en_Api env) efs vss" using ready by (simp_all add: config_work_def config_ready_def)
    have reg: "reg_ok (sy_Registry st)" using steady_ok [OF steady] by (simp add: system_ok_def)
    obtain allowed where allowed: "cluster_scope env c = Some allowed" using total by (fastforce simp: env_total_def)
    have "\<exists>s'. virtual_service_cluster env (sy_Registry st) tc x (vs, sy_World st) = Some s' \<and> vs_Annotations (fst s') \<noteq> None"
      using allowed write_returns [OF Cons.prems(2)] Cons.prems(2)
      by (auto simp: virtual_service_cluster_def x split: option.split)
    then obtain vs' w' where run: "virtual_service_cluster env (sy_Registry st) tc x (vs, sy_World st) = Some (vs', w')" "vs_Annotations vs' \<noteq> None"
      by auto
    have "vs_writes_keep (en_Api env) (reachable_cluster env (sy_Registry st)) (\<lambda>u. efs u = efs (sy_World st))"
      using apart by (auto simp: kinds_apart_def vs_writes_keep_def)
    from virtual_service_cluster_keeps [OF this reg _ run(1) [unfolded x]] Cons.prems(1) have same: "efs w' = efs (sy_World st)"
      by (simp add: x)
    let ?st = "st\<lparr>sy_World := w'\<rparr>"
    have steady': "steady env tc efs reg dep ?st" using steady_world [OF steady, of w'] steady same by (simp add: steady_def)
    have "orderly env tc efs facts reg dep own own (virtual_service_sections env tc clusters vs')" by (rule Cons.IH) (use Cons.prems(1) run(2) in auto)
    with run steady' open' same show "\<exists>st' cs' p own'. (\<lambda>(st, cs). map_option (\<lambda>(vs', w). ((st\<lparr>sy_World := w\<rparr>, cs), virtual_service_sections env tc clusters vs'))
         (virtual_service_cluster env (sy_Registry st) tc x (vs, sy_World st))) (st, cs) = Some ((st', cs'), p) \<and> steady env tc efs reg dep st'
         \<and> grows own cs cs' \<and> own' \<subseteq> own \<union> {length cs..<length cs'} \<and> own_open own' cs' \<and> orderly env tc efs facts reg dep own own' p
         \<and> (\<forall>i. config_due env tc facts st' i \<longrightarrow> config_met env tc efs st' i \<or> owing env tc efs facts reg dep i p
              \<or> keeps_met (config_due env tc facts) (config_met env tc efs) st st' i)"
      using keeps_world [OF ready steady, of ?st]
      by (intro exI [of _ ?st] exI [of _ cs] exI [of _ "virtual_service_sections env tc clusters vs'"] exI [of _ own])
        (auto simp: filters_match_def)
  qed
qed (simp add: safe_Return)

lemma built_annotations:
  assumes "tc_complete tc" "buildVirtualServiceForMeshDependents ext p tc = Inr vs"
  shows "vs_Annotations vs \<noteq> None"
proof -
  obtain es where "tc_EdgeService tc = Some es" using assms(1) by (auto simp: tc_complete_def)
  from assms(2) this show ?thesis by (rule build_cases) (simp add: buildVirtualServiceObject_def)
qed

lemma orderly_dependents:
  assumes ready: "config_work env tc efs vss facts" and "ctx_Context ctx" "\<forall>c \<in> fst ` set clusters. ToLower c = c"
  shows "orderly env tc efs facts reg dep own own (dependent_sections env ctx tc dependents clusters)"
  using assms(3)
proof (induction dependents arbitrary: clusters)
  case Nil
  have complete: "tc_complete tc" using ready by (simp add: config_work_def config_ready_def)
  show ?case
  proof (cases "buildVirtualServiceForMeshDependents (en_Ext env) (en_Params env) tc")
    case (Inr vs)
    show ?thesis using Inr by (simp add: safe_Return orderly_virtual_services [OF ready Nil built_annotations [OF complete Inr]])
  qed (simp add: safe_Return)
next
  case (Cons d dependents)
  have "orderly env tc efs facts reg dep own own (ask (\<lambda>(st, cs). GetClustersForIdentity (sy_IdentityCluster st) d) (\<lambda>found.
      dependent_sections env ctx tc dependents (fold (\<lambda>cluster m. gm_put cluster cluster m) found clusters)))"
  proof (rule safe_ask)
    fix st and cs :: chans
    assume q: "steady env tc efs reg dep st"
    have "fst ` set (fold (\<lambda>c m. gm_put c c m) xs m) = fst ` set m \<union> set xs" for xs and m :: "(string, string) gomap"
      by (induction xs arbitrary: m) (auto simp: gm_put_def dom_update)
    with Cons.prems targets_of_identity(2) [OF steady_ok [OF q]]
    have "\<forall>c \<in> fst ` set (fold (\<lambda>c m. gm_put c c m) (GetClustersForIdentity (sy_IdentityCluster st) d) clusters). ToLower c = c"
      by auto
    then show "orderly env tc efs facts reg dep own own (dependent_sections env ctx tc dependents (fold (\<lambda>cluster m. gm_put cluster cluster m)
        (case (st, cs) of (st, cs) \<Rightarrow> GetClustersForIdentity (sy_IdentityCluster st) d) clusters))"
      using Cons.IH by simp
  qed
  then show ?case using Cons assms(2) by (simp add: Let_def)
qed

lemma orderly_features:
  assumes ready: "config_work env tc efs vss facts" and "ev \<noteq> Delete" "ctx_Log ctx"
  shows "orderly env tc efs facts reg dep own own (run_features_sections (whole_cluster env) env ctx tc ev)"
    "owing env tc efs facts reg dep (Inl c) (run_features_sections (whole_cluster env) env ctx tc ev)"
proof -
  have throttle: "IsFeatureEnabled (en_Params env) FeatureThrottleFilter" using ready by (simp add: config_work_def config_ready_def)
  have "orderly env tc efs facts reg dep own own (HandleVirtualService_sections env (feature_context ctx) tc)"
    unfolding HandleVirtualService_sections_def
    by (auto intro!: safe_ask safe_Return orderly_dependents [OF ready])
  then show "orderly env tc efs facts reg dep own own (run_features_sections (whole_cluster env) env ctx tc ev)"
    using throttle assms(3)
    by (auto simp: run_features_sections_def logging_def intro!: safe_then [OF orderly_rate_limiter(1) [OF ready assms(2)]] safe_Return)
  show "owing env tc efs facts reg dep (Inl c) (run_features_sections (whole_cluster env) env ctx tc ev)"
    using throttle assms(3)
    by (auto simp: run_features_sections_def logging_def intro!: owes_then1 orderly_rate_limiter(2) [OF ready assms(2)])
qed

lemma orderly_finishing:
  "orderly env tc efs facts reg dep {} {c} (finishing (Some c))"
  unfolding finishing_def
proof (rule safe_Section)
  fix st and cs :: chans
  assume "steady env tc efs reg dep st" "own_open {c} cs"
  moreover from this(2) have "finish (Some c) st cs = Some (EventSkip, st, close_with c skip_status cs)"
    by (simp add: own_open_def finish_settles)
  ultimately show "\<exists>st' cs' p own'. (\<lambda>(st, cs). map_option (\<lambda>(status, st', cs'). ((st', cs'), Return status)) (finish (Some c) st cs)) (st, cs)
         = Some ((st', cs'), p) \<and> steady env tc efs reg dep st'
         \<and> grows {c} cs cs' \<and> own' \<subseteq> {c} \<union> {length cs..<length cs'} \<and> own_open own' cs' \<and> orderly env tc efs facts reg dep {} own' p
         \<and> (\<forall>i. config_due env tc facts st' i \<longrightarrow> config_met env tc efs st' i \<or> owing env tc efs facts reg dep i p
              \<or> keeps_met (config_due env tc facts) (config_met env tc efs) st st' i)"
    by (intro exI [of _ st] exI [of _ "close_with c skip_status cs"] exI [of _ "Return EventSkip"] exI [of _ "{}"])
      (simp add: keeps_met_def grows_close_with own_open_def safe_Return)
qed

lemma always_warm: "config_work env tc efs vss facts \<Longrightarrow> cache_warm env st"
  by (simp add: config_work_def config_ready_def cache_warm_def)

lemma orderly_process:
  assumes ready: "config_work env tc efs vss facts" and "ev \<noteq> Delete" "ctx_Log ctx"
  shows "orderly env tc efs facts reg dep {} {d} (process_sections (whole_cluster env) env ctx tc ev (Some d))"
    "owing env tc efs facts reg dep (Inl c) (process_sections (whole_cluster env) env ctx tc ev (Some d))"
proof -
  show "orderly env tc efs facts reg dep {} {d} (process_sections (whole_cluster env) env ctx tc ev (Some d))"
    unfolding process_sections_def
    by (rule safe_ask) (auto simp: always_warm [OF ready] steady_def
        intro!: safe_ask safe_then [OF orderly_features(1) [OF assms] orderly_finishing])
  show "owing env tc efs facts reg dep (Inl c) (process_sections (whole_cluster env) env ctx tc ev (Some d))"
    unfolding process_sections_def
    by (rule owes_ask) (auto simp: always_warm [OF ready] steady_def intro!: owes_ask owes_then1 orderly_features(2) [OF assms])
qed

subsection \<open>Triggered by a workload\<close>

text \<open>The section that announces a child event, and what comes after it.\<close>

definition child_context :: "string option \<Rightarrow> context_t" where
  "child_context source = (case source of None \<Rightarrow> NewContextWithLogger | Some i \<Rightarrow> NewContextWithLogger\<lparr>ctx_SourceIdentity := Some i\<rparr>)"

lemma child_context_log [simp]: "ctx_Log (child_context source)"
  by (simp add: child_context_def NewContextWithLogger_def split: option.split)

definition config_child ::
    "'w environment \<Rightarrow> TrafficConfig \<Rightarrow> string option \<Rightarrow> nat \<Rightarrow> ('cc, 'w, unit) goroutine" where
  "config_child env tc source child = then_do (TrafficConfig_Updated_sections (whole_cluster env) env (child_context source)
     (Some (ObjTrafficConfig tc)) (Some child)) (\<lambda>_. Return ())"

lemma announce_Some:
  assumes "announce_config (whole_cluster env) env ctx source (Some d) tc (st, cs) = Some ((st', cs'), p)"
  shows "\<exists>child. p = config_child env tc source child"
  using assms
  by (auto simp: announce_config_def CreateChildEvent_def NewEventProcessStatus_def Let_def config_child_def child_context_def logging_def
      NewContextWithLogger_def split: option.splits bind_splits if_splits prod.splits)

lemma announce_open:
  assumes "chan_open d cs" "ctx_Log ctx"
  obtains cs1 where "announce_config (whole_cluster env) env ctx source (Some d) tc (st, cs) = Some ((st, cs1), config_child env tc source (length cs))"
    "length cs1 = Suc (length cs)" "chan_open d cs1" "chan_open (length cs) cs1" "grows {d} cs cs1"
proof -
  obtain cs1 child where c: "CreateChildEvent NewEventProcessStatus ctx (Some TrafficConfig_OnStatus) (Some d) cs
      = Some (NewContextWithLogger, Some child, cs1)" "child = length cs" "length cs1 = Suc (length cs)"
    "chan_open d cs1" "chan_open child cs1" "grows {d} cs cs1"
    by (rule CreateChildEvent_open [OF assms])
  have "announce_config (whole_cluster env) env ctx source (Some d) tc (st, cs) = Some ((st, cs1), config_child env tc source (length cs))"
    using c(1,2) by (simp add: announce_config_def config_child_def child_context_def logging_def NewContextWithLogger_def split: option.split)
  with c show ?thesis by (intro that) simp_all
qed

lemma orderly_child:
  assumes ready: "config_work env tc efs vss facts"
  shows "d \<noteq> child \<Longrightarrow> orderly env tc efs facts reg dep {d} {child, d} (config_child env tc source child)"
    "owing env tc efs facts reg dep (Inl c) (config_child env tc source child)"
proof -
  have tc: "\<not> TC_IsDisabled tc" "\<not> TC_IsIgnored (en_Params env) tc" using ready by (simp_all add: config_work_def config_ready_def)
  note process = orderly_process [OF ready _ child_context_log]
  have "orderly env tc efs facts reg dep {} {child} (TrafficConfig_Updated_sections (whole_cluster env) env (child_context source)
      (Some (ObjTrafficConfig tc)) (Some child))"
    using tc by (auto simp: TrafficConfig_Updated_sections_def intro!: process)
  from safe_frame [OF this, of "{d}"] show "d \<noteq> child \<Longrightarrow> orderly env tc efs facts reg dep {d} {child, d} (config_child env tc source child)"
    unfolding config_child_def by (intro safe_then [where mid = "{d}"]) (simp_all add: safe_Return insert_commute)
  show "owing env tc efs facts reg dep (Inl c) (config_child env tc source child)"
    unfolding config_child_def using tc by (auto simp: TrafficConfig_Updated_sections_def intro!: owes_then1 process)
qed

lemma orderly_trigger_config:
  fixes env :: "'w environment" and reg :: "'cc registry"
  assumes ready: "config_work env tc efs vss facts" and ctx: "ctx_Log ctx"
  shows "orderly env tc efs facts reg dep {d} {d} (trigger_config_sections (whole_cluster env) env ctx source (Some d) tc)"
    "owing env tc efs facts reg dep (Inl c) (trigger_config_sections (whole_cluster env) env ctx source (Some d) tc)"
proof -
  show "orderly env tc efs facts reg dep {d} {d} (trigger_config_sections (whole_cluster env) env ctx source (Some d) tc)"
    unfolding trigger_config_sections_def
  proof (rule safe_Section)
    fix st and cs :: chans
    assume q: "steady env tc efs reg dep st" "own_open {d} cs"
    then have d: "chan_open d cs" by (simp add: own_open_def)
    then have fresh: "d \<noteq> length cs" by (simp add: chan_open_def)
    obtain cs1 where cs1: "announce_config (whole_cluster env) env ctx source (Some d) tc (st, cs) = Some ((st, cs1), config_child env tc source (length cs))"
      "length cs1 = Suc (length cs)" "chan_open d cs1" "chan_open (length cs) cs1" "grows {d} cs cs1"
      by (rule announce_open [OF d ctx])
    show "\<exists>st' cs' p own'. announce_config (whole_cluster env) env ctx source (Some d) tc (st, cs) = Some ((st', cs'), p) \<and> steady env tc efs reg dep st'
         \<and> grows {d} cs cs' \<and> own' \<subseteq> {d} \<union> {length cs..<length cs'} \<and> own_open own' cs' \<and> orderly env tc efs facts reg dep {d} own' p
         \<and> (\<forall>i. config_due env tc facts st' i \<longrightarrow> config_met env tc efs st' i \<or> owing env tc efs facts reg dep i p
              \<or> keeps_met (config_due env tc facts) (config_met env tc efs) st st' i)"
      by (rule exI [of _ st], rule exI [of _ cs1], rule exI [of _ "config_child env tc source (length cs)"], rule exI [of _ "{length cs, d}"],
          intro conjI cs1(1,5) q(1) orderly_child(1) [OF ready fresh] allI impI disjI2)
        (simp_all add: cs1(2-4) own_open_def keeps_met_def)
  qed
  show "owing env tc efs facts reg dep (Inl c) (trigger_config_sections (whole_cluster env) env ctx source (Some d) tc)"
    unfolding trigger_config_sections_def
  proof (rule owes_Section)
    fix st st' cs cs' and p :: "('cc, 'w, unit) goroutine"
    assume "announce_config (whole_cluster env) env ctx source (Some d) tc (st, cs) = Some ((st', cs'), p)"
    from announce_Some [OF this] obtain child where "p = config_child env tc source child" by blast
    then show "config_met env tc efs st' (Inl c) \<or> owing env tc efs facts reg dep (Inl c) p" by (simp add: orderly_child(2) [OF ready])
  qed
qed

text \<open>Only the traffic config itself can be cached for the owners whose configs are triggered.\<close>

definition config_owner :: "'w environment \<Rightarrow> TrafficConfig \<Rightarrow> dependency_cache \<Rightarrow> string \<Rightarrow> bool" where
  "config_owner env tc dep owner \<longleftrightarrow> ToLower owner = ToLower (TC_GetIdentity (en_Params env) tc)
     \<or> owner \<in> set (GetDependentsForIdentity dep (TC_GetIdentity (en_Params env) tc))"

lemma owned_entry:
  assumes "steady env tc efs reg dep st" "config_owner env tc dep owner"
    "TCCache_GetTrafficConfigEntry (sy_TrafficConfigs st) owner = Some e" "(x, tc') \<in> set (tce_EnvTrafficConfig e)"
  shows "tc' = tc"
proof -
  have "tcc_ok (en_Params env) (sy_TrafficConfigs st)" using steady_ok [OF assms(1)] by (simp add: system_ok_def)
  from entry_look [OF this assms(3)] assms(4) have "tcc_look (sy_TrafficConfigs st) (ToLower owner, x) = Some tc'" by simp
  with assms(1,2) show ?thesis unfolding steady_def config_owner_def by blast
qed

lemma orderly_trigger_entry:
  fixes env :: "'w environment" and reg :: "'cc registry"
  assumes ready: "config_work env tc efs vss facts" and ctx: "ctx_Log ctx" and owner: "config_owner env tc dep owner"
  shows "orderly env tc efs facts reg dep {d} {d} (trigger_entry_sections (whole_cluster env) env ctx source (Some d) owner)"
    "ToLower owner = ToLower (TC_GetIdentity (en_Params env) tc) \<Longrightarrow>
       owing env tc efs facts reg dep (Inl c) (trigger_entry_sections (whole_cluster env) env ctx source (Some d) owner)"
proof -
  note one = orderly_trigger_config [OF ready ctx]
  show "orderly env tc efs facts reg dep {d} {d} (trigger_entry_sections (whole_cluster env) env ctx source (Some d) owner)"
    unfolding trigger_entry_sections_def
    by (rule safe_ask) (auto dest: owned_entry [OF _ owner] intro!: safe_Return safe_each one(1) split: option.split)
  assume same: "ToLower owner = ToLower (TC_GetIdentity (en_Params env) tc)"
  show "owing env tc efs facts reg dep (Inl c) (trigger_entry_sections (whole_cluster env) env ctx source (Some d) owner)"
    unfolding trigger_entry_sections_def
  proof (rule owes_ask)
    fix st and cs :: chans
    assume q: "steady env tc efs reg dep st" "config_due env tc facts st (Inl c)"
    let ?x = "ToLower (TC_GetEnv tc)"
    have look: "tcc_look (sy_TrafficConfigs st) (ToLower owner, ?x) = Some tc"
      using q(2) same by (simp add: filters_due_def TCCache_Get_look)
    then obtain e where e: "TCCache_GetTrafficConfigEntry (sy_TrafficConfigs st) owner = Some e"
      using entry_none [of "sy_TrafficConfigs st" owner ?x] by fastforce
    have "tcc_ok (en_Params env) (sy_TrafficConfigs st)" using steady_ok [OF q(1)] by (simp add: system_ok_def)
    from entry_look [OF this e] look have "(?x, tc) \<in> set (tce_EnvTrafficConfig e)" by simp
    then have "owing env tc efs facts reg dep (Inl c) (each (\<lambda>(workload_env, tc). trigger_config_sections (whole_cluster env) env ctx source (Some d) tc)
        (tce_EnvTrafficConfig e))"
      by (rule owes_each) (simp add: one(2))
    with e show "owing env tc efs facts reg dep (Inl c) ((\<lambda>entry. case entry of None \<Rightarrow> Return ()
        | Some tcEntry \<Rightarrow> each (\<lambda>(workload_env, tc). trigger_config_sections (whole_cluster env) env ctx source (Some d) tc) (tce_EnvTrafficConfig tcEntry))
        ((\<lambda>(st, cs). TCCache_GetTrafficConfigEntry (sy_TrafficConfigs st) owner) (st, cs)))" by simp
  qed
qed

lemma orderly_Trigger:
  assumes ready: "config_work env tc efs vss facts" and ctx: "ctx_Log ctx" and identity: "ToLower identity = ToLower (TC_GetIdentity (en_Params env) tc)"
  shows "orderly env tc efs facts reg dep {d} {d} (Trigger_sections (whole_cluster env) env ctx identity (Some d))"
    "owing env tc efs facts reg dep (Inl c) (Trigger_sections (whole_cluster env) env ctx identity (Some d))"
proof -
  have own: "config_owner env tc dep identity" using identity by (simp add: config_owner_def)
  have dependents: "GetDependentsForIdentity dep identity = GetDependentsForIdentity dep (TC_GetIdentity (en_Params env) tc)"
    using identity by (simp add: GetDependentsForIdentity_def)
  have loop: "orderly env tc efs facts reg dep {d} {d} (ask (\<lambda>(st, cs). GetDependentsForIdentity (sy_IdentityDependency st) identity)
      (each (trigger_entry_sections (whole_cluster env) env ctx (Some identity) (Some d))))"
    by (rule safe_ask) (auto simp: steady_def dependents config_owner_def intro!: safe_each orderly_trigger_entry(1) [OF ready ctx])
  show "orderly env tc efs facts reg dep {d} {d} (Trigger_sections (whole_cluster env) env ctx identity (Some d))"
    using ctx by (auto simp: Trigger_sections_def logging_def intro!: safe_then [OF orderly_trigger_entry(1) [OF ready ctx own] loop])
  show "owing env tc efs facts reg dep (Inl c) (Trigger_sections (whole_cluster env) env ctx identity (Some d))"
    using ctx by (auto simp: Trigger_sections_def logging_def intro!: owes_then1 orderly_trigger_entry(2) [OF ready ctx own identity])
qed

text \<open>A change of the caches that keeps the facts, by a goroutine that owes the filters of every cluster.\<close>

lemma orderly_change:
  fixes env :: "'w environment" and reg :: "'cc registry"
  assumes steady: "\<And>st. steady env tc efs reg dep st \<Longrightarrow> steady env tc efs reg dep (h st)"
    and facts: "\<And>st P. steady env tc efs reg dep st \<Longrightarrow> P \<in> facts \<Longrightarrow> P st \<Longrightarrow> P (h st)"
    and owing: "\<And>c. owing env tc efs facts reg dep (Inl c) p" and rest: "orderly env tc efs facts reg dep post own p"
  shows "orderly env tc efs facts reg dep post own (act (on_state (\<lambda>st. Some (h st))) p)"
proof (rule safe_act)
  fix st
  assume q: "steady env tc efs reg dep st"
  have "config_met env tc efs (h st) i \<or> owing env tc efs facts reg dep i p
      \<or> keeps_met (config_due env tc facts) (config_met env tc efs) st (h st) i" if due: "config_due env tc facts (h st) i" for i
  proof (cases i)
    case (Inl c)
    then show ?thesis using owing by simp
  next
    case (Inr P)
    from due have P: "P \<in> facts" unfolding Inr config_simps .
    have "P st \<longrightarrow> P (h st)" using facts [OF q P] by (rule impI)
    with P have "keeps_met (config_due env tc facts) (config_met env tc efs) st (h st) i"
      unfolding Inr keeps_met_def config_simps by (rule conjI)
    then show ?thesis by (intro disjI2)
  qed
  with steady [OF q] show "\<exists>st'. Some (h st) = Some st' \<and> steady env tc efs reg dep st' \<and> (\<forall>i. config_due env tc facts st' i \<longrightarrow>
      config_met env tc efs st' i \<or> owing env tc efs facts reg dep i p \<or> keeps_met (config_due env tc facts) (config_met env tc efs) st st' i)"
    by blast
qed (rule rest)

text \<open>The addition of a workload.  Whatever cache it is put into, the rest of the goroutine triggers the traffic config.\<close>

lemma steady_cluster:
  "steady env tc efs reg dep st \<Longrightarrow> steady env tc efs reg dep (st\<lparr>sy_IdentityCluster := AddClusterToIdentity i c (sy_IdentityCluster st)\<rparr>)"
  using state_step_ok [OF add_cluster] by (auto simp: steady_def)

lemma orderly_workload:
  fixes env :: "'w environment" and reg :: "'cc registry"
  assumes ready: "config_work env tc efs vss facts" and ctx: "ctx_Log ctx"
    and w: "\<And>x. w = Some x \<Longrightarrow> ToLower (GetWorkloadIdentifier (en_Params env) (wl_Template x)) = ToLower (TC_GetIdentity (en_Params env) tc)"
    and put: "\<And>x st. steady env tc efs reg dep st \<Longrightarrow> steady env tc efs reg dep (put x st)"
    and put_facts: "\<And>x st P. steady env tc efs reg dep st \<Longrightarrow> P \<in> facts \<Longrightarrow> P st \<Longrightarrow> P (put x st)"
  shows "orderly env tc efs facts reg dep {} {d} (workload_added_sections (whole_cluster env) env clusterID ctx put w (Some d))"
proof (cases w)
  case None
  then show ?thesis using ctx by (auto simp: workload_added_sections_def logging_def intro!: orderly_finishing)
next
  case (Some x)
  note trigger = orderly_Trigger [OF ready ctx w [OF Some]]
  let ?identity = "GetWorkloadIdentifier (en_Params env) (wl_Template x)"
  let ?rest = "then_do (Trigger_sections (whole_cluster env) env ctx ?identity (Some d)) (\<lambda>_. finishing (Some d))"
  let ?warm = "ask (\<lambda>(st, cs). cache_warm env st) (\<lambda>warm. if \<not> warm then finishing (Some d) else ?rest) :: ('cc, 'w, EventStatus) goroutine"
  have safe: "orderly env tc efs facts reg dep {} {d} ?warm"
    by (rule safe_ask) (auto simp: always_warm [OF ready] intro!: safe_then [OF trigger(1) orderly_finishing])
  have owes: "owing env tc efs facts reg dep (Inl c) ?warm" for c
    by (rule owes_ask) (auto simp: always_warm [OF ready] intro!: owes_then1 trigger(2))
  have "orderly env tc efs facts reg dep {} {d}
     (act (on_state (\<lambda>st. Some (st\<lparr>sy_IdentityCluster := AddClusterToIdentity ?identity clusterID (sy_IdentityCluster st)\<rparr>)))
     (act (on_state (\<lambda>st. Some (put x st))) ?warm))"
  proof (rule orderly_change [where h = "\<lambda>st. st\<lparr>sy_IdentityCluster := AddClusterToIdentity ?identity clusterID (sy_IdentityCluster st)\<rparr>"])
    show "orderly env tc efs facts reg dep {} {d} (act (on_state (\<lambda>st. Some (put x st))) ?warm)"
      by (rule orderly_change [where h = "put x"], rule put, assumption, rule put_facts, assumption+, rule owes, rule safe)
  qed (rule steady_cluster, assumption, rule keeps_fact(3) [OF ready], assumption+, rule owes_act, rule owes)
  with Some ctx show ?thesis
    by (simp add: workload_added_sections_def logging_def Let_def orderly_finishing)
qed

end
