(* ===== verification/Arrivals.thy ===== *)
theory Arrivals
  imports Interleavings
begin

text \<open>
  A traffic config is added while workloads of its identity come up, every event in a goroutine of its own:
  whatever the order of their sections, no envoy filter is missing at the end.
\<close>

datatype arrival = DeploymentArrives string Workload nat | RolloutArrives string Workload nat

fun arrival_cluster :: "arrival \<Rightarrow> string" where
  "arrival_cluster (DeploymentArrives c w d) = c"
| "arrival_cluster (RolloutArrives c w d) = c"

fun arrival_workload :: "arrival \<Rightarrow> Workload" where
  "arrival_workload (DeploymentArrives c w d) = w"
| "arrival_workload (RolloutArrives c w d) = w"

fun arrival_channel :: "arrival \<Rightarrow> nat" where
  "arrival_channel (DeploymentArrives c w d) = d"
| "arrival_channel (RolloutArrives c w d) = d"

text \<open>The goroutine of the event, with the context the controllers create.\<close>

fun arrives :: "'w environment \<Rightarrow> arrival \<Rightarrow> ('cc, 'w, EventStatus) goroutine" where
  "arrives env (DeploymentArrives c w d) =
     Deployment_Added_sections (whole_cluster env) env c NewContextWithLogger (Some (ObjDeployment w)) (Some d)"
| "arrives env (RolloutArrives c w d) =
     Rollout_Added_sections (whole_cluster env) env c NewContextWithLogger (Some (ObjRollout w)) (Some d)"

text \<open>What the event leaves in the caches.\<close>

fun arrival_slot :: "NaavikArgs \<Rightarrow> arrival \<Rightarrow> ('cc, 'w) system \<Rightarrow> bool" where
  "arrival_slot p (DeploymentArrives c w d) st \<longleftrightarrow> cc_look (sy_Deployments st) (Workload_slot p c w) \<noteq> None"
| "arrival_slot p (RolloutArrives c w d) st \<longleftrightarrow> cc_look (sy_Rollouts st) (Workload_slot p c w) \<noteq> None"

definition arrival_known :: "NaavikArgs \<Rightarrow> arrival \<Rightarrow> ('cc, 'w) system \<Rightarrow> bool" where
  "arrival_known p a st \<longleftrightarrow> ToLower (arrival_cluster a)
     \<in> set (GetClustersForIdentity (sy_IdentityCluster st) (GetWorkloadIdentifier p (wl_Template (arrival_workload a))))"

definition arrival_ready :: "'w environment \<Rightarrow> TrafficConfig \<Rightarrow> arrival \<Rightarrow> bool" where
  "arrival_ready env tc a \<longleftrightarrow> (let t = wl_Template (arrival_workload a) in
     \<not> IsResourceIgnored (en_Params env) t \<and> IsResourceMeshEnabled (en_Params env) t
     \<and> GetWorkloadIdentifier (en_Params env) t \<noteq> []
     \<and> ToLower (GetWorkloadIdentifier (en_Params env) t) = ToLower (TC_GetIdentity (en_Params env) tc))"

definition config_cached :: "NaavikArgs \<Rightarrow> TrafficConfig \<Rightarrow> ('cc, 'w) system \<Rightarrow> bool" where
  "config_cached p tc st \<longleftrightarrow> TCCache_Get (sy_TrafficConfigs st) (TC_GetIdentity p tc) (TC_GetEnv tc) = Some tc"

subsection \<open>Facts that last\<close>

lemma look_config: "tcc_ok p s \<Longrightarrow> TC_GetEnv tc \<noteq> [] \<Longrightarrow> tcc_look (AddTrafficConfigToCache p tc s) = (tcc_look s)(TC_slot p tc \<mapsto> tc)"
  by (simp add: tcc_look_Add TC_EnvLowerCase_def)

lemma config_cached_look: "config_cached p tc st \<longleftrightarrow> tcc_look (sy_TrafficConfigs st) (TC_slot p tc) = Some tc"
  by (simp add: config_cached_def TCCache_Get_look TC_slot_def TC_GetIdentityLowerCase_def TC_EnvLowerCase_def)

lemma cached_after: "system_ok p st \<Longrightarrow> TC_GetEnv tc \<noteq> [] \<Longrightarrow>
    config_cached p tc (st\<lparr>sy_TrafficConfigs := AddTrafficConfigToCache p tc (sy_TrafficConfigs st)\<rparr>)"
  by (simp add: config_cached_look look_config system_ok_def)

lemma config_cached_lasts: "TC_GetEnv tc \<noteq> [] \<Longrightarrow> lasting p tc (config_cached p tc)"
  by (auto simp: lasting_def cached_after) (simp_all add: config_cached_def)

lemma arrival_known_lasts: "lasting p tc (arrival_known p a)"
  by (auto simp: lasting_def arrival_known_def system_ok_def id_cluster.items_add)

lemma arrival_slot_lasts: "lasting p tc (arrival_slot p a)"
  by (cases a) (auto simp: lasting_def system_ok_def dep_cache.look_add ro_cache.look_add)

subsection \<open>The goroutines\<close>

lemma steady_config:
  assumes "steady env tc efs reg dep st" "TC_GetEnv tc \<noteq> []"
  shows "steady env tc efs reg dep (st\<lparr>sy_TrafficConfigs := AddTrafficConfigToCache (en_Params env) tc (sy_TrafficConfigs st)\<rparr>)"
proof -
  have ok: "tcc_ok (en_Params env) (sy_TrafficConfigs st)" using steady_ok [OF assms(1)] by (simp add: system_ok_def)
  show ?thesis using assms state_step_ok [OF add_traffic_config steady_ok [OF assms(1)], of tc]
    by (auto simp: steady_def look_config [OF ok assms(2)] split: if_splits)
qed

lemma steady_workload:
  assumes "steady env tc efs reg dep st"
  shows "steady env tc efs reg dep (st\<lparr>sy_Deployments := Deployments_Add (en_Params env) c w (sy_Deployments st)\<rparr>)"
    "steady env tc efs reg dep (st\<lparr>sy_Rollouts := Rollouts_Add (en_Params env) c w (sy_Rollouts st)\<rparr>)"
  using assms state_step_ok [OF add_deployment steady_ok [OF assms]] state_step_ok [OF add_rollout steady_ok [OF assms]]
  by (simp_all add: steady_def)

lemma orderly_config:
  fixes env :: "'w environment" and reg :: "'cc registry"
  assumes ready: "config_work env tc efs vss facts" and ctx: "ctx_Log ctx"
  shows "orderly env tc efs facts reg dep {} {d} (TrafficConfig_Added_sections (whole_cluster env) env ctx (Some (ObjTrafficConfig tc)) (Some d))"
    "owing env tc efs facts reg dep (Inl c) (TrafficConfig_Added_sections (whole_cluster env) env ctx (Some (ObjTrafficConfig tc)) (Some d))"
    "owing env tc efs facts reg dep (Inr (config_cached (en_Params env) tc))
       (TrafficConfig_Added_sections (whole_cluster env) env ctx (Some (ObjTrafficConfig tc)) (Some d))"
proof -
  have tc: "\<not> TC_IsDisabled tc" "\<not> TC_IsIgnored (en_Params env) tc" "TC_GetEnv tc \<noteq> []"
    using ready by (simp_all add: config_work_def config_ready_def)
  note process = orderly_process [OF ready _ ctx]
  let ?h = "\<lambda>st. st\<lparr>sy_TrafficConfigs := AddTrafficConfigToCache (en_Params env) tc (sy_TrafficConfigs st)\<rparr>"
  have "orderly env tc efs facts reg dep {} {d} (act (on_state (\<lambda>st. Some (?h st))) (process_sections (whole_cluster env) env ctx tc Add (Some d)))"
  proof (rule orderly_change [where h = ?h])
    show "owing env tc efs facts reg dep (Inl c) (process_sections (whole_cluster env) env ctx tc Add (Some d))" for c
      by (rule process(2)) simp
    show "orderly env tc efs facts reg dep {} {d} (process_sections (whole_cluster env) env ctx tc Add (Some d))"
      by (rule process(1)) simp
  qed (rule steady_config, assumption, rule tc(3), rule keeps_fact(2) [OF ready], assumption+)
  then show "orderly env tc efs facts reg dep {} {d} (TrafficConfig_Added_sections (whole_cluster env) env ctx (Some (ObjTrafficConfig tc)) (Some d))"
    using tc by (simp add: TrafficConfig_Added_sections_def)
  show "owing env tc efs facts reg dep (Inl c) (TrafficConfig_Added_sections (whole_cluster env) env ctx (Some (ObjTrafficConfig tc)) (Some d))"
    using tc by (auto simp: TrafficConfig_Added_sections_def intro!: owes_act process(2))
  show "owing env tc efs facts reg dep (Inr (config_cached (en_Params env) tc))
       (TrafficConfig_Added_sections (whole_cluster env) env ctx (Some (ObjTrafficConfig tc)) (Some d))"
    using tc by (auto simp: TrafficConfig_Added_sections_def cached_after steady_ok intro!: owes_met)
qed

lemma owing_workload:
  assumes "ctx_Log ctx" "\<not> IsResourceIgnored (en_Params env) (wl_Template w)" "IsResourceMeshEnabled (en_Params env) (wl_Template w)"
    "GetWorkloadIdentifier (en_Params env) (wl_Template w) \<noteq> []"
  shows "(\<And>st. steady env tc efs reg dep st \<Longrightarrow>
        P (st\<lparr>sy_IdentityCluster := AddClusterToIdentity (GetWorkloadIdentifier (en_Params env) (wl_Template w)) clusterID (sy_IdentityCluster st)\<rparr>)) \<Longrightarrow>
      owing env tc efs facts reg dep (Inr P) (workload_added_sections work env clusterID ctx put (Some w) (Some d))"
    "(\<And>st. steady env tc efs reg dep st \<Longrightarrow> P (put w st)) \<Longrightarrow>
      owing env tc efs facts reg dep (Inr P) (workload_added_sections work env clusterID ctx put (Some w) (Some d))"
proof -
  let ?identity = "GetWorkloadIdentifier (en_Params env) (wl_Template w)"
  obtain p where p: "workload_added_sections work env clusterID ctx put (Some w) (Some d)
      = act (on_state (\<lambda>st. Some (st\<lparr>sy_IdentityCluster := AddClusterToIdentity ?identity clusterID (sy_IdentityCluster st)\<rparr>)))
          (act (on_state (\<lambda>st. Some (put w st))) p)"
    using assms by (auto simp: workload_added_sections_def logging_def Let_def)
  show "(\<And>st. steady env tc efs reg dep st \<Longrightarrow> P (st\<lparr>sy_IdentityCluster := AddClusterToIdentity ?identity clusterID (sy_IdentityCluster st)\<rparr>)) \<Longrightarrow>
      owing env tc efs facts reg dep (Inr P) (workload_added_sections work env clusterID ctx put (Some w) (Some d))"
    unfolding p by (rule owes_met) auto
  show "(\<And>st. steady env tc efs reg dep st \<Longrightarrow> P (put w st)) \<Longrightarrow>
      owing env tc efs facts reg dep (Inr P) (workload_added_sections work env clusterID ctx put (Some w) (Some d))"
    unfolding p by (rule owes_act, rule owes_met) auto
qed

lemma orderly_arrival:
  fixes env :: "'w environment" and reg :: "'cc registry"
  assumes ready: "config_work env tc efs vss facts" and a: "arrival_ready env tc a"
  shows "orderly env tc efs facts reg dep {} {arrival_channel a} (arrives env a)"
    "owing env tc efs facts reg dep (Inr (arrival_known (en_Params env) a)) (arrives env a)"
    "owing env tc efs facts reg dep (Inr (arrival_slot (en_Params env) a)) (arrives env a)"
proof -
  let ?p = "en_Params env"
  have w: "\<not> IsResourceIgnored ?p (wl_Template (arrival_workload a))" "IsResourceMeshEnabled ?p (wl_Template (arrival_workload a))"
    "GetWorkloadIdentifier ?p (wl_Template (arrival_workload a)) \<noteq> []"
    "ToLower (GetWorkloadIdentifier ?p (wl_Template (arrival_workload a))) = ToLower (TC_GetIdentity ?p tc)"
    using a by (simp_all add: arrival_ready_def Let_def)
  have log: "ctx_Log NewContextWithLogger" by (simp add: NewContextWithLogger_def)
  have sys: "steady env tc efs reg dep st \<Longrightarrow> sm_ok (sy_IdentityCluster st) \<and> cc_ok (sy_Deployments st) \<and> cc_ok (sy_Rollouts st)" for st
    using steady_ok [of env tc efs reg dep st] by (simp add: system_ok_def)
  have keeps: "Workload_keeps ?p (arrival_workload a)" using w(3) by (simp add: Workload_keeps_def Workload_identity_def)
  have "orderly env tc efs facts reg dep {} {arrival_channel a} (arrives env a)
    \<and> owing env tc efs facts reg dep (Inr (arrival_known ?p a)) (arrives env a)
    \<and> owing env tc efs facts reg dep (Inr (arrival_slot ?p a)) (arrives env a)"
  proof (cases a)
    case (DeploymentArrives c x d)
    have "orderly env tc efs facts reg dep {} {arrival_channel a} (arrives env a)"
      unfolding DeploymentArrives arrives.simps Deployment_Added_sections_def as_Deployment.simps arrival_channel.simps
      by (rule orderly_workload [OF ready log])
        (use w(4) DeploymentArrives in simp, rule steady_workload(1), assumption, rule keeps_fact(4) [OF ready], assumption+)
    moreover have "owing env tc efs facts reg dep (Inr (arrival_known ?p a)) (arrives env a)"
      unfolding DeploymentArrives arrives.simps Deployment_Added_sections_def as_Deployment.simps
      by (rule owing_workload(1) [OF log])
        (use w(1-3) in \<open>simp_all add: DeploymentArrives arrival_known_def id_cluster.items_add sys\<close>)
    moreover have "owing env tc efs facts reg dep (Inr (arrival_slot ?p a)) (arrives env a)"
      unfolding DeploymentArrives arrives.simps Deployment_Added_sections_def as_Deployment.simps
      by (rule owing_workload(2) [OF log])
        (use w(1-3) keeps in \<open>simp_all add: DeploymentArrives dep_cache.look_add sys\<close>)
    ultimately show ?thesis by blast
  next
    case (RolloutArrives c x d)
    have "orderly env tc efs facts reg dep {} {arrival_channel a} (arrives env a)"
      unfolding RolloutArrives arrives.simps Rollout_Added_sections_def as_Rollout.simps arrival_channel.simps
      by (rule orderly_workload [OF ready log])
        (use w(4) RolloutArrives in simp, rule steady_workload(2), assumption, rule keeps_fact(5) [OF ready], assumption+)
    moreover have "owing env tc efs facts reg dep (Inr (arrival_known ?p a)) (arrives env a)"
      unfolding RolloutArrives arrives.simps Rollout_Added_sections_def as_Rollout.simps
      by (rule owing_workload(1) [OF log])
        (use w(1-3) in \<open>simp_all add: RolloutArrives arrival_known_def id_cluster.items_add sys\<close>)
    moreover have "owing env tc efs facts reg dep (Inr (arrival_slot ?p a)) (arrives env a)"
      unfolding RolloutArrives arrives.simps Rollout_Added_sections_def as_Rollout.simps
      by (rule owing_workload(2) [OF log])
        (use w(1-3) keeps in \<open>simp_all add: RolloutArrives ro_cache.look_add sys\<close>)
    ultimately show ?thesis by blast
  qed
  then show "orderly env tc efs facts reg dep {} {arrival_channel a} (arrives env a)"
    "owing env tc efs facts reg dep (Inr (arrival_known ?p a)) (arrives env a)"
    "owing env tc efs facts reg dep (Inr (arrival_slot ?p a)) (arrives env a)" by blast+
qed

subsection \<open>All of them\<close>

definition arrivals ::
    "'w environment \<Rightarrow> TrafficConfig \<Rightarrow> nat \<Rightarrow> arrival list \<Rightarrow> ('cc, 'w, EventStatus) goroutine list" where
  "arrivals env tc d as = TrafficConfig_Added_sections (whole_cluster env) env NewContextWithLogger (Some (ObjTrafficConfig tc)) (Some d)
     # map (arrives env) as"

definition arrival_facts :: "NaavikArgs \<Rightarrow> TrafficConfig \<Rightarrow> arrival list \<Rightarrow> (('cc, 'w) system \<Rightarrow> bool) set" where
  "arrival_facts p tc as = insert (config_cached p tc) (arrival_known p ` set as \<union> arrival_slot p ` set as)"

lemma arrivals_pool:
  fixes env :: "'w environment" and st :: "('cc, 'w) system"
  assumes ready: "config_ready env tc efs vss" and steady: "steady env tc efs reg dep st"
    and as: "\<forall>a \<in> set as. arrival_ready env tc a"
    and channels: "distinct (d # map arrival_channel as)" "\<forall>c \<in> set (d # map arrival_channel as). chan_open c cs"
  shows "pool_ok (steady env tc efs reg dep) (config_due env tc (arrival_facts (en_Params env) tc as)) (config_met env tc efs)
    (map (\<lambda>c. {c}) (d # map arrival_channel as)) ((st, cs), arrivals env tc d as)"
proof -
  let ?p = "en_Params env" and ?ds = "d # map arrival_channel as"
  let ?F = "arrival_facts ?p tc as :: (('cc, 'w) system \<Rightarrow> bool) set"
  have env: "TC_GetEnv tc \<noteq> []" using ready by (simp add: config_ready_def)
  have work: "config_work env tc efs vss ?F"
    using ready by (auto simp: config_work_def arrival_facts_def config_cached_lasts [OF env] arrival_known_lasts arrival_slot_lasts)
  have log: "ctx_Log NewContextWithLogger" by (simp add: NewContextWithLogger_def)
  note config = orderly_config [OF work log]
  have safe: "orderly env tc efs ?F reg dep {} {?ds ! j} (arrivals env tc d as ! j)" if "j < length (arrivals env tc d as)" for j
    using that as by (cases j) (auto simp: arrivals_def intro!: config(1) orderly_arrival(1) [OF work])
  have owes: "\<exists>p \<in> set (arrivals env tc d as). owing env tc efs ?F reg dep i p" if due: "config_due env tc ?F st i" for i
  proof (cases i)
    case (Inl c)
    then show ?thesis using config(2) by (simp add: arrivals_def)
  next
    case (Inr P)
    with due have "P = config_cached ?p tc \<or> (\<exists>a \<in> set as. P = arrival_known ?p a \<or> P = arrival_slot ?p a)" by (auto simp: arrival_facts_def)
    then show ?thesis
    proof
      assume "\<exists>a \<in> set as. P = arrival_known ?p a \<or> P = arrival_slot ?p a"
      then obtain a where a: "a \<in> set as" "P = arrival_known ?p a \<or> P = arrival_slot ?p a" by blast
      then have "owing env tc efs ?F reg dep i (arrives env a)" using orderly_arrival(2,3) [OF work] as Inr by blast
      with a(1) show ?thesis by (auto simp: arrivals_def)
    qed (simp add: arrivals_def Inr config(3))
  qed
  show ?thesis by (rule pool_start [OF steady _ channels safe owes]) (simp_all add: arrivals_def)
qed

subsection \<open>Properties\<close>


subsection \<open>Witnesses\<close>

text \<open>A program that may write, with a remote cluster and no workloads or traffic configs yet.\<close>

definition arriving_system :: "(unit, server) system" where
  "arriving_system = (sample_system ([], []))\<lparr>sy_Lease := noOp_RunStateCheck initialLeaseState\<rparr>"

definition shop_arrival :: arrival where
  "shop_arrival = DeploymentArrives ''c1'' shop_workload 1"

lemma sample_config_ready: "config_ready sample_env rate_tc sample_efs sample_vss"
proof -
  have "env_total sample_env" by (auto simp: env_total_def sample_scope) (simp_all add: sample_env_def sample_api_def)
  moreover have "IsFeatureEnabled (InitializeNaavikArgs None) FeatureThrottleFilter" "CacheRefreshInterval (InitializeNaavikArgs None) = minute"
    "minute < 2 * minute" "distinct (throttle_names sample_env rate_tc)" by code_simp+
  moreover have "\<forall>w. IsCacheWarmedUp (en_Params sample_env) (en_StartUpTime sample_env) (en_Now sample_env w)"
    using calculation(3,4) by (simp add: IsCacheWarmedUp_def event_params) (simp add: sample_env_def)
  ultimately show ?thesis using event_laws event_tc by (simp add: config_ready_def tc_complete_def event_params)
qed

lemma arriving_steady: "steady sample_env rate_tc sample_efs (sy_Registry arriving_system) (sy_IdentityDependency arriving_system) arriving_system"
  using sample_system_ok [of "([], [])"]
  by (simp add: steady_def arriving_system_def IsReadOnly_def noOp_RunStateCheck_def names_free_def)
    (simp add: system_ok_def sample_system_def initial_system_def TCCache_Reset_def sample_efs_def gm_get_def)

lemma shop_arrival_ready: "arrival_ready sample_env rate_tc shop_arrival"
  unfolding event_params arrival_ready_def by code_simp


end
