(* ===== verification/Races.thy ===== *)
theory Races
  imports Arrivals
begin

text \<open>
  Two orders of sections the program does not exclude, in which goroutines that work with what they read
  earlier undo the work of others.
\<close>

subsection \<open>Filters computed before a workload came up\<close>

text \<open>
  The identity \<open>Shop\<close> is known to run in the cluster; its traffic config and one more workload are added at
  the same time.
\<close>

definition shop_system :: "(unit, server) system" where
  "shop_system = arriving_system\<lparr>sy_IdentityCluster := AddClusterToIdentity ''Shop'' ''c1'' (sy_IdentityCluster arriving_system)\<rparr>"

definition stale_run :: "(((unit, server) system \<times> chans) \<times> (unit, server, EventStatus) goroutine list) option" where
  "stale_run = interleave (replicate 5 0 @ replicate 19 1 @ replicate 7 0) ((shop_system, sample_chans @ sample_chans),
     [TrafficConfig_Added_sections (split_cluster sample_env) sample_env NewContextWithLogger (Some (ObjTrafficConfig rate_tc)) (Some 0),
      Deployment_Added_sections (split_cluster sample_env) sample_env ''c1'' NewContextWithLogger (Some (ObjDeployment shop_workload)) (Some 1)])"

definition returned :: "('s, 'a) activity \<Rightarrow> bool" where
  "returned p = (case p of Return a \<Rightarrow> True | Section f \<Rightarrow> False)"

lemma finished_returned:
  fixes ps :: "('s, 'a) activity list"
  shows "finished ps = list_all returned ps"
proof -
  have "(\<exists>a. p = Return a) = returned p" for p :: "('s, 'a) activity" by (cases p) (simp_all add: returned_def)
  then show ?thesis unfolding finished_def list_all_iff by simp
qed


subsection \<open>A traffic config deleted while it is triggered\<close>

text \<open>The traffic config and its filter are in place; a workload comes up while the traffic config is deleted.\<close>

definition back_run :: "(((unit, server) system \<times> chans) \<times> (unit, server, EventStatus) goroutine list) option" where
  "back_run = interleave (replicate 4 0 @ replicate 20 1 @ replicate 20 0) ((event_system (rate_server ''qa''), sample_chans @ sample_chans),
     [Deployment_Added_sections (whole_cluster sample_env) sample_env ''c1'' NewContextWithLogger (Some (ObjDeployment shop_workload)) (Some 0),
      TrafficConfig_Deleted_sections (whole_cluster sample_env) sample_env NewContextWithLogger (Some (ObjTrafficConfig rate_tc)) (Some 1)])"


end
